(* ===== verification/Prelude.thy ===== *)
theory Prelude
  imports Main "HOL-Library.Word"
begin

text \<open>
  What every component of the development shares: the result and panic types of
  the Rust code, byte strings, the list operations of Rust slices
  (\<open>position\<close>, \<open>split\<close>, range indexing), and the locale of a state
  machine with an invariant. Nothing here is specific to crudeoauth.
\<close>

section \<open>Fact collections\<close>

named_theorems rust_defs \<open>definitions that evaluation of concrete inputs unfolds\<close>
named_theorems result_simps \<open>rules about the sum type used for \<open>Result\<close>\<close>

section \<open>Bytes, results, panics\<close>

text \<open>
  A Rust \<open>u8\<close> is an Isabelle \<open>char\<close> (both have 256 values), a \<open>&[u8]\<close> or
  \<open>Vec<u8>\<close> a list of them. A Rust \<open>str\<close> or \<open>String\<close> is the list of its UTF-8
  bytes, the way the language stores it.
\<close>

type_synonym byte = char
type_synonym bytes = "char list"

text \<open>
  \<open>Result<T, E>\<close> is \<open>'e + 't\<close>: \<open>Inl\<close> is \<open>Err\<close>, \<open>Inr\<close> is \<open>Ok\<close>. The \<open>?\<close> operator is
  \<open>and_then\<close>.
\<close>

fun and_then :: "'e + 'a \<Rightarrow> ('a \<Rightarrow> 'e + 'b) \<Rightarrow> 'e + 'b" where
  "and_then (Inl e) f = Inl e"
| "and_then (Inr x) f = f x"

fun map_err :: "('e \<Rightarrow> 'f) \<Rightarrow> 'e + 'a \<Rightarrow> 'f + 'a" where
  "map_err f (Inl e) = Inl (f e)"
| "map_err f (Inr x) = Inr x"

definition ok_or :: "'e \<Rightarrow> 'a option \<Rightarrow> 'e + 'a" where
  "ok_or e v = (case v of None \<Rightarrow> Inl e | Some x \<Rightarrow> Inr x)"

lemma ok_or_simps [simp]: "ok_or e None = Inl e" "ok_or e (Some x) = Inr x"
  by (simp_all add: ok_or_def)

lemma and_then_Inr [simp]: "and_then m Inr = m"
  by (cases m) auto

lemma and_then_assoc: "and_then (and_then m f) g = and_then m (\<lambda>x. and_then (f x) g)"
  by (cases m) auto

lemma and_then_eq_Inr [result_simps]:
  "and_then m f = Inr y \<longleftrightarrow> (\<exists>x. m = Inr x \<and> f x = Inr y)"
  by (cases m) auto

lemma and_then_eq_Inl [result_simps]:
  "and_then m f = Inl e \<longleftrightarrow> m = Inl e \<or> (\<exists>x. m = Inr x \<and> f x = Inl e)"
  by (cases m) auto

lemma map_err_eq_Inr [result_simps]: "map_err f m = Inr y \<longleftrightarrow> m = Inr y"
  by (cases m) auto

lemma map_err_eq_Inl [result_simps]: "map_err f m = Inl e \<longleftrightarrow> (\<exists>d. m = Inl d \<and> e = f d)"
  by (cases m) auto

lemma ok_or_eq_Inr [result_simps]: "ok_or e v = Inr y \<longleftrightarrow> v = Some y"
  by (cases v) auto

lemma ok_or_eq_Inl [result_simps]: "ok_or e v = Inl d \<longleftrightarrow> v = None \<and> d = e"
  by (cases v) auto

text \<open>
  Code that indexes a slice, adds to a \<open>SystemTime\<close> or reaches \<open>unreachable!()\<close> can
  panic: its result is a \<open>flow\<close>, and that it never is \<open>Panic\<close> is a theorem.
\<close>

datatype 'a flow = Ret 'a | Panic

fun bind_flow :: "'a flow \<Rightarrow> ('a \<Rightarrow> 'b flow) \<Rightarrow> 'b flow" where
  "bind_flow Panic f = Panic"
| "bind_flow (Ret x) f = f x"

lemma bind_flow_eq_Ret [result_simps]:
  "bind_flow m f = Ret y \<longleftrightarrow> (\<exists>x. m = Ret x \<and> f x = Ret y)"
  by (cases m) auto

text \<open>\<open>?\<close> on a \<open>Result\<close> computed by code that may panic.\<close>

fun try_flow :: "('e + 'a) flow \<Rightarrow> ('a \<Rightarrow> ('e + 'b) flow) \<Rightarrow> ('e + 'b) flow" where
  "try_flow Panic f = Panic"
| "try_flow (Ret (Inl e)) f = Ret (Inl e)"
| "try_flow (Ret (Inr x)) f = f x"

lemma try_flow_eq_Inr [result_simps]:
  "try_flow m f = Ret (Inr y) \<longleftrightarrow> (\<exists>x. m = Ret (Inr x) \<and> f x = Ret (Inr y))"
  by (cases "(m, f)" rule: try_flow.cases) auto

lemma try_flow_eq_Panic [result_simps]:
  "try_flow m f = Panic \<longleftrightarrow> m = Panic \<or> (\<exists>x. m = Ret (Inr x) \<and> f x = Panic)"
  by (cases "(m, f)" rule: try_flow.cases) auto

text \<open>\<open>catch_unwind(..).unwrap_or(rc)\<close>, the body of both crates' \<open>guard\<close>.\<close>

fun catch_unwind_or :: "'a \<Rightarrow> 'a flow \<Rightarrow> 'a" where
  "catch_unwind_or rc (Ret x) = x"
| "catch_unwind_or rc Panic = rc"

section \<open>Slices\<close>

text \<open>\<open>slice.iter().position(p)\<close>\<close>

fun position :: "('a \<Rightarrow> bool) \<Rightarrow> 'a list \<Rightarrow> nat option" where
  "position p [] = None"
| "position p (x # xs) = (if p x then Some 0 else map_option Suc (position p xs))"

lemma position_None_iff: "position p xs = None \<longleftrightarrow> (\<forall>x \<in> set xs. \<not> p x)"
  by (induction xs) auto

lemma position_skip [simp]:
  "\<forall>x \<in> set xs. \<not> p x \<Longrightarrow> p y \<Longrightarrow> position p (xs @ y # ys) = Some (length xs)"
  by (induction xs) auto

lemma position_Some:
  "position p xs = Some i \<Longrightarrow> i < length xs \<and> p (xs ! i) \<and> (\<forall>x \<in> set (take i xs). \<not> p x)"
  by (induction xs arbitrary: i) (auto split: if_splits)

text \<open>\<open>&xs[a..b]\<close>: panics when \<open>a > b\<close> or \<open>b > len\<close>.\<close>

definition slice :: "nat \<Rightarrow> nat \<Rightarrow> 'a list \<Rightarrow> 'a list flow" where
  "slice a b xs = (if a \<le> b \<and> b \<le> length xs then Ret (drop a (take b xs)) else Panic)"

lemma slice_in_range [simp]: "a \<le> b \<Longrightarrow> b \<le> length xs \<Longrightarrow> slice a b xs = Ret (drop a (take b xs))"
  by (simp add: slice_def)

text \<open>\<open>slice.starts_with\<close>, \<open>slice.ends_with\<close>\<close>

definition starts_with :: "'a list \<Rightarrow> 'a list \<Rightarrow> bool" where
  "starts_with pre xs \<longleftrightarrow> take (length pre) xs = pre"

definition ends_with :: "'a list \<Rightarrow> 'a list \<Rightarrow> bool" where
  "ends_with suf xs \<longleftrightarrow> length suf \<le> length xs \<and> drop (length xs - length suf) xs = suf"

lemma starts_with_iff: "starts_with pre xs \<longleftrightarrow> (\<exists>ys. xs = pre @ ys)"
proof
  assume "starts_with pre xs"
  then have "xs = pre @ drop (length pre) xs"
    by (metis starts_with_def append_take_drop_id)
  then show "\<exists>ys. xs = pre @ ys" ..
qed (auto simp: starts_with_def)

lemma ends_with_iff: "ends_with suf xs \<longleftrightarrow> (\<exists>ys. xs = ys @ suf)"
proof
  assume "ends_with suf xs"
  then have "xs = take (length xs - length suf) xs @ suf"
    by (metis ends_with_def append_take_drop_id)
  then show "\<exists>ys. xs = ys @ suf" ..
qed (auto simp: ends_with_def)

text \<open>\<open>slice.split(pred)\<close>: the pieces between the elements that satisfy the predicate; always at
  least one piece.\<close>

fun split_on :: "('a \<Rightarrow> bool) \<Rightarrow> 'a list \<Rightarrow> 'a list list" where
  "split_on p [] = [[]]"
| "split_on p (x # xs) =
     (if p x then [] # split_on p xs
      else case split_on p xs of [] \<Rightarrow> [[x]] | f # fs \<Rightarrow> (x # f) # fs)"

lemma split_on_nonempty [simp]: "split_on p xs \<noteq> []"
  by (induction xs) (auto split: list.splits)

lemma split_on_none: "\<forall>x \<in> set xs. \<not> p x \<Longrightarrow> split_on p xs = [xs]"
  by (induction xs) auto

lemma split_on_sep:
  "\<forall>x \<in> set xs. \<not> p x \<Longrightarrow> p y \<Longrightarrow> split_on p (xs @ y # ys) = xs # split_on p ys"
  by (induction xs) auto

lemma split_on_eq [simp]:
  "sep \<notin> set xs \<Longrightarrow> split_on (\<lambda>x. x = sep) (xs @ sep # ys) = xs # split_on (\<lambda>x. x = sep) ys"
  by (rule split_on_sep) auto

lemma position_eq [simp]: "sep \<notin> set xs \<Longrightarrow> position (\<lambda>x. x = sep) (xs @ sep # ys) = Some (length xs)"
  by (rule position_skip) auto

text \<open>A text in which every piece is closed by the separator splits into the pieces and a last
  empty one; every text that is empty or ends with the separator is of that form.\<close>

definition closed_by :: "'a \<Rightarrow> 'a list list \<Rightarrow> 'a list" where
  "closed_by sep fs = concat (map (\<lambda>f. f @ [sep]) fs)"

lemma closed_by_simps [simp]:
  "closed_by sep [] = []"
  "closed_by sep (f # fs) = f @ sep # closed_by sep fs"
  by (simp_all add: closed_by_def)

lemma split_on_closed_by:
  "\<forall>f \<in> set fs. sep \<notin> set f \<Longrightarrow> split_on (\<lambda>x. x = sep) (closed_by sep fs) = fs @ [[]]"
  by (induction fs) auto

lemma closed_by_exists:
  "xs = [] \<or> last xs = sep \<Longrightarrow> \<exists>fs. (\<forall>f \<in> set fs. sep \<notin> set f) \<and> xs = closed_by sep fs"
proof (induction "length xs" arbitrary: xs rule: less_induct)
  case less
  show ?case
  proof (cases "xs = []")
    case True
    then show ?thesis by (intro exI [of _ "[]"]) simp
  next
    case False
    with less.prems have "sep \<in> set xs" by (metis last_in_set)
    then obtain ys zs where xs: "xs = ys @ sep # zs" and ys: "sep \<notin> set ys"
      by (meson split_list_first)
    from less.prems False xs have "zs = [] \<or> last zs = sep" by (auto split: if_splits)
    with less.hyps [of zs] xs obtain fs where "\<forall>f \<in> set fs. sep \<notin> set f" "zs = closed_by sep fs"
      by auto
    with xs ys show ?thesis by (intro exI [of _ "ys # fs"]) auto
  qed
qed

lemma split_on_pieces: "f \<in> set (split_on p xs) \<Longrightarrow> x \<in> set f \<Longrightarrow> \<not> p x \<and> x \<in> set xs"
proof (induction xs arbitrary: f)
  case (Cons a xs)
  show ?case
  proof (cases "p a")
    case True
    with Cons show ?thesis by auto
  next
    case False
    obtain g gs where g: "split_on p xs = g # gs"
      by (cases "split_on p xs") simp_all
    with False Cons.prems Cons.IH [of g] Cons.IH [of f] show ?thesis by auto
  qed
qed simp

text \<open>\<open>str.split_once(sep)\<close>\<close>

definition split_once :: "'a \<Rightarrow> 'a list \<Rightarrow> ('a list \<times> 'a list) option" where
  "split_once sep xs =
     map_option (\<lambda>i. (take i xs, drop (Suc i) xs)) (position (\<lambda>x. x = sep) xs)"

lemma split_once_hit [simp]: "sep \<notin> set xs \<Longrightarrow> split_once sep (xs @ sep # ys) = Some (xs, ys)"
  by (subst split_once_def, subst position_skip) auto

lemma split_once_Some:
  assumes "split_once sep xs = Some (k, v)"
  shows "xs = k @ sep # v \<and> sep \<notin> set k"
proof -
  from assms obtain i where i: "position (\<lambda>x. x = sep) xs = Some i"
    and k: "k = take i xs" and v: "v = drop (Suc i) xs"
    by (auto simp: split_once_def)
  from position_Some [OF i] have "i < length xs" "xs ! i = sep" "sep \<notin> set (take i xs)"
    by auto
  with k v show ?thesis by (metis id_take_nth_drop)
qed

lemma split_once_None: "split_once sep xs = None \<longleftrightarrow> sep \<notin> set xs"
  by (auto simp: split_once_def position_None_iff)

section \<open>State machines\<close>

text \<open>
  A connection, a cache or a session is a step function on a state. \<open>run_machine\<close> runs
  a list of inputs; the locale carries an invariant of the step, for inputs that satisfy what the
  environment guarantees, to the state after every run and to every output on the way.
\<close>

fun run_machine :: "('s \<Rightarrow> 'i \<Rightarrow> 's \<times> 'o) \<Rightarrow> 's \<Rightarrow> 'i list \<Rightarrow> 's \<times> 'o list" where
  "run_machine step s [] = (s, [])"
| "run_machine step s (i # is) =
     (let (s', r) = step s i; (s'', rs) = run_machine step s' is in (s'', r # rs))"

locale machine =
  fixes step :: "'s \<Rightarrow> 'i \<Rightarrow> 's \<times> 'o"
    and input_ok :: "'i \<Rightarrow> bool"
    and inv :: "'s \<Rightarrow> bool"
    and out_ok :: "'o \<Rightarrow> bool"
  assumes step_inv: "inv s \<Longrightarrow> input_ok i \<Longrightarrow> inv (fst (step s i))"
    and step_out: "inv s \<Longrightarrow> input_ok i \<Longrightarrow> out_ok (snd (step s i))"
begin

lemma run_inv: "inv s \<Longrightarrow> \<forall>i \<in> set is. input_ok i \<Longrightarrow> inv (fst (run_machine step s is))"
proof (induction "is" arbitrary: s)
  case (Cons i "is")
  show ?case
    using Cons.IH [OF step_inv [OF Cons.prems(1), of i]] Cons.prems(2)
    by (auto simp: Let_def split: prod.splits)
qed simp

lemma run_out:
  "inv s \<Longrightarrow> \<forall>i \<in> set is. input_ok i \<Longrightarrow> r \<in> set (snd (run_machine step s is)) \<Longrightarrow> out_ok r"
proof (induction "is" arbitrary: s)
  case (Cons i "is")
  show ?case
    using Cons.prems Cons.IH [of "fst (step s i)"] step_inv [of s i] step_out [of s i]
    by (auto simp: Let_def split: prod.splits)
qed simp

end

end
