(* ===== verification/Rust_Str.thy ===== *)
theory Rust_Str
  imports Prelude
begin

text \<open>
  The parts of Rust's \<open>core::str\<close> and \<open>core::char\<close> that crudeoauth calls: UTF-8
  validation and decoding, lossy conversion, the Unicode predicates
  \<open>char::is_whitespace\<close> and \<open>char::is_control\<close>, \<open>trim\<close>, the ASCII case operations,
  \<open>lines\<close>, and decimal numbers. All functions work on the UTF-8 bytes of the string.
\<close>

section \<open>UTF-8\<close>

abbreviation ord :: "byte \<Rightarrow> nat" where
  "ord c \<equiv> of_char c"

text \<open>The width a leading byte announces; 0 for a byte that cannot lead.\<close>

definition utf8_width :: "byte \<Rightarrow> nat" where
  "utf8_width a =
     (if ord a < 0x80 then 1
      else if 0xC2 \<le> ord a \<and> ord a \<le> 0xDF then 2
      else if 0xE0 \<le> ord a \<and> ord a \<le> 0xEF then 3
      else if 0xF0 \<le> ord a \<and> ord a \<le> 0xF4 then 4
      else 0)"

definition utf8_cont :: "byte \<Rightarrow> bool" where
  "utf8_cont b \<longleftrightarrow> 0x80 \<le> ord b \<and> ord b \<le> 0xBF"

text \<open>The second byte: no overlong forms, no surrogates, nothing above U+10FFFF.\<close>

definition utf8_second :: "byte \<Rightarrow> byte \<Rightarrow> bool" where
  "utf8_second a b \<longleftrightarrow> utf8_cont b \<and>
     (ord a = 0xE0 \<longrightarrow> 0xA0 \<le> ord b) \<and> (ord a = 0xED \<longrightarrow> ord b \<le> 0x9F) \<and>
     (ord a = 0xF0 \<longrightarrow> 0x90 \<le> ord b) \<and> (ord a = 0xF4 \<longrightarrow> ord b \<le> 0x8F)"

text \<open>
  One step of the decoder: \<open>Inr n\<close> when the first \<open>n\<close> bytes are a character, \<open>Inl n\<close>
  when they are a maximal ill-formed prefix (what lossy decoding replaces as one unit).
\<close>

definition utf8_step :: "bytes \<Rightarrow> nat + nat" where
  "utf8_step xs =
     (case xs of [] \<Rightarrow> Inl 0
      | a # r \<Rightarrow>
        (if utf8_width a = 1 then Inr 1
         else if utf8_width a = 0 then Inl 1
         else case r of [] \<Rightarrow> Inl 1
         | b # r2 \<Rightarrow>
           (if \<not> utf8_second a b then Inl 1
            else if utf8_width a = 2 then Inr 2
            else case r2 of [] \<Rightarrow> Inl 2
            | c # r3 \<Rightarrow>
              (if \<not> utf8_cont c then Inl 2
               else if utf8_width a = 3 then Inr 3
               else case r3 of [] \<Rightarrow> Inl 3
               | d # _ \<Rightarrow> if utf8_cont d then Inr 4 else Inl 3))))"

lemma utf8_step_Nil [simp]: "utf8_step [] = Inl 0"
  by (simp add: utf8_step_def)

lemma utf8_step_bounds:
  "utf8_step (x # xs) = Inr n \<Longrightarrow> 0 < n \<and> n \<le> length (x # xs)"
  "utf8_step (x # xs) = Inl n \<Longrightarrow> 0 < n \<and> n \<le> length (x # xs)"
  by (auto simp: utf8_step_def split: if_splits list.splits)

text \<open>A character, by the width its first byte announces.\<close>

lemma utf8_width_cases:
  "utf8_width a = 0 \<or> utf8_width a = 1 \<or> utf8_width a = 2 \<or> utf8_width a = 3 \<or> utf8_width a = 4"
  by (simp add: utf8_width_def)

lemma utf8_step_Cons_iff:
  "utf8_step (a # r) = Inr n \<longleftrightarrow>
     (if utf8_width a = 0 then False
      else if utf8_width a = 1 then n = 1
      else n = utf8_width a \<and> n \<le> length (a # r) \<and> utf8_second a (hd r) \<and>
           (\<forall>c \<in> set (take (n - 2) (tl r)). utf8_cont c))"
proof (cases r)
  case Nil
  then show ?thesis by (auto simp: utf8_step_def)
next
  case r: (Cons b r2)
  show ?thesis
  proof (cases r2)
    case Nil
    with r show ?thesis using utf8_width_cases [of a] by (auto simp: utf8_step_def)
  next
    case r2: (Cons c r3)
    show ?thesis
    proof (cases r3)
      case Nil
      with r r2 show ?thesis using utf8_width_cases [of a] by (auto simp: utf8_step_def)
    next
      case (Cons d r4)
      with r r2 show ?thesis using utf8_width_cases [of a] by (auto simp: utf8_step_def)
    qed
  qed
qed

lemma utf8_step_append: "utf8_step xs = Inr n \<Longrightarrow> utf8_step (xs @ ys) = Inr n"
  using utf8_width_cases [of "hd xs"]
  by (cases xs; cases "tl xs") (auto simp: utf8_step_Cons_iff split: if_splits)

lemma utf8_step_take: "utf8_step xs = Inr n \<Longrightarrow> utf8_step (take n xs) = Inr n"
  using utf8_width_cases [of "hd xs"]
  by (cases xs; cases "tl xs") (auto simp: utf8_step_Cons_iff take_Cons' split: if_splits)

text \<open>The whole string, cut into characters (\<open>True\<close>) and ill-formed pieces (\<open>False\<close>).\<close>

function utf8_chunks :: "bytes \<Rightarrow> (bool \<times> bytes) list" where
  "utf8_chunks [] = []"
| "utf8_chunks (x # xs) =
     (case utf8_step (x # xs) of
        Inr n \<Rightarrow> (True, take n (x # xs)) # utf8_chunks (drop n (x # xs))
      | Inl n \<Rightarrow> (False, take n (x # xs)) # utf8_chunks (drop n (x # xs)))"
  by pat_completeness auto
termination
  by (relation "measure length") (auto dest!: utf8_step_bounds)

text \<open>\<open>str::from_utf8\<close>, \<open>String::from_utf8\<close>: the bytes themselves when they are well formed.\<close>

definition valid_utf8 :: "bytes \<Rightarrow> bool" where
  "valid_utf8 xs \<longleftrightarrow> list_all fst (utf8_chunks xs)"

definition from_utf8 :: "bytes \<Rightarrow> bytes option" where
  "from_utf8 xs = (if valid_utf8 xs then Some xs else None)"

text \<open>\<open>CStr::from_ptr\<close>: the bytes before the first NUL.\<close>

definition cstr :: "bytes \<Rightarrow> bytes" where
  "cstr mem = takeWhile (\<lambda>b. b \<noteq> CHR 0x00) mem"

text \<open>\<open>String::from_utf8_lossy\<close>: U+FFFD for every ill-formed piece.\<close>

definition from_utf8_lossy :: "bytes \<Rightarrow> bytes" where
  "from_utf8_lossy xs =
     concat (map (\<lambda>(ok, c). if ok then c else [CHR 0xEF, CHR 0xBF, CHR 0xBD]) (utf8_chunks xs))"

text \<open>\<open>str.chars()\<close>, each character as its bytes.\<close>

definition str_chars :: "bytes \<Rightarrow> bytes list" where
  "str_chars xs = map snd (utf8_chunks xs)"

definition utf8_char :: "bytes \<Rightarrow> bool" where
  "utf8_char c \<longleftrightarrow> c \<noteq> [] \<and> utf8_step c = Inr (length c)"

lemma concat_chunks: "concat (map snd (utf8_chunks xs)) = xs"
proof (induction xs rule: utf8_chunks.induct)
  case (2 x xs)
  show ?case
    using "2.IH" by (auto split: sum.splits simp: append_take_drop_id [of _ "x # xs"])
qed simp

lemma concat_str_chars [simp]: "concat (str_chars xs) = xs"
  by (simp add: str_chars_def concat_chunks)

lemma chunks_ok: "(True, c) \<in> set (utf8_chunks xs) \<Longrightarrow> utf8_char c"
proof (induction xs rule: utf8_chunks.induct)
  case (2 x xs)
  show ?case
  proof (cases "utf8_step (x # xs)")
    case (Inl n)
    with 2 show ?thesis by simp
  next
    case (Inr n)
    then have "utf8_char (take n (x # xs))"
      using utf8_step_take [OF Inr] utf8_step_bounds(1) [OF Inr] by (simp add: utf8_char_def)
    with 2 Inr show ?thesis by auto
  qed
qed simp

lemma chunks_char [simp]: "utf8_char c \<Longrightarrow> utf8_chunks (c @ xs) = (True, c) # utf8_chunks xs"
  using utf8_step_append [of c "length c" xs] by (cases c) (auto simp: utf8_char_def)

lemma chunks_chars: "\<forall>c \<in> set cs. utf8_char c \<Longrightarrow> utf8_chunks (concat cs) = map (Pair True) cs"
  by (induction cs) auto

lemma valid_utf8_iff: "valid_utf8 xs \<longleftrightarrow> (\<exists>cs. (\<forall>c \<in> set cs. utf8_char c) \<and> xs = concat cs)"
proof
  assume "valid_utf8 xs"
  then have "\<forall>c \<in> set (str_chars xs). utf8_char c"
    by (fastforce simp: valid_utf8_def str_chars_def list_all_iff intro: chunks_ok)
  then show "\<exists>cs. (\<forall>c \<in> set cs. utf8_char c) \<and> xs = concat cs"
    by (metis concat_str_chars)
next
  assume "\<exists>cs. (\<forall>c \<in> set cs. utf8_char c) \<and> xs = concat cs"
  then show "valid_utf8 xs"
    by (auto simp: valid_utf8_def chunks_chars list_all_iff)
qed

lemma valid_utf8_Nil [simp]: "valid_utf8 []"
  by (simp add: valid_utf8_def)

lemma valid_utf8_append [intro]: "valid_utf8 xs \<Longrightarrow> valid_utf8 ys \<Longrightarrow> valid_utf8 (xs @ ys)"
  unfolding valid_utf8_iff by (metis Un_iff concat_append set_append)

text \<open>A byte below \<open>0x80\<close> is a character of its own, in well-formed and ill-formed text alike.\<close>

lemma utf8_step_high:
  assumes "utf8_step (x # xs) = Inl n \<or> utf8_step (x # xs) = Inr n"
    and "utf8_width x \<noteq> 1" and "b \<in> set (take n (x # xs))"
  shows "0x80 \<le> ord b"
proof -
  have x: "0x80 \<le> ord x"
    using assms(2) by (auto simp: utf8_width_def split: if_splits)
  have cont: "utf8_cont c \<Longrightarrow> 0x80 \<le> ord c" "utf8_second a c \<Longrightarrow> 0x80 \<le> ord c" for a c
    by (auto simp: utf8_cont_def utf8_second_def)
  show ?thesis
  proof (cases xs)
    case Nil
    with assms x show ?thesis by (auto simp: utf8_step_def split: if_splits)
  next
    case xs: (Cons c r)
    show ?thesis
    proof (cases r)
      case Nil
      with assms x xs cont show ?thesis by (auto simp: utf8_step_def split: if_splits)
    next
      case r: (Cons d r')
      show ?thesis
        using assms x xs r cont by (cases r') (auto simp: utf8_step_def split: if_splits)
    qed
  qed
qed

lemma utf8_step_ascii:
  assumes "utf8_step (x # xs) = Inl n \<or> utf8_step (x # xs) = Inr n"
    and "b \<in> set (take n (x # xs))" and "ord b < 0x80"
  shows "utf8_step (x # xs) = Inr 1 \<and> b = x"
proof -
  from utf8_step_high [OF assms(1) _ assms(2)] assms(3) have "utf8_width x = 1"
    by force
  then have "utf8_step (x # xs) = Inr 1"
    by (simp add: utf8_step_def)
  with assms show ?thesis by auto
qed

lemma chunk_ascii:
  "(ok, c) \<in> set (utf8_chunks xs) \<Longrightarrow> b \<in> set c \<Longrightarrow> ord b < 0x80 \<Longrightarrow> c = [b]"
proof (induction xs rule: utf8_chunks.induct)
  case (2 x xs)
  show ?case
  proof (cases "utf8_step (x # xs)")
    case (Inl n)
    with 2 utf8_step_ascii [of x xs n b] show ?thesis by auto
  next
    case (Inr n)
    with 2 utf8_step_ascii [of x xs n b] show ?thesis by auto
  qed
qed simp

lemma str_chars_ascii:
  assumes "b \<in> set xs" and "ord b < 0x80"
  shows "[b] \<in> set (str_chars xs)"
proof -
  from assms(1) have "b \<in> set (concat (map snd (utf8_chunks xs)))"
    by (simp add: concat_chunks)
  then obtain ok c where "(ok, c) \<in> set (utf8_chunks xs)" "b \<in> set c"
    by auto
  with chunk_ascii [OF this assms(2)] show ?thesis
    by (force simp: str_chars_def)
qed

lemma utf8_char_ascii [simp]: "ord b < 0x80 \<Longrightarrow> utf8_char [b]"
  by (simp add: utf8_char_def utf8_step_def utf8_width_def)

lemma valid_utf8_Cons_ascii [simp]: "ord b < 0x80 \<Longrightarrow> valid_utf8 (b # xs) = valid_utf8 xs"
  using chunks_char [of "[b]" xs] by (simp add: valid_utf8_def del: utf8_chunks.simps)

lemma str_chars_Cons_ascii [simp]: "ord b < 0x80 \<Longrightarrow> str_chars (b # xs) = [b] # str_chars xs"
  using chunks_char [of "[b]" xs] by (simp add: str_chars_def del: utf8_chunks.simps)

lemma str_chars_Nil [simp]: "str_chars [] = []"
  by (simp add: str_chars_def)

lemma str_chars_subset: "c \<in> set (str_chars s) \<Longrightarrow> set c \<subseteq> set s"
proof -
  assume "c \<in> set (str_chars s)"
  then have "set c \<subseteq> set (concat (str_chars s))"
    by (auto simp del: concat_str_chars)
  then show ?thesis by (simp only: concat_str_chars)
qed

lemma str_chars_valid: "valid_utf8 s \<Longrightarrow> c \<in> set (str_chars s) \<Longrightarrow> utf8_char c"
  by (fastforce simp: valid_utf8_def str_chars_def list_all_iff intro: chunks_ok)

lemma utf8_char_valid: "utf8_char c \<Longrightarrow> valid_utf8 c"
  using chunks_char [of c "[]"] by (simp add: valid_utf8_def)

lemma from_utf8_lossy_valid: "valid_utf8 xs \<Longrightarrow> from_utf8_lossy xs = xs"
proof -
  assume "valid_utf8 xs"
  then have eq: "map (\<lambda>(ok, c). if ok then c else [CHR 0xEF, CHR 0xBF, CHR 0xBD]) (utf8_chunks xs)
      = map snd (utf8_chunks xs)"
    by (auto simp: valid_utf8_def list_all_iff)
  show ?thesis
    unfolding from_utf8_lossy_def eq by (rule concat_chunks)
qed

section \<open>Unicode classes and trimming\<close>

definition code_point :: "bytes \<Rightarrow> int" where
  "code_point c =
     (case c of
        [a] \<Rightarrow> of_char a
      | [a, b] \<Rightarrow> (of_char a mod 32) * 64 + of_char b mod 64
      | [a, b, d] \<Rightarrow> ((of_char a mod 16) * 64 + of_char b mod 64) * 64 + of_char d mod 64
      | [a, b, d, e] \<Rightarrow>
          (((of_char a mod 8) * 64 + of_char b mod 64) * 64 + of_char d mod 64) * 64 + of_char e mod 64
      | _ \<Rightarrow> 0xFFFD)"

text \<open>\<open>char::is_whitespace\<close>: the Unicode property White_Space.\<close>

definition is_whitespace :: "bytes \<Rightarrow> bool" where
  "is_whitespace c \<longleftrightarrow>
     (let n = code_point c in
      (9 \<le> n \<and> n \<le> 13) \<or> n = 0x20 \<or> n = 0x85 \<or> n = 0xA0 \<or> n = 0x1680 \<or>
      (0x2000 \<le> n \<and> n \<le> 0x200A) \<or> n = 0x2028 \<or> n = 0x2029 \<or> n = 0x202F \<or> n = 0x205F \<or>
      n = 0x3000)"

text \<open>\<open>char::is_control\<close>: the general category Cc.\<close>

definition is_control :: "bytes \<Rightarrow> bool" where
  "is_control c \<longleftrightarrow> code_point c < 0x20 \<or> (0x7F \<le> code_point c \<and> code_point c < 0xA0)"

definition trim_start :: "bytes \<Rightarrow> bytes" where
  "trim_start s = concat (dropWhile is_whitespace (str_chars s))"

definition trim_end :: "bytes \<Rightarrow> bytes" where
  "trim_end s = concat (rev (dropWhile is_whitespace (rev (str_chars s))))"

definition trim :: "bytes \<Rightarrow> bytes" where
  "trim s = trim_end (trim_start s)"

lemma str_chars_nonempty: "c \<in> set (str_chars s) \<Longrightarrow> c \<noteq> []"
proof (unfold str_chars_def, induction s rule: utf8_chunks.induct)
  case (2 x xs)
  show ?case
  proof (cases "utf8_step (x # xs)")
    case (Inl n)
    with 2 utf8_step_bounds(2) [OF Inl] show ?thesis by auto
  next
    case (Inr n)
    with 2 utf8_step_bounds(1) [OF Inr] show ?thesis by auto
  qed
qed simp

lemma str_chars_eq_Nil [simp]: "str_chars s = [] \<longleftrightarrow> s = []"
  by (metis concat.simps(1) concat_str_chars str_chars_Nil)

lemma concat_dropWhile_shorter:
  assumes "\<forall>c \<in> set cs. c \<noteq> []" and "cs \<noteq> []" and "p (hd cs)"
  shows "length (concat (dropWhile p cs)) < length (concat cs)"
proof -
  obtain c ds where cs: "cs = c # ds" using assms(2) by (cases cs) auto
  have "concat ds = concat (takeWhile p ds) @ concat (dropWhile p ds)"
    by (metis concat_append takeWhile_dropWhile_id)
  with assms cs show ?thesis by (simp add: le_imp_less_or_eq)
qed

lemma length_concat_dropWhile: "length (concat (dropWhile p cs)) \<le> length (concat cs)"
  by (metis concat_append length_append le_add2 takeWhile_dropWhile_id)

lemma length_trim_start: "length (trim_start s) \<le> length s"
  using length_concat_dropWhile [of is_whitespace "str_chars s"] by (simp add: trim_start_def)

lemma length_trim_end: "length (trim_end s) \<le> length s"
proof -
  have "length (concat (rev cs)) = length (concat cs)" for cs :: "bytes list"
    by (induction cs) auto
  with length_concat_dropWhile [of is_whitespace "rev (str_chars s)"] show ?thesis
    by (simp add: trim_end_def)
qed

text \<open>A string is its own trimming exactly when it starts and ends with no whitespace.\<close>

lemma trim_start_fixed:
  "s \<noteq> [] \<Longrightarrow> trim_start s = s \<longleftrightarrow> \<not> is_whitespace (hd (str_chars s))"
proof
  assume s: "s \<noteq> []" and eq: "trim_start s = s"
  show "\<not> is_whitespace (hd (str_chars s))"
  proof
    assume ws: "is_whitespace (hd (str_chars s))"
    have "length (concat (dropWhile is_whitespace (str_chars s))) < length (concat (str_chars s))"
      by (rule concat_dropWhile_shorter) (use s ws in \<open>auto dest: str_chars_nonempty\<close>)
    with eq show False by (simp add: trim_start_def)
  qed
next
  assume "s \<noteq> []" and "\<not> is_whitespace (hd (str_chars s))"
  then have "dropWhile is_whitespace (str_chars s) = str_chars s"
    by (cases "str_chars s") auto
  then show "trim_start s = s" by (simp add: trim_start_def)
qed

lemma trim_end_fixed:
  "s \<noteq> [] \<Longrightarrow> trim_end s = s \<longleftrightarrow> \<not> is_whitespace (last (str_chars s))"
proof
  have len: "length (concat (rev cs)) = length (concat cs)" for cs :: "bytes list"
    by (induction cs) auto
  assume s: "s \<noteq> []" and eq: "trim_end s = s"
  show "\<not> is_whitespace (last (str_chars s))"
  proof
    assume ws: "is_whitespace (last (str_chars s))"
    have "length (concat (dropWhile is_whitespace (rev (str_chars s)))) < length (concat (rev (str_chars s)))"
      by (rule concat_dropWhile_shorter)
         (use s ws in \<open>auto dest: str_chars_nonempty simp: hd_rev\<close>)
    then have "length (trim_end s) < length (concat (str_chars s))"
      by (simp only: trim_end_def len)
    with eq show False by simp
  qed
next
  assume "s \<noteq> []" and "\<not> is_whitespace (last (str_chars s))"
  then have "dropWhile is_whitespace (rev (str_chars s)) = rev (str_chars s)"
    by (cases "str_chars s" rule: rev_cases) auto
  then show "trim_end s = s" by (simp add: trim_end_def)
qed

lemma trim_fixed_iff:
  assumes "s \<noteq> []"
  shows "trim s = s \<longleftrightarrow>
     \<not> is_whitespace (hd (str_chars s)) \<and> \<not> is_whitespace (last (str_chars s))"
proof -
  have "trim s = s \<Longrightarrow> trim_start s = s"
  proof (rule ccontr)
    assume eq: "trim s = s" and "trim_start s \<noteq> s"
    then have "length (trim_start s) < length s"
      using assms trim_start_fixed [OF assms] concat_dropWhile_shorter [of "str_chars s" is_whitespace]
      by (auto simp: trim_start_def dest: str_chars_nonempty)
    with eq length_trim_end [of "trim_start s"] show False by (simp add: trim_def)
  qed
  then show ?thesis
    using trim_start_fixed [OF assms] trim_end_fixed [OF assms] by (auto simp: trim_def)
qed

section \<open>ASCII operations\<close>

definition ascii_lower :: "byte \<Rightarrow> byte" where
  "ascii_lower c = (if 65 \<le> ord c \<and> ord c \<le> 90 then char_of (ord c + 32) else c)"

definition to_ascii_lowercase :: "bytes \<Rightarrow> bytes" where
  "to_ascii_lowercase s = map ascii_lower s"

definition eq_ignore_ascii_case :: "bytes \<Rightarrow> bytes \<Rightarrow> bool" where
  "eq_ignore_ascii_case s t \<longleftrightarrow> to_ascii_lowercase s = to_ascii_lowercase t"

definition is_ascii_whitespace :: "byte \<Rightarrow> bool" where
  "is_ascii_whitespace c \<longleftrightarrow> ord c \<in> {9, 10, 12, 13, 32}"

definition is_ascii_alphanumeric :: "byte \<Rightarrow> bool" where
  "is_ascii_alphanumeric c \<longleftrightarrow>
     (48 \<le> ord c \<and> ord c \<le> 57) \<or> (65 \<le> ord c \<and> ord c \<le> 90) \<or> (97 \<le> ord c \<and> ord c \<le> 122)"

text \<open>\<open>str.split_ascii_whitespace()\<close>\<close>

definition split_ascii_whitespace :: "bytes \<Rightarrow> bytes list" where
  "split_ascii_whitespace s = filter (\<lambda>f. f \<noteq> []) (split_on is_ascii_whitespace s)"

text \<open>\<open>str.lines()\<close>: the pieces up to each newline, without it and without a carriage return
  just before it; no empty piece after a final newline.\<close>

fun split_inclusive :: "byte \<Rightarrow> bytes \<Rightarrow> bytes list" where
  "split_inclusive nl [] = []"
| "split_inclusive nl (c # cs) =
     (if c = nl then [c] # split_inclusive nl cs
      else case split_inclusive nl cs of [] \<Rightarrow> [[c]] | l # ls \<Rightarrow> (c # l) # ls)"

definition strip_suffix :: "bytes \<Rightarrow> bytes \<Rightarrow> bytes option" where
  "strip_suffix suf s =
     (if ends_with suf s then Some (take (length s - length suf) s) else None)"

definition strip_prefix :: "bytes \<Rightarrow> bytes \<Rightarrow> bytes option" where
  "strip_prefix pre s = (if starts_with pre s then Some (drop (length pre) s) else None)"

definition str_lines :: "bytes \<Rightarrow> bytes list" where
  "str_lines s =
     map (\<lambda>l. case strip_suffix [CHR 0x0A] l of
                None \<Rightarrow> l
              | Some l1 \<Rightarrow> (case strip_suffix [CHR 0x0D] l1 of None \<Rightarrow> l1 | Some l2 \<Rightarrow> l2))
         (split_inclusive (CHR 0x0A) s)"

text \<open>\<open>CString::new\<close>: refuses an interior NUL.\<close>

definition cstring_new :: "bytes \<Rightarrow> bytes option" where
  "cstring_new s = (if CHR 0x00 \<in> set s then None else Some s)"

lemma eq_ignore_ascii_case_refl [simp]: "eq_ignore_ascii_case s s"
  by (simp add: eq_ignore_ascii_case_def)

lemma eq_ignore_ascii_case_sym: "eq_ignore_ascii_case s t \<longleftrightarrow> eq_ignore_ascii_case t s"
  by (auto simp: eq_ignore_ascii_case_def)

lemma split_ascii_whitespace_token:
  "w \<in> set (split_ascii_whitespace s) \<Longrightarrow> w \<noteq> [] \<and> (\<forall>c \<in> set w. \<not> is_ascii_whitespace c)"
  by (auto simp: split_ascii_whitespace_def dest: split_on_pieces)

lemmas str_eval [rust_defs] =
  from_utf8_def valid_utf8_def utf8_step_def utf8_width_def utf8_second_def utf8_cont_def
  str_chars_def trim_def trim_start_def trim_end_def is_whitespace_def is_control_def
  code_point_def to_ascii_lowercase_def ascii_lower_def eq_ignore_ascii_case_def
  split_ascii_whitespace_def is_ascii_whitespace_def is_ascii_alphanumeric_def str_lines_def
  strip_suffix_def strip_prefix_def starts_with_def ends_with_def cstr_def cstring_new_def split_once_def

end
