(* ===== verification/Rust_Num.thy ===== *)
theory Rust_Num
  imports Rust_Str Complex_Main
begin

text \<open>
  Rust's numbers as crudeoauth uses them: \<open>i64\<close> and \<open>u64\<close> as 64-bit words with saturating
  addition and the checked and wrapping conversions, \<open>f64\<close> by its exact value, parsing of a
  decimal \<open>i64\<close> and printing of a \<open>usize\<close>.
\<close>

section \<open>64-bit integers\<close>

type_synonym i64 = "64 word"
type_synonym u64 = "64 word"

definition i64_min :: int where "i64_min = - 9223372036854775808"
definition i64_max :: int where "i64_max = 9223372036854775807"

abbreviation i64_val :: "i64 \<Rightarrow> int" where "i64_val w \<equiv> sint w"
abbreviation u64_val :: "u64 \<Rightarrow> int" where "u64_val w \<equiv> uint w"

text \<open>Clamping an integer to the \<open>i64\<close> range: what saturating operations and float casts do.\<close>

definition i64_clamp :: "int \<Rightarrow> int" where
  "i64_clamp x = max i64_min (min i64_max x)"

definition saturating_add :: "i64 \<Rightarrow> i64 \<Rightarrow> i64" where
  "saturating_add a b = word_of_int (i64_clamp (i64_val a + i64_val b))"

definition saturating_sub :: "i64 \<Rightarrow> i64 \<Rightarrow> i64" where
  "saturating_sub a b = word_of_int (i64_clamp (i64_val a - i64_val b))"

definition i64_less :: "i64 \<Rightarrow> i64 \<Rightarrow> bool" where
  "i64_less a b \<longleftrightarrow> i64_val a < i64_val b"

text \<open>\<open>i64::max\<close>\<close>

definition i64_max_of :: "i64 \<Rightarrow> i64 \<Rightarrow> i64" where
  "i64_max_of a b = (if i64_less a b then b else a)"

text \<open>\<open>i64::try_from(u64)\<close>, \<open>u64::try_from(i64)\<close>; \<open>u64 as i64\<close> keeps the bits.\<close>

definition i64_try_from_u64 :: "u64 \<Rightarrow> i64 option" where
  "i64_try_from_u64 w = (if u64_val w \<le> i64_max then Some w else None)"

definition u64_try_from_i64 :: "i64 \<Rightarrow> u64 option" where
  "u64_try_from_i64 w = (if 0 \<le> i64_val w then Some w else None)"

definition u64_as_i64 :: "u64 \<Rightarrow> i64" where
  "u64_as_i64 w = w"

lemma i64_range: "i64_min \<le> i64_val w \<and> i64_val w \<le> i64_max"
  using sint_greater_eq [of w] sint_less [of w] by (simp add: i64_min_def i64_max_def)

lemma i64_clamp_range: "i64_min \<le> i64_clamp x \<and> i64_clamp x \<le> i64_max"
  by (simp add: i64_clamp_def i64_min_def i64_max_def)

lemma i64_val_of_int: "i64_min \<le> x \<Longrightarrow> x \<le> i64_max \<Longrightarrow> i64_val (word_of_int x) = x"
  by (simp add: i64_min_def i64_max_def sint_sbintrunc' signed_take_bit_int_eq_self)

lemma i64_val_clamp [simp]: "i64_val (word_of_int (i64_clamp x)) = i64_clamp x"
  using i64_clamp_range [of x] by (simp add: i64_val_of_int)

lemma i64_val_add [simp]: "i64_val (saturating_add a b) = i64_clamp (i64_val a + i64_val b)"
  by (simp add: saturating_add_def)

lemma i64_val_sub [simp]: "i64_val (saturating_sub a b) = i64_clamp (i64_val a - i64_val b)"
  by (simp add: saturating_sub_def)

lemma i64_clamp_id [simp]: "i64_clamp (i64_val w) = i64_val w"
  using i64_range [of w] by (simp add: i64_clamp_def)

text \<open>A comparison with a saturated bound is the comparison with the exact bound, as long as the
  bound only leaves the range on the side away from the value.\<close>

lemma clamp_less_iff: "i64_min \<le> x \<Longrightarrow> i64_clamp x < i64_val v \<longleftrightarrow> x < i64_val v"
  using i64_range [of v] by (auto simp: i64_clamp_def i64_min_def i64_max_def)

lemma less_clamp_iff: "x \<le> i64_max \<Longrightarrow> i64_val v < i64_clamp x \<longleftrightarrow> i64_val v < x"
  using i64_range [of v] by (auto simp: i64_clamp_def i64_min_def i64_max_def)

lemma i64_val_max [simp]: "i64_val (i64_max_of a b) = max (i64_val a) (i64_val b)"
  by (simp add: i64_max_of_def i64_less_def)

lemma i64_nonneg_unsigned: "0 \<le> i64_val w \<Longrightarrow> u64_val w = i64_val w"
  using sint_lt [of w] by (simp add: uint_sint take_bit_int_eq_self)

lemma u64_nonneg_signed: "u64_val w \<le> i64_max \<Longrightarrow> i64_val w = u64_val w"
proof -
  assume le: "u64_val w \<le> i64_max"
  have "- (2 ^ 63) \<le> u64_val w"
    by (rule order_trans [OF _ uint_ge_0]) simp
  with le signed_take_bit_int_eq_self [of 63 "uint w"] show ?thesis
    by (simp add: i64_max_def sint_uint)
qed

section \<open>Floating point\<close>

text \<open>
  A finite \<open>f64\<close> is its exact rational value. Only comparison, \<open>round\<close> (half away from zero)
  and the saturating cast to \<open>i64\<close> are used, and all three are functions of that value.
\<close>

datatype f64 = Finite rat | Infinite bool | NaN

definition round_half_away :: "rat \<Rightarrow> int" where
  "round_half_away q = (if 0 \<le> q then \<lfloor>q + 1 / 2\<rfloor> else - \<lfloor>- q + 1 / 2\<rfloor>)"

text \<open>\<open>v.round() as i64\<close> for finite \<open>v\<close>.\<close>

definition round_as_i64 :: "rat \<Rightarrow> i64" where
  "round_as_i64 q = word_of_int (i64_clamp (round_half_away q))"

lemma round_half_away_close: "\<bar>of_int (round_half_away q) - q\<bar> \<le> 1 / 2"
proof -
  have floor: "\<bar>of_int \<lfloor>x + 1 / 2\<rfloor> - x\<bar> \<le> 1 / 2" for x :: rat
    using floor_correct [of "x + 1 / 2"] by (unfold abs_le_iff, linarith)
  show ?thesis
    using floor [of q] floor [of "- q"] by (auto simp: round_half_away_def abs_minus_commute add.commute)
qed

lemma round_as_i64_close:
  assumes "of_int i64_min \<le> q" and "q \<le> of_int i64_max"
  shows "\<bar>of_int (i64_val (round_as_i64 q)) - q\<bar> \<le> 1 / 2"
proof -
  let ?r = "round_half_away q"
  note close = round_half_away_close [of q, unfolded abs_le_iff]
  have "of_int ?r < (of_int (i64_max + 1) :: rat)"
    using close assms unfolding of_int_add of_int_1 by linarith
  moreover have "(of_int (i64_min - 1) :: rat) < of_int ?r"
    using close assms unfolding of_int_diff of_int_1 by linarith
  ultimately have "i64_min \<le> ?r" "?r \<le> i64_max"
    by (simp_all only: of_int_less_iff)
  then have "i64_clamp ?r = ?r"
    by (simp add: i64_clamp_def)
  then have "i64_val (round_as_i64 q) = ?r"
    using i64_val_clamp [of ?r] by (simp only: round_as_i64_def)
  with round_half_away_close [of q] show ?thesis by (simp only:)
qed

section \<open>Decimal numbers\<close>

text \<open>\<open>str.parse::<i64>()\<close>\<close>

datatype int_error_kind = EmptyNumber | InvalidDigit | PosOverflow | NegOverflow

definition digit_val :: "byte \<Rightarrow> int option" where
  "digit_val c = (if 48 \<le> ord c \<and> ord c \<le> 57 then Some (of_char c - 48) else None)"

fun parse_digits :: "bool \<Rightarrow> int \<Rightarrow> bytes \<Rightarrow> int_error_kind + int" where
  "parse_digits neg acc [] = Inr acc"
| "parse_digits neg acc (c # cs) =
     (case digit_val c of
        None \<Rightarrow> Inl InvalidDigit
      | Some d \<Rightarrow>
          (let acc' = (if neg then acc * 10 - d else acc * 10 + d) in
           if i64_max < acc' then Inl PosOverflow
           else if acc' < i64_min then Inl NegOverflow
           else parse_digits neg acc' cs))"

definition parse_i64_val :: "bytes \<Rightarrow> int_error_kind + int" where
  "parse_i64_val s =
     (case s of
        [] \<Rightarrow> Inl EmptyNumber
      | [c] \<Rightarrow> if c = CHR ''+'' \<or> c = CHR ''-'' then Inl InvalidDigit else parse_digits False 0 [c]
      | c # cs \<Rightarrow>
          if c = CHR ''+'' then parse_digits False 0 cs
          else if c = CHR ''-'' then parse_digits True 0 cs
          else parse_digits False 0 s)"

definition parse_i64 :: "bytes \<Rightarrow> int_error_kind + i64" where
  "parse_i64 s = map_sum id word_of_int (parse_i64_val s)"

lemma parse_digits_range:
  "parse_digits neg acc cs = Inr v \<Longrightarrow> i64_min \<le> acc \<Longrightarrow> acc \<le> i64_max \<Longrightarrow>
   i64_min \<le> v \<and> v \<le> i64_max"
  by (induction neg acc cs rule: parse_digits.induct)
     (auto split: option.splits if_splits simp: Let_def)

lemma parse_i64_val_range: "parse_i64_val s = Inr v \<Longrightarrow> i64_min \<le> v \<and> v \<le> i64_max"
proof -
  have z: "i64_min \<le> 0" "0 \<le> i64_max"
    by (simp_all add: i64_min_def i64_max_def)
  assume "parse_i64_val s = Inr v"
  then have "\<exists>neg cs. parse_digits neg 0 cs = Inr v"
    unfolding parse_i64_val_def by (fastforce simp del: parse_digits.simps split: list.splits if_splits)
  then show ?thesis using z parse_digits_range by blast
qed

text \<open>A parsed number keeps its value: the conversion to the word never truncates.\<close>

lemma parse_i64_exact: "parse_i64 s = Inr w \<Longrightarrow> parse_i64_val s = Inr (i64_val w)"
  using parse_i64_val_range [of s] i64_val_of_int
  by (cases "parse_i64_val s") (auto simp: parse_i64_def)

text \<open>Printing of a \<open>usize\<close>, as \<open>format!\<close> does.\<close>

fun show_nat :: "nat \<Rightarrow> bytes" where
  "show_nat n = (if n < 10 then [char_of (48 + n)] else show_nat (n div 10) @ [char_of (48 + n mod 10)])"

declare show_nat.simps [simp del]

fun dec_val :: "nat \<Rightarrow> bytes \<Rightarrow> nat" where
  "dec_val acc [] = acc"
| "dec_val acc (c # cs) = dec_val (10 * acc + (ord c - 48)) cs"

lemma dec_val_append: "dec_val acc (xs @ ys) = dec_val (dec_val acc xs) ys"
  by (induction xs arbitrary: acc) auto

lemma dec_val_show: "dec_val 0 (show_nat n) = n"
proof (induction n rule: show_nat.induct)
  case (1 n)
  show ?case
    using "1.IH" by (subst show_nat.simps) (simp add: dec_val_append)
qed

lemma show_nat_inject [simp]: "show_nat m = show_nat n \<longleftrightarrow> m = n"
  by (metis dec_val_show)

lemma show_nat_digits: "c \<in> set (show_nat n) \<Longrightarrow> 48 \<le> ord c \<and> ord c \<le> 57"
proof (induction n rule: show_nat.induct)
  case (1 n)
  have "n mod 10 < 10" by simp
  with 1 show ?case
    by (subst (asm) (2) show_nat.simps) (auto split: if_splits)
qed

end
