(* ===== verification/Json.thy ===== *)
theory Json
  imports Rust_Num
begin

text \<open>
  \<open>serde_json::Value\<close>, the type in which claims and JWKS documents reach crudeoauth. The parser
  itself is a library: documents appear as values of this type. The constructors are the
  library's public enum, which the source matches on; of a number the code only ever asks for
  its three views \<open>as_i64\<close>, \<open>as_u64\<close>, \<open>as_f64\<close>, so that is what a number is here.
\<close>

record number =
  num_as_i64 :: "i64 option"
  num_as_u64 :: "u64 option"
  num_as_f64 :: "f64 option"

datatype json =
  Null
| Bool bool
| Number number
| String bytes
| Array "json list"
| Object "(bytes \<times> json) list"

text \<open>\<open>Value::get(key)\<close> and the \<open>as_*\<close> views.\<close>

fun json_get :: "bytes \<Rightarrow> json \<Rightarrow> json option" where
  "json_get key (Object kvs) = map_of kvs key"
| "json_get key _ = None"

fun as_str :: "json \<Rightarrow> bytes option" where
  "as_str (String s) = Some s"
| "as_str _ = None"

fun as_array :: "json \<Rightarrow> json list option" where
  "as_array (Array vs) = Some vs"
| "as_array _ = None"

fun as_object :: "json \<Rightarrow> (bytes \<times> json) list option" where
  "as_object (Object kvs) = Some kvs"
| "as_object _ = None"

fun as_i64 :: "json \<Rightarrow> i64 option" where
  "as_i64 (Number n) = num_as_i64 n"
| "as_i64 _ = None"

fun as_u64 :: "json \<Rightarrow> u64 option" where
  "as_u64 (Number n) = num_as_u64 n"
| "as_u64 _ = None"

fun as_f64 :: "json \<Rightarrow> f64 option" where
  "as_f64 (Number n) = num_as_f64 n"
| "as_f64 _ = None"

text \<open>\<open>obj.get(key).and_then(Value::as_str)\<close>, the way most members are read.\<close>

definition get_str :: "bytes \<Rightarrow> json \<Rightarrow> bytes option" where
  "get_str key v = Option.bind (json_get key v) as_str"

text \<open>\<open>Map::remove\<close> on the members of an object.\<close>

definition obj_remove :: "bytes \<Rightarrow> (bytes \<times> json) list \<Rightarrow> (bytes \<times> json) list" where
  "obj_remove key kvs = filter (\<lambda>(k, _). k \<noteq> key) kvs"

lemma as_str_Some [simp]: "as_str v = Some s \<longleftrightarrow> v = String s"
  by (cases v) auto

lemma as_array_Some [simp]: "as_array v = Some xs \<longleftrightarrow> v = Array xs"
  by (cases v) auto

lemma as_object_Some [simp]: "as_object v = Some kvs \<longleftrightarrow> v = Object kvs"
  by (cases v) auto

lemma set_map_filter_as_str: "set (List.map_filter as_str vs) = {a. String a \<in> set vs}"
proof (induction vs)
  case (Cons v vs)
  then show ?case by (cases v) (simp_all add: map_filter_simps, auto)
qed (simp add: map_filter_simps)

lemma get_str_Some: "get_str key v = Some s \<longleftrightarrow> json_get key v = Some (String s)"
  by (auto simp: get_str_def bind_eq_Some_conv)

lemma json_get_removed:
  "json_get key (Object (obj_remove key' kvs)) = (if key = key' then None else json_get key (Object kvs))"
  by (induction kvs) (auto simp: obj_remove_def)

lemmas json_eval [rust_defs] = get_str_def obj_remove_def

end
