(* ===== verification/Jwt_Types.thy ===== *)
theory Jwt_Types
  imports Json
begin

text \<open>
  The data of \<open>core/src/jwt.rs\<close>: signature algorithms and their names, the error type, the
  policy and the JWK metadata, with the two pure tables of the file, the algorithm names and
  the match between an algorithm and a key type.
\<close>

section \<open>Algorithms\<close>

text \<open>\<open>jsonwebtoken::Algorithm\<close>; \<open>algorithm_name\<close> matches it exhaustively.\<close>

datatype algorithm =
  HS256 | HS384 | HS512 | ES256 | ES384 | RS256 | RS384 | RS512 | PS256 | PS384 | PS512 | EdDSA

instantiation algorithm :: enum
begin

definition enum_algorithm :: "algorithm list" where
  "enum_algorithm =
     [HS256, HS384, HS512, ES256, ES384, RS256, RS384, RS512, PS256, PS384, PS512, EdDSA]"

definition enum_all_algorithm :: "(algorithm \<Rightarrow> bool) \<Rightarrow> bool" where
  "enum_all_algorithm P \<longleftrightarrow> list_all P enum_class.enum"

definition enum_ex_algorithm :: "(algorithm \<Rightarrow> bool) \<Rightarrow> bool" where
  "enum_ex_algorithm P \<longleftrightarrow> list_ex P enum_class.enum"

instance
proof
  have U: "x \<in> set enum_class.enum" for x :: algorithm
    by (cases x) (simp_all add: enum_algorithm_def)
  show univ: "(UNIV :: algorithm set) = set enum_class.enum"
    using U by auto
  show "distinct (enum_class.enum :: algorithm list)"
    by (simp add: enum_algorithm_def)
  show "enum_class.enum_all P \<longleftrightarrow> Ball UNIV P" for P :: "algorithm \<Rightarrow> bool"
    by (simp add: enum_all_algorithm_def list_all_iff univ)
  show "enum_class.enum_ex P \<longleftrightarrow> Bex UNIV P" for P :: "algorithm \<Rightarrow> bool"
    by (simp add: enum_ex_algorithm_def list_ex_iff univ)
qed

end

definition LEGACY_ALLOWED_ALGORITHMS :: "algorithm list" where
  "LEGACY_ALLOWED_ALGORITHMS = [RS256, RS384, RS512, PS256, PS384, PS512, ES256, ES384, EdDSA]"

definition parse_algorithm_name :: "bytes \<Rightarrow> algorithm option" where
  "parse_algorithm_name v =
     (if v = ''HS256'' then Some HS256
      else if v = ''HS384'' then Some HS384
      else if v = ''HS512'' then Some HS512
      else if v = ''ES256'' then Some ES256
      else if v = ''ES384'' then Some ES384
      else if v = ''RS256'' then Some RS256
      else if v = ''RS384'' then Some RS384
      else if v = ''RS512'' then Some RS512
      else if v = ''PS256'' then Some PS256
      else if v = ''PS384'' then Some PS384
      else if v = ''PS512'' then Some PS512
      else if v = ''EdDSA'' then Some EdDSA
      else None)"

fun algorithm_name :: "algorithm \<Rightarrow> bytes" where
  "algorithm_name HS256 = ''HS256''"
| "algorithm_name HS384 = ''HS384''"
| "algorithm_name HS512 = ''HS512''"
| "algorithm_name ES256 = ''ES256''"
| "algorithm_name ES384 = ''ES384''"
| "algorithm_name RS256 = ''RS256''"
| "algorithm_name RS384 = ''RS384''"
| "algorithm_name RS512 = ''RS512''"
| "algorithm_name PS256 = ''PS256''"
| "algorithm_name PS384 = ''PS384''"
| "algorithm_name PS512 = ''PS512''"
| "algorithm_name EdDSA = ''EdDSA''"

definition algorithm_matches_key_type :: "algorithm \<Rightarrow> bytes \<Rightarrow> bytes option \<Rightarrow> bool" where
  "algorithm_matches_key_type alg kty crv =
     (if kty = ''RSA'' then alg \<in> {RS256, RS384, RS512, PS256, PS384, PS512}
      else if kty = ''EC'' then
        (case alg of
           ES256 \<Rightarrow> crv = None \<or> crv = Some ''P-256''
         | ES384 \<Rightarrow> crv = None \<or> crv = Some ''P-384''
         | _ \<Rightarrow> False)
      else if kty = ''OKP'' then alg = EdDSA \<and> (crv = None \<or> crv = Some ''Ed25519'')
      else if kty = ''oct'' then alg \<in> {HS256, HS384, HS512}
      else False)"

section \<open>Errors\<close>

text \<open>The reasons a \<open>ConfigError\<close> message states, in the order of the source.\<close>

datatype config_error =
  NoTrustedAudiences
| NoTrustedIssuer
| EmptyAllowedAlgorithms
| InvalidJwksJson bytes
| NoKeysArray
| NoKeys
| KeyNotObject
| DuplicateKid bytes
| NoUsableKeys
| TimeBeforeEpoch

datatype oauth_error =
  MissingUidClaim bytes
| InvalidUidClaim bytes
| DisallowedUsername bytes
| ParseError
| InvalidIssuer "bytes option"
| InvalidAudience
| MissingScope bytes
| InvalidAuthorizedParty "bytes option"
| MissingExpiration
| ClaimExpired
| InvalidSignature
| UnknownSigningKey "bytes option"
| ConfigError config_error

section \<open>Policy and keys\<close>

record jwt_policy =
  uid_attr :: bytes
  grace :: i64
  trusted_issuer :: bytes
  trusted_audiences :: "bytes list"
  trusted_authorized_parties :: "bytes list"
  required_scopes :: "bytes list"
  disallowed_usernames :: "bytes list"
  allowed_algorithms :: "algorithm list option"
  disallowed_algorithms :: "algorithm list"

record jwk_meta =
  meta_alg :: "bytes option"
  meta_use :: "bytes option"
  meta_key_ops :: "bytes list"
  meta_kty :: bytes
  meta_crv :: "bytes option"

record 'k signing_key =
  sk_key :: 'k
  sk_meta :: jwk_meta

definition algorithm_allowed :: "jwt_policy \<Rightarrow> algorithm \<Rightarrow> bool" where
  "algorithm_allowed policy alg \<longleftrightarrow>
     (let allowed = (case allowed_algorithms policy of
                       Some as \<Rightarrow> as | None \<Rightarrow> LEGACY_ALLOWED_ALGORITHMS)
      in alg \<in> set allowed \<and> alg \<notin> set (disallowed_algorithms policy))"

definition check_jwk_metadata :: "jwk_meta \<Rightarrow> algorithm \<Rightarrow> oauth_error + unit" where
  "check_jwk_metadata meta alg =
     (if (case meta_use meta of Some v \<Rightarrow> v \<noteq> ''sig'' | None \<Rightarrow> False) then Inl InvalidSignature
      else if meta_key_ops meta \<noteq> [] \<and> \<not> list_ex (\<lambda>v. v = ''verify'') (meta_key_ops meta)
      then Inl InvalidSignature
      else if (case meta_alg meta of
                 Some expected \<Rightarrow> parse_algorithm_name expected \<noteq> Some alg | None \<Rightarrow> False)
      then Inl InvalidSignature
      else if \<not> algorithm_matches_key_type alg (meta_kty meta) (meta_crv meta)
      then Inl InvalidSignature
      else Inr ())"

lemmas jwt_types_eval [rust_defs] =
  LEGACY_ALLOWED_ALGORITHMS_def parse_algorithm_name_def algorithm_matches_key_type_def
  algorithm_allowed_def check_jwk_metadata_def

section \<open>Properties\<close>

abbreviation is_hmac :: "algorithm \<Rightarrow> bool" where
  "is_hmac alg \<equiv> alg \<in> {HS256, HS384, HS512}"

lemma parse_name_Some: "parse_algorithm_name v = Some alg \<longleftrightarrow> v = algorithm_name alg"
  by (cases alg) (auto simp: parse_algorithm_name_def split: if_splits)

text \<open>The two algorithm tables are inverse to each other: a text is parsed to an algorithm
  exactly when it is that algorithm's name.\<close>

theorem parse_algorithm_name_iff:
  "parse_algorithm_name v = Some alg \<longleftrightarrow> v = algorithm_name alg"
  by (rule parse_name_Some)

text \<open>C38: Algorithm confusion is excluded by the key type: an algorithm that matches a key is an
  HMAC algorithm exactly when the key is a symmetric (\<open>oct\<close>) key, so a public key is never
  used as an HMAC secret.\<close>

theorem key_type_separates_hmac:
  assumes "algorithm_matches_key_type alg kty crv"
  shows "is_hmac alg \<longleftrightarrow> kty = ''oct''"
  using assms by (cases alg) (auto simp: algorithm_matches_key_type_def split: if_splits)

theorem key_type_separates_hmac_witness: "is_hmac RS256 \<longleftrightarrow> ''RSA'' = ''oct''"
  by (rule key_type_separates_hmac [of RS256 "''RSA''" None]) (simp add: algorithm_matches_key_type_def)

lemma legacy_no_hmac: "allowed_algorithms policy = None \<Longrightarrow> algorithm_allowed policy alg \<Longrightarrow> \<not> is_hmac alg"
  by (auto simp: algorithm_allowed_def LEGACY_ALLOWED_ALGORITHMS_def)

lemma check_jwk_metadata_Inr:
  "check_jwk_metadata meta alg = Inr () \<longleftrightarrow>
     meta_use meta \<in> {None, Some ''sig''} \<and>
     (meta_key_ops meta = [] \<or> ''verify'' \<in> set (meta_key_ops meta)) \<and>
     meta_alg meta \<in> {None, Some (algorithm_name alg)} \<and>
     algorithm_matches_key_type alg (meta_kty meta) (meta_crv meta)"
  by (auto simp: check_jwk_metadata_def list_ex_iff parse_name_Some split: option.splits if_splits)

end
