(* ===== verification/Policy_Options.thy ===== *)
theory Policy_Options
  imports Jwt_Types
begin

text \<open>
  \<open>PolicyOptions::read\<close> of \<open>core/src/config.rs\<close>: the \<open>oauthbearer_*\<close> options, read through a
  lookup function \<open>get\<close> that the SASL plugin and the PAM module each provide. Numbered options are
  read until the first missing index, a loop that ends only if \<open>get\<close> knows finitely many names:
  \<open>None\<close> is "does not return", and the locale \<open>option_source\<close> is the contract under which it does.
\<close>

section \<open>Lookup, errors, options\<close>

datatype option_error =
  GetoptNull
| InvalidOptionName
| InvalidGrace int_error_kind
| InvalidAlgorithmName bytes bytes
| EmptyOption bytes

type_synonym getter = "bytes \<Rightarrow> option_error + bytes option"

record policy_options =
  opt_uid_attr :: bytes
  opt_grace :: i64
  opt_trusted_issuer :: "bytes option"
  opt_jwks_path :: "bytes option"
  opt_trusted_audiences :: "bytes list"
  opt_trusted_authorized_parties :: "bytes list"
  opt_required_scopes :: "bytes list"
  opt_disallowed_usernames :: "bytes list"
  opt_allowed_algorithms :: "algorithm list option"
  opt_disallowed_algorithms :: "algorithm list"

text \<open>\<open>?\<close> on the result of a computation that may not return, and \<open>.filter(|v| !v.is_empty())\<close>.\<close>

fun try_opt :: "('e + 'a) option \<Rightarrow> ('a \<Rightarrow> ('e + 'b) option) \<Rightarrow> ('e + 'b) option" where
  "try_opt None f = None"
| "try_opt (Some (Inl e)) f = Some (Inl e)"
| "try_opt (Some (Inr x)) f = f x"

definition non_empty :: "bytes option \<Rightarrow> bytes option" where
  "non_empty v = (case v of Some s \<Rightarrow> if s \<noteq> [] then Some s else None | None \<Rightarrow> None)"

section \<open>Reading\<close>

partial_function (option) get_indexed_from ::
  "getter \<Rightarrow> bytes \<Rightarrow> nat \<Rightarrow> bytes list \<Rightarrow> (option_error + bytes list) option" where
  "get_indexed_from get prefix index values =
     (case get (prefix @ show_nat index) of
        Inl e \<Rightarrow> Some (Inl e)
      | Inr None \<Rightarrow> Some (Inr values)
      | Inr (Some v) \<Rightarrow>
          if v \<noteq> [] then get_indexed_from get prefix (Suc index) (values @ [v])
          else Some (Inl (EmptyOption (prefix @ show_nat index))))"

definition get_indexed :: "getter \<Rightarrow> bytes \<Rightarrow> (option_error + bytes list) option" where
  "get_indexed get prefix = get_indexed_from get prefix 0 []"

definition get_list_option :: "getter \<Rightarrow> bytes \<Rightarrow> (option_error + bytes list) option" where
  "get_list_option get name =
     try_opt (get_indexed get name) (\<lambda>indexed.
       if indexed \<noteq> [] then Some (Inr indexed)
       else try_opt (Some (get name)) (\<lambda>value.
         case value of
           None \<Rightarrow> Some (Inr [])
         | Some v \<Rightarrow> Some (Inr (filter (\<lambda>f. f \<noteq> [])
             (split_on (\<lambda>c. c = CHR '','' \<or> is_ascii_whitespace c) v)))))"

fun parse_algorithms_loop :: "bytes \<Rightarrow> bytes list \<Rightarrow> algorithm list \<Rightarrow> option_error + algorithm list" where
  "parse_algorithms_loop opt [] result = Inr result"
| "parse_algorithms_loop opt (value # values) result =
     (case parse_algorithm_name value of
        None \<Rightarrow> Inl (InvalidAlgorithmName opt value)
      | Some alg \<Rightarrow>
          parse_algorithms_loop opt values (if alg \<notin> set result then result @ [alg] else result))"

definition parse_algorithms :: "bytes \<Rightarrow> bytes list \<Rightarrow> option_error + algorithm list" where
  "parse_algorithms opt values = parse_algorithms_loop opt values []"

definition read :: "getter \<Rightarrow> (option_error + policy_options) option" where
  "read get =
     try_opt (Some (get ''oauthbearer_userid'')) (\<lambda>userid.
     try_opt (Some (get ''oauthbearer_grace'')) (\<lambda>grace_text.
     try_opt (Some (map_err InvalidGrace
         (parse_i64 (case grace_text of Some s \<Rightarrow> s | None \<Rightarrow> ''3'')))) (\<lambda>grace.
     try_opt (get_list_option get ''oauthbearer_allowed_alg'') (\<lambda>allowed_names.
     try_opt (if allowed_names = [] then Some (Inr None)
              else Some (and_then (parse_algorithms ''oauthbearer_allowed_alg'' allowed_names)
                           (\<lambda>algs. Inr (Some algs)))) (\<lambda>allowed.
     try_opt (get_list_option get ''oauthbearer_disallowed_alg'') (\<lambda>disallowed_names.
     try_opt (Some (parse_algorithms ''oauthbearer_disallowed_alg'' disallowed_names)) (\<lambda>disallowed.
     try_opt (Some (get ''oauthbearer_trusted_iss0'')) (\<lambda>iss.
     try_opt (Some (get ''oauthbearer_trusted_jwks0'')) (\<lambda>jwks.
     try_opt (get_indexed get ''oauthbearer_trusted_aud'') (\<lambda>auds.
     try_opt (get_indexed get ''oauthbearer_trusted_azp'') (\<lambda>azps.
     try_opt (get_indexed get ''oauthbearer_required_scope'') (\<lambda>scopes.
     try_opt (get_list_option get ''oauthbearer_disallowed_username'') (\<lambda>usernames.
     Some (Inr
       \<lparr>opt_uid_attr = (case non_empty userid of Some v \<Rightarrow> v | None \<Rightarrow> ''preferred_username''),
        opt_grace = grace,
        opt_trusted_issuer = non_empty iss,
        opt_jwks_path = non_empty jwks,
        opt_trusted_audiences = auds,
        opt_trusted_authorized_parties = azps,
        opt_required_scopes = scopes,
        opt_disallowed_usernames = usernames,
        opt_allowed_algorithms = allowed,
        opt_disallowed_algorithms = disallowed\<rparr>))))))))))))))"

lemma try_opt_eq_Inr [result_simps]:
  "try_opt m f = Some (Inr y) \<longleftrightarrow> (\<exists>x. m = Some (Inr x) \<and> f x = Some (Inr y))"
  by (cases "(m, f)" rule: try_opt.cases) auto

lemma try_opt_returns: "(\<exists>r. m = Some r) \<Longrightarrow> (\<And>x. \<exists>r. f x = Some r) \<Longrightarrow> \<exists>r. try_opt m f = Some r"
  by (cases "(m, f)" rule: try_opt.cases) auto

section \<open>Numbered options\<close>

text \<open>The values the loop collects: what is set at the next indices, up to the first missing one.\<close>

definition indexed_values :: "getter \<Rightarrow> bytes \<Rightarrow> nat \<Rightarrow> bytes list \<Rightarrow> bool" where
  "indexed_values get prefix i vs \<longleftrightarrow>
     get (prefix @ show_nat (i + length vs)) = Inr None \<and>
     (\<forall>j < length vs. vs ! j \<noteq> [] \<and> get (prefix @ show_nat (i + j)) = Inr (Some (vs ! j)))"

lemma indexed_values_Nil [simp]:
  "indexed_values get prefix i [] \<longleftrightarrow> get (prefix @ show_nat i) = Inr None"
  by (simp add: indexed_values_def)

lemma indexed_values_Cons [simp]:
  "indexed_values get prefix i (v # vs) \<longleftrightarrow>
   v \<noteq> [] \<and> get (prefix @ show_nat i) = Inr (Some v) \<and> indexed_values get prefix (Suc i) vs"
  by (auto simp: indexed_values_def less_Suc_eq_0_disj nth_Cons split: nat.splits)

lemma get_indexed_from_Inr:
  assumes "get_indexed_from get prefix i acc = Some y"
  shows "\<forall>r. y = Inr r \<longrightarrow> (\<exists>vs. r = acc @ vs \<and> indexed_values get prefix i vs)"
proof (rule get_indexed_from.raw_induct [OF _ assms])
  fix f :: "getter \<Rightarrow> bytes \<Rightarrow> nat \<Rightarrow> bytes list \<Rightarrow> (option_error + bytes list) option"
    and get :: getter and prefix index vals and y :: "option_error + bytes list"
  assume IH: "\<And>(get :: getter) prefix index vals y. f get prefix index vals = Some y \<Longrightarrow>
      \<forall>r. y = Inr r \<longrightarrow> (\<exists>vs. r = vals @ vs \<and> indexed_values get prefix index vs)"
  assume step: "(case get (prefix @ show_nat index) of Inl e \<Rightarrow> Some (Inl e)
      | Inr None \<Rightarrow> Some (Inr vals)
      | Inr (Some v) \<Rightarrow> if v \<noteq> [] then f get prefix (Suc index) (vals @ [v])
          else Some (Inl (EmptyOption (prefix @ show_nat index)))) = Some y"
  show "\<forall>r. y = Inr r \<longrightarrow> (\<exists>vs. r = vals @ vs \<and> indexed_values get prefix index vs)"
  proof (intro allI impI)
    fix r assume y: "y = Inr r"
    consider "get (prefix @ show_nat index) = Inr None" "r = vals"
      | v where "get (prefix @ show_nat index) = Inr (Some v)" "v \<noteq> []"
          "f get prefix (Suc index) (vals @ [v]) = Some (Inr r)"
      using step y by (auto split: sum.splits option.splits if_splits)
    then show "\<exists>vs. r = vals @ vs \<and> indexed_values get prefix index vs"
    proof cases
      case 1
      then show ?thesis by (intro exI [of _ "[]"]) simp
    next
      case 2
      from IH [OF 2(3)] obtain vs where "r = (vals @ [v]) @ vs" "indexed_values get prefix (Suc index) vs"
        by blast
      with 2 show ?thesis by (intro exI [of _ "v # vs"]) simp
    qed
  qed
qed

lemma get_indexed_from_all:
  "indexed_values get prefix i vs \<Longrightarrow> get_indexed_from get prefix i acc = Some (Inr (acc @ vs))"
proof (induction vs arbitrary: i acc)
  case Nil
  then show ?case by (simp add: get_indexed_from.simps)
next
  case (Cons v vs)
  from Cons.prems Cons.IH [of "Suc i" "acc @ [v]"] show ?case
    by (subst get_indexed_from.simps) simp
qed

lemma get_indexed_eq: "get_indexed get prefix = Some (Inr vs) \<longleftrightarrow> indexed_values get prefix 0 vs"
  using get_indexed_from_Inr [of get prefix 0 "[]" "Inr vs"] get_indexed_from_all [of get prefix 0 vs "[]"]
  by (auto simp: get_indexed_def)

text \<open>Conversely: the loop returns as soon as some index is missing, empty or fails.\<close>

lemma get_indexed_from_returns:
  assumes "\<forall>v. get (prefix @ show_nat (i + n)) \<noteq> Inr (Some v)"
  shows "\<exists>r. get_indexed_from get prefix i acc = Some r"
  using assms
proof (induction n arbitrary: i acc)
  case 0
  then show ?case
    by (subst get_indexed_from.simps) (auto split: sum.splits option.splits)
next
  case (Suc n)
  from Suc.prems Suc.IH [of "Suc i"] show ?case
    by (subst get_indexed_from.simps) (auto split: sum.splits option.splits)
qed

lemma get_indexed_from_mono:
  assumes "get_indexed_from get prefix i acc = Some y"
  shows "(\<forall>j. get' (prefix @ show_nat j) = get (prefix @ show_nat j)) \<longrightarrow>
    get_indexed_from get' prefix i acc = Some y"
proof (rule get_indexed_from.raw_induct [OF _ assms])
  fix f :: "getter \<Rightarrow> bytes \<Rightarrow> nat \<Rightarrow> bytes list \<Rightarrow> (option_error + bytes list) option"
    and get :: getter and prefix index vals and y :: "option_error + bytes list"
  assume IH: "\<And>(get :: getter) prefix index vals y. f get prefix index vals = Some y \<Longrightarrow>
      (\<forall>j. get' (prefix @ show_nat j) = get (prefix @ show_nat j)) \<longrightarrow>
      get_indexed_from get' prefix index vals = Some y"
  assume step: "(case get (prefix @ show_nat index) of Inl e \<Rightarrow> Some (Inl e)
      | Inr None \<Rightarrow> Some (Inr vals)
      | Inr (Some v) \<Rightarrow> if v \<noteq> [] then f get prefix (Suc index) (vals @ [v])
          else Some (Inl (EmptyOption (prefix @ show_nat index)))) = Some y"
  show "(\<forall>j. get' (prefix @ show_nat j) = get (prefix @ show_nat j)) \<longrightarrow>
      get_indexed_from get' prefix index vals = Some y"
  proof
    assume eq: "\<forall>j. get' (prefix @ show_nat j) = get (prefix @ show_nat j)"
    with step IH show "get_indexed_from get' prefix index vals = Some y"
      by (subst get_indexed_from.simps)
        (auto split: sum.splits option.splits if_splits)
  qed
qed

lemma get_indexed_cong:
  assumes "\<And>j. get (prefix @ show_nat j) = get' (prefix @ show_nat j)"
  shows "get_indexed get prefix = get_indexed get' prefix"
proof -
  have iff: "get_indexed get prefix = Some y \<longleftrightarrow> get_indexed get' prefix = Some y" for y
    using get_indexed_from_mono [of get prefix 0 "[]" y get']
      get_indexed_from_mono [of get' prefix 0 "[]" y get] assms
    by (auto simp: get_indexed_def)
  show ?thesis
  proof (cases "get_indexed get prefix")
    case None
    with iff have "get_indexed get' prefix \<noteq> Some y" for y by simp
    with None show ?thesis by (cases "get_indexed get' prefix") auto
  next
    case (Some y)
    with iff [of y] show ?thesis by simp
  qed
qed

lemma get_list_option_cong:
  assumes "\<And>j. get (name @ show_nat j) = get' (name @ show_nat j)" and "get name = get' name"
  shows "get_list_option get name = get_list_option get' name"
  unfolding get_list_option_def by (simp only: get_indexed_cong [of get name get', OF assms(1)] assms(2))

section \<open>Sources with finitely many options\<close>

locale option_source =
  fixes get :: getter
  assumes finite_names: "finite {name. \<exists>v. get name = Inr (Some v)}"
begin

lemma missing_index: "\<exists>n. \<forall>v. get (prefix @ show_nat n) \<noteq> Inr (Some v)"
proof (rule ccontr)
  assume "\<nexists>n. \<forall>v. get (prefix @ show_nat n) \<noteq> Inr (Some v)"
  then have "range (\<lambda>n. prefix @ show_nat n) \<subseteq> {name. \<exists>v. get name = Inr (Some v)}" by auto
  then have "finite (range (\<lambda>n. prefix @ show_nat n))" using finite_names finite_subset by blast
  moreover have "inj (\<lambda>n. prefix @ show_nat n)" by (auto intro!: injI)
  ultimately show False using finite_imageD infinite_UNIV_nat by blast
qed

lemma indexed_returns: "\<exists>r. get_indexed get prefix = Some r"
  using missing_index [of prefix] get_indexed_from_returns [of get prefix 0 _ "[]"]
  by (auto simp: get_indexed_def)

lemma list_returns: "\<exists>r. get_list_option get name = Some r"
  unfolding get_list_option_def
  by (intro try_opt_returns indexed_returns)
    (auto intro!: try_opt_returns split: option.splits)

lemma read_returns: "\<exists>r. read get = Some r"
  unfolding read_def
  by (intro try_opt_returns list_returns indexed_returns) auto

end

section \<open>Algorithm lists\<close>

text \<open>The reference: the first occurrence of every algorithm, in order.\<close>

definition named_algorithms :: "bytes list \<Rightarrow> algorithm list" where
  "named_algorithms names = rev (remdups (rev (map (the \<circ> parse_algorithm_name) names)))"

lemma parse_algorithms_loop_eq:
  "parse_algorithms_loop opt values result =
     (case find (\<lambda>n. parse_algorithm_name n = None) values of
        Some n \<Rightarrow> Inl (InvalidAlgorithmName opt n)
      | None \<Rightarrow> Inr (fold (\<lambda>a r. if a \<notin> set r then r @ [a] else r)
                   (map (the \<circ> parse_algorithm_name) values) result))"
  by (induction "values" arbitrary: result) (auto split: option.splits)

lemma fold_add_new:
  "fold (\<lambda>a r. if a \<notin> set r then r @ [a] else r) xs [] = rev (remdups (rev xs))"
  by (induction xs rule: rev_induct) auto

lemma parse_algorithms_unfold:
  "parse_algorithms opt values =
     (case find (\<lambda>n. parse_algorithm_name n = None) values of
        Some n \<Rightarrow> Inl (InvalidAlgorithmName opt n)
      | None \<Rightarrow> Inr (named_algorithms values))"
  by (simp add: parse_algorithms_def parse_algorithms_loop_eq fold_add_new named_algorithms_def cong: option.case_cong)

lemma parse_algorithms_Inr [result_simps]:
  "parse_algorithms opt values = Inr algs \<longleftrightarrow>
   None \<notin> parse_algorithm_name ` set values \<and> algs = named_algorithms values"
proof (cases "find (\<lambda>n. parse_algorithm_name n = None) values")
  case None
  then have "None \<notin> parse_algorithm_name ` set values" by (auto simp: find_None_iff)
  with None show ?thesis by (auto simp: parse_algorithms_unfold)
next
  case (Some n)
  then have "None \<in> parse_algorithm_name ` set values" by (auto simp: find_Some_iff) (metis image_eqI nth_mem)
  with Some show ?thesis by (simp add: parse_algorithms_unfold)
qed

lemma set_named_algorithms: "set (named_algorithms names) = (the \<circ> parse_algorithm_name) ` set names"
  by (simp add: named_algorithms_def image_image)

text \<open>An algorithm option is rejected with the first name that is no JWT algorithm; otherwise it
  denotes exactly the algorithms named, in the order of their first mention and without
  duplicates.\<close>

theorem parse_algorithms_exact:
  "parse_algorithms opt values =
     (case find (\<lambda>n. parse_algorithm_name n = None) values of
        Some n \<Rightarrow> Inl (InvalidAlgorithmName opt n)
      | None \<Rightarrow> Inr (named_algorithms values)) \<and>
   distinct (named_algorithms values) \<and>
   set (named_algorithms values) = (the \<circ> parse_algorithm_name) ` set values"
  by (simp add: parse_algorithms_unfold set_named_algorithms) (simp add: named_algorithms_def)

section \<open>The whole option set\<close>

text \<open>What a list option denotes: its numbered values, or the comma or space separated ones when
  there is no numbered value.\<close>

definition list_values :: "getter \<Rightarrow> bytes \<Rightarrow> bytes list \<Rightarrow> bool" where
  "list_values get name vs \<longleftrightarrow>
     vs \<noteq> [] \<and> indexed_values get name 0 vs \<or>
     indexed_values get name 0 [] \<and>
     (get name = Inr None \<and> vs = [] \<or>
      (\<exists>v. get name = Inr (Some v) \<and>
         vs = filter (\<lambda>f. f \<noteq> []) (split_on (\<lambda>c. c = CHR '','' \<or> is_ascii_whitespace c) v)))"

definition algorithm_values :: "getter \<Rightarrow> bytes \<Rightarrow> bytes list \<Rightarrow> algorithm list \<Rightarrow> bool" where
  "algorithm_values get name names algs \<longleftrightarrow>
     list_values get name names \<and> None \<notin> parse_algorithm_name ` set names \<and>
     algs = named_algorithms names"

definition grace_value :: "bytes option \<Rightarrow> i64 \<Rightarrow> bool" where
  "grace_value text g \<longleftrightarrow> (case text of None \<Rightarrow> g = 3 | Some s \<Rightarrow> parse_i64 s = Inr g)"

definition options_of :: "getter \<Rightarrow> policy_options \<Rightarrow> bool" where
  "options_of get p \<longleftrightarrow>
     (\<exists>userid. get ''oauthbearer_userid'' = Inr userid \<and>
        opt_uid_attr p = (if userid \<in> {None, Some []} then ''preferred_username'' else the userid)) \<and>
     (\<exists>text. get ''oauthbearer_grace'' = Inr text \<and> grace_value text (opt_grace p)) \<and>
     (\<exists>names algs. algorithm_values get ''oauthbearer_allowed_alg'' names algs \<and>
        opt_allowed_algorithms p = (if names = [] then None else Some algs)) \<and>
     (\<exists>names. algorithm_values get ''oauthbearer_disallowed_alg'' names (opt_disallowed_algorithms p)) \<and>
     (\<exists>iss. get ''oauthbearer_trusted_iss0'' = Inr iss \<and> opt_trusted_issuer p = non_empty iss) \<and>
     (\<exists>jwks. get ''oauthbearer_trusted_jwks0'' = Inr jwks \<and> opt_jwks_path p = non_empty jwks) \<and>
     indexed_values get ''oauthbearer_trusted_aud'' 0 (opt_trusted_audiences p) \<and>
     indexed_values get ''oauthbearer_trusted_azp'' 0 (opt_trusted_authorized_parties p) \<and>
     indexed_values get ''oauthbearer_required_scope'' 0 (opt_required_scopes p) \<and>
     list_values get ''oauthbearer_disallowed_username'' (opt_disallowed_usernames p)"

lemma indexed_values_unique:
  "indexed_values get prefix i vs \<Longrightarrow> indexed_values get prefix i ws \<Longrightarrow> vs = ws"
proof (induction vs arbitrary: i ws)
  case Nil
  then show ?case by (cases ws) auto
next
  case (Cons v vs)
  then show ?case by (cases ws) auto
qed

lemma get_list_option_eq: "get_list_option get name = Some (Inr vs) \<longleftrightarrow> list_values get name vs"
proof
  assume "get_list_option get name = Some (Inr vs)"
  then obtain ix where ix: "indexed_values get name 0 ix"
    and r: "(if ix \<noteq> [] then Some (Inr ix) else try_opt (Some (get name)) (\<lambda>value.
         case value of None \<Rightarrow> Some (Inr [])
         | Some v \<Rightarrow> Some (Inr (filter (\<lambda>f. f \<noteq> [])
             (split_on (\<lambda>c. c = CHR '','' \<or> is_ascii_whitespace c) v))))) = Some (Inr vs)"
    by (auto simp only: get_list_option_def try_opt_eq_Inr get_indexed_eq)
  show "list_values get name vs"
  proof (cases "ix = []")
    case True
    with ix r show ?thesis
      by (auto simp: list_values_def result_simps simp del: try_opt.simps split: option.splits)
  next
    case False
    with ix r show ?thesis by (simp add: list_values_def)
  qed
next
  assume "list_values get name vs"
  then consider "vs \<noteq> []" "get_indexed get name = Some (Inr vs)"
    | "get_indexed get name = Some (Inr [])" "get name = Inr None" "vs = []"
    | v where "get_indexed get name = Some (Inr [])" "get name = Inr (Some v)"
        "vs = filter (\<lambda>f. f \<noteq> []) (split_on (\<lambda>c. c = CHR '','' \<or> is_ascii_whitespace c) v)"
    unfolding list_values_def get_indexed_eq by blast
  then show "get_list_option get name = Some (Inr vs)"
    by cases (simp_all add: get_list_option_def)
qed

lemma grace_text:
  "map_err InvalidGrace (parse_i64 (case text of Some s \<Rightarrow> s | None \<Rightarrow> ''3'')) = Inr g \<longleftrightarrow>
   grace_value text g"
proof -
  have "parse_i64 ''3'' = Inr 3" by code_simp
  then show ?thesis by (auto simp: grace_value_def result_simps split: option.splits)
qed


lemma read_eq: "read get = Some (Inr p) \<longleftrightarrow> options_of get p"
proof -
  have uid: "(case non_empty u of Some v \<Rightarrow> v | None \<Rightarrow> ''preferred_username'') =
      (if u \<in> {None, Some []} then ''preferred_username'' else the u)" for u
    by (auto simp: non_empty_def split: option.splits)
  have alg: "(if names = [] then Some (Inr None)
      else Some (and_then (parse_algorithms opt names) (\<lambda>algs. Inr (Some algs)))) = Some (Inr a) \<longleftrightarrow>
      None \<notin> parse_algorithm_name ` set names \<and>
      a = (if names = [] then None else Some (named_algorithms names))" for names a opt
    by (auto simp: result_simps)
  show ?thesis
    unfolding read_def options_of_def algorithm_values_def
    apply (cases p)
    apply (simp only: try_opt_eq_Inr get_list_option_eq get_indexed_eq alg uid parse_algorithms_Inr
        grace_text option.inject sum.inject simp_thms ex_simps policy_options.ext_inject policy_options.select_convs)
    by (rule iffI; elim exE conjE; hypsubst?; intro exI conjI; (assumption | rule refl | erule sym))
qed

text \<open>C27: Reading the options succeeds with \<open>p\<close> exactly when \<open>p\<close> is what the options denote: the
  defaults for what is unset or empty, a grace that parses as an \<open>i64\<close>, algorithm lists of known names
  only, numbered values without a gap, and the issuer and key file of index 0.\<close>

theorem read_refines_options: "read get = Some (Inr p) \<longleftrightarrow> options_of get p"
  by (rule read_eq)

text \<open>The names the code looks up.\<close>

definition plain_names :: "bytes set" where
  "plain_names =
     {''oauthbearer_userid'', ''oauthbearer_grace'', ''oauthbearer_trusted_iss0'',
      ''oauthbearer_trusted_jwks0''}"

definition list_names :: "bytes set" where
  "list_names =
     {''oauthbearer_allowed_alg'', ''oauthbearer_disallowed_alg'', ''oauthbearer_disallowed_username''}"

definition numbered_names :: "bytes set" where
  "numbered_names =
     {''oauthbearer_trusted_aud'', ''oauthbearer_trusted_azp'', ''oauthbearer_required_scope''}"

definition option_names :: "bytes set" where
  "option_names = plain_names \<union> list_names \<union> {name @ show_nat j |name j. name \<in> list_names \<union> numbered_names}"

lemma read_cong:
  assumes "\<And>name. name \<in> option_names \<Longrightarrow> get name = get' name"
  shows "read get = read get'"
proof -
  have single: "get name = get' name" if "name \<in> plain_names" for name
    using that assms by (auto simp: option_names_def)
  have listed: "get_list_option get name = get_list_option get' name" if "name \<in> list_names" for name
    by (rule get_list_option_cong; rule assms) (use that in \<open>auto simp: option_names_def\<close>)
  have indexed: "get_indexed get name = get_indexed get' name" if "name \<in> numbered_names" for name
    by (rule get_indexed_cong; rule assms) (use that in \<open>auto simp: option_names_def\<close>)
  show ?thesis
    unfolding read_def
    by (simp only: single [unfolded plain_names_def, OF insertI1]
        single [unfolded plain_names_def, OF insertI2 [OF insertI1]]
        single [unfolded plain_names_def, OF insertI2 [OF insertI2 [OF insertI1]]]
        single [unfolded plain_names_def, OF insertI2 [OF insertI2 [OF insertI2 [OF insertI1]]]]
        listed [unfolded list_names_def, OF insertI1]
        listed [unfolded list_names_def, OF insertI2 [OF insertI1]]
        listed [unfolded list_names_def, OF insertI2 [OF insertI2 [OF insertI1]]]
        indexed [unfolded numbered_names_def, OF insertI1]
        indexed [unfolded numbered_names_def, OF insertI2 [OF insertI1]]
        indexed [unfolded numbered_names_def, OF insertI2 [OF insertI2 [OF insertI1]]])
qed

text \<open>Two sources that agree on the names the code looks up give the same policy: the code looks at
  no other option, in particular at no issuer or key file with an index other than 0.\<close>

theorem read_depends_on_option_names:
  assumes "\<forall>name. name \<in> option_names \<longrightarrow> get name = get' name"
  shows "read get = read get'"
  using assms by (intro read_cong) blast

theorem read_depends_on_option_names_witness:
  "read (\<lambda>name. if name = ''oauthbearer_trusted_jwks1'' then Inr (Some ''/etc/keys'') else Inr None) =
   read (\<lambda>name. Inr None)"
proof (rule read_depends_on_option_names, intro allI impI)
  fix name assume "name \<in> option_names"
  then have "name \<noteq> ''oauthbearer_trusted_jwks1''" by (auto simp: option_names_def plain_names_def list_names_def numbered_names_def)
  then show "(if name = ''oauthbearer_trusted_jwks1'' then Inr (Some ''/etc/keys'') else Inr None) =
      (Inr None :: option_error + bytes option)" by simp
qed

end
