(* ===== verification/Pam_Args.thy ===== *)
theory Pam_Args
  imports Policy_Options
begin

text \<open>
  The arguments of the PAM module, \<open>pam/src/lib.rs\<close> up to \<open>only_from_allows\<close>, and
  \<open>collect_args\<close> of \<open>pam/src/ffi.rs\<close>: the inline options of a PAM stack line, and the
  configuration file in the format of Cyrus SASL that \<open>config=\<close> selects. The file has been opened
  by the operating system: \<open>opened\<close> is what \<open>fs::File\<close> then answers.
\<close>

section \<open>Files\<close>

text \<open>The fields of \<open>fs::Metadata\<close> the module reads. An \<open>io::Error\<close> is only ever printed.\<close>

record metadata =
  md_dev :: u64
  md_ino :: u64
  md_size :: u64
  md_mtime :: i64
  md_mtime_nsec :: i64
  md_ctime :: i64
  md_ctime_nsec :: i64
  md_is_file :: bool
  md_mode :: "32 word"

type_synonym io_error = bytes

record opened =
  f_metadata :: "io_error + metadata"
  f_read :: "io_error + bytes"

text \<open>\<open>read_to_string\<close>: the bytes must be UTF-8.\<close>

definition read_to_string :: "opened \<Rightarrow> io_error + bytes" where
  "read_to_string file =
     and_then (f_read file) (\<lambda>raw. ok_or ''stream did not contain valid UTF-8'' (from_utf8 raw))"

section \<open>Arguments\<close>

datatype args_error =
  MultipleConfigOptions
| ConfigWithInlineOptions
| InvalidGraceArg int_error_kind
| MultipleValues bytes
| InvalidAlgorithmArg bytes bytes
| InvalidConfigLine nat
| PolicyOptionError option_error
| FailedToOpen io_error
| FailedToStat io_error
| NotRegularFile
| WritableByOthers
| FailedToRead io_error

record pam_args =
  userid :: bytes
  args_grace :: i64
  iss :: "bytes option"
  jwks :: "bytes option"
  trusted_aud :: "bytes list"
  trusted_azp :: "bytes list"
  required_scope :: "bytes list"
  only_from :: "bytes list list"
  args_disallowed_usernames :: "bytes list"
  args_allowed_algorithms :: "algorithm list option"
  args_disallowed_algorithms :: "algorithm list"

text \<open>\<open>argv\<close> is a null pointer or an array of \<open>argc\<close> pointers, each null or a C string.\<close>

definition collect_args :: "32 word \<Rightarrow> bytes option list option \<Rightarrow> bytes list" where
  "collect_args argc argv =
     (case argv of
        None \<Rightarrow> []
      | Some ptrs \<Rightarrow> map from_utf8_lossy (List.map_filter id (take (nat (max 0 (sint argc))) ptrs)))"

definition config_path :: "bytes list \<Rightarrow> args_error + bytes option" where
  "config_path raw =
     (let config_paths = List.map_filter (strip_prefix ''config='') raw in
      if length config_paths > 1 then Inl MultipleConfigOptions
      else if config_paths \<noteq> [] \<and> list_ex (\<lambda>arg. \<not> starts_with ''config='' arg) raw
      then Inl ConfigWithInlineOptions
      else Inr (case config_paths of [] \<Rightarrow> None | p # _ \<Rightarrow> Some p))"

definition default_args :: pam_args where
  "default_args =
     \<lparr>userid = ''preferred_username'', args_grace = 3, iss = None, jwks = None, trusted_aud = [],
      trusted_azp = [], required_scope = [], only_from = [], args_disallowed_usernames = [],
      args_allowed_algorithms = None, args_disallowed_algorithms = []\<rparr>"

definition set_once :: "bytes option \<Rightarrow> bytes \<Rightarrow> bytes \<Rightarrow> args_error + bytes option" where
  "set_once slot v name = (if slot \<noteq> None then Inl (MultipleValues name) else Inr (Some v))"

definition add_new :: "'a list \<Rightarrow> 'a \<Rightarrow> 'a list" where
  "add_new xs x = (if x \<notin> set xs then xs @ [x] else xs)"

definition add_algorithm :: "algorithm list option \<Rightarrow> bytes \<Rightarrow> bytes \<Rightarrow> args_error + algorithm list option" where
  "add_algorithm slot v name =
     and_then (ok_or (InvalidAlgorithmArg name v) (parse_algorithm_name v)) (\<lambda>algorithm.
       Inr (Some (add_new (case slot of None \<Rightarrow> [] | Some xs \<Rightarrow> xs) algorithm)))"

definition add_disallowed_algorithm :: "algorithm list \<Rightarrow> bytes \<Rightarrow> args_error + algorithm list" where
  "add_disallowed_algorithm xs v =
     and_then (ok_or (InvalidAlgorithmArg ''disallowed_alg'' v) (parse_algorithm_name v))
       (\<lambda>algorithm. Inr (add_new xs algorithm))"

definition split_hosts :: "bytes \<Rightarrow> bytes list" where
  "split_hosts v = filter (\<lambda>host. host \<noteq> []) (split_on (\<lambda>c. c = CHR '','') v)"

definition apply_option :: "pam_args \<Rightarrow> bytes \<Rightarrow> bytes \<Rightarrow> args_error + pam_args" where
  "apply_option args key v =
     (if key = ''userid'' then Inr (args\<lparr>userid := v\<rparr>)
      else if key = ''grace'' then
        and_then (map_err InvalidGraceArg (parse_i64 v)) (\<lambda>g. Inr (args\<lparr>args_grace := g\<rparr>))
      else if key = ''iss'' then and_then (set_once (iss args) v ''iss'') (\<lambda>s. Inr (args\<lparr>iss := s\<rparr>))
      else if key = ''jwks'' then and_then (set_once (jwks args) v ''jwks'') (\<lambda>s. Inr (args\<lparr>jwks := s\<rparr>))
      else if key = ''trusted_aud'' then Inr (args\<lparr>trusted_aud := trusted_aud args @ [v]\<rparr>)
      else if key = ''trusted_azp'' then Inr (args\<lparr>trusted_azp := trusted_azp args @ [v]\<rparr>)
      else if key = ''required_scope'' then Inr (args\<lparr>required_scope := required_scope args @ [v]\<rparr>)
      else if key = ''only_from'' then Inr (args\<lparr>only_from := only_from args @ [split_hosts v]\<rparr>)
      else if key = ''disallowed_username'' then
        Inr (args\<lparr>args_disallowed_usernames := args_disallowed_usernames args @ [v]\<rparr>)
      else if key = ''allowed_alg'' then
        and_then (add_algorithm (args_allowed_algorithms args) v ''allowed_alg'')
          (\<lambda>algs. Inr (args\<lparr>args_allowed_algorithms := algs\<rparr>))
      else if key = ''disallowed_alg'' then
        and_then (add_disallowed_algorithm (args_disallowed_algorithms args) v)
          (\<lambda>algs. Inr (args\<lparr>args_disallowed_algorithms := algs\<rparr>))
      else Inr args)"

fun parse_inline_loop :: "pam_args \<Rightarrow> bytes list \<Rightarrow> args_error + pam_args" where
  "parse_inline_loop args [] = Inr args"
| "parse_inline_loop args (arg # raw) =
     (case split_once (CHR ''='') arg of
        None \<Rightarrow> parse_inline_loop args raw
      | Some (key, v) \<Rightarrow> and_then (apply_option args key v) (\<lambda>args'. parse_inline_loop args' raw))"

definition parse_inline_args :: "bytes list \<Rightarrow> args_error + pam_args" where
  "parse_inline_args raw = parse_inline_loop default_args raw"

definition only_from_allows :: "bytes list list \<Rightarrow> bytes \<Rightarrow> bool" where
  "only_from_allows host_lists host = list_all (\<lambda>hosts. list_ex (\<lambda>allowed. allowed = host) hosts) host_lists"

section \<open>The configuration file\<close>

text \<open>A byte of a character outside ASCII is no alphanumeric: the test on the characters of the key is
  the test on its bytes.\<close>

definition key_byte :: "byte \<Rightarrow> bool" where
  "key_byte c \<longleftrightarrow> is_ascii_alphanumeric c \<or> c = CHR ''-'' \<or> c = CHR ''_''"

fun parse_entries :: "nat \<Rightarrow> bytes list \<Rightarrow> (bytes \<times> bytes) list \<Rightarrow> args_error + (bytes \<times> bytes) list" where
  "parse_entries line_number [] entries = Inr entries"
| "parse_entries line_number (raw_line # raw_lines) entries =
     (let line = trim_start raw_line in
      if line = [] \<or> starts_with ''#'' line then parse_entries (line_number + 1) raw_lines entries
      else
        and_then (ok_or (InvalidConfigLine (line_number + 1)) (split_once (CHR '':'') line)) (\<lambda>(key, v).
        let v = trim v in
        if v = [] \<or> \<not> list_all key_byte key then Inl (InvalidConfigLine (line_number + 1))
        else parse_entries (line_number + 1) raw_lines (entries @ [(to_ascii_lowercase key, v)])))"

definition file_getter :: "(bytes \<times> bytes) list \<Rightarrow> getter" where
  "file_getter entries name = Inr (map_option snd (find (\<lambda>(key, _). key = name) entries))"

definition args_of_options :: "policy_options \<Rightarrow> pam_args" where
  "args_of_options opts =
     \<lparr>userid = opt_uid_attr opts, args_grace = opt_grace opts, iss = opt_trusted_issuer opts,
      jwks = opt_jwks_path opts, trusted_aud = opt_trusted_audiences opts,
      trusted_azp = opt_trusted_authorized_parties opts, required_scope = opt_required_scopes opts,
      only_from = [], args_disallowed_usernames = opt_disallowed_usernames opts,
      args_allowed_algorithms = opt_allowed_algorithms opts,
      args_disallowed_algorithms = opt_disallowed_algorithms opts\<rparr>"

text \<open>\<open>None\<close> stands for a loop over numbered options that never ends; \<open>parse_config_ok\<close> shows
  that no file has that effect.\<close>

definition parse_config :: "bytes \<Rightarrow> (args_error + pam_args) option" where
  "parse_config contents =
     try_opt (Some (parse_entries 0 (str_lines contents) [])) (\<lambda>entries.
     try_opt (map_option (map_err PolicyOptionError) (read (file_getter entries))) (\<lambda>opts.
     Some (Inr (args_of_options opts))))"

text \<open>The mode bits \<open>0o022\<close> are the write permissions of group and others.\<close>

definition writable_by_others :: "32 word \<Rightarrow> bool" where
  "writable_by_others mode \<longleftrightarrow> and mode 0x12 \<noteq> 0"

definition read_config_file :: "io_error + opened \<Rightarrow> (args_error + pam_args \<times> metadata) option" where
  "read_config_file file_open =
     try_opt (Some (map_err FailedToOpen file_open)) (\<lambda>file.
     try_opt (Some (map_err FailedToStat (f_metadata file))) (\<lambda>meta.
     if \<not> md_is_file meta then Some (Inl NotRegularFile)
     else if writable_by_others (md_mode meta) then Some (Inl WritableByOthers)
     else
       try_opt (Some (map_err FailedToRead (read_to_string file))) (\<lambda>contents.
       try_opt (parse_config contents) (\<lambda>args. Some (Inr (args, meta))))))"

lemmas pam_args_eval [rust_defs] =
  config_path_def default_args_def set_once_def add_new_def add_algorithm_def
  add_disallowed_algorithm_def split_hosts_def apply_option_def parse_inline_args_def
  only_from_allows_def key_byte_def file_getter_def args_of_options_def writable_by_others_def

section \<open>What inline arguments denote\<close>

definition option_values :: "bytes \<Rightarrow> bytes list \<Rightarrow> bytes list" where
  "option_values key raw =
     map snd (filter (\<lambda>kv. fst kv = key) (List.map_filter (split_once (CHR ''='')) raw))"

definition inline_valid :: "bytes list \<Rightarrow> bool" where
  "inline_valid raw \<longleftrightarrow>
     (\<forall>v \<in> set (option_values ''grace'' raw). \<not> isl (parse_i64 v)) \<and>
     length (option_values ''iss'' raw) \<le> 1 \<and> length (option_values ''jwks'' raw) \<le> 1 \<and>
     None \<notin> parse_algorithm_name ` set (option_values ''allowed_alg'' raw) \<and>
     None \<notin> parse_algorithm_name ` set (option_values ''disallowed_alg'' raw)"

definition last_or :: "'a \<Rightarrow> 'a list \<Rightarrow> 'a" where
  "last_or d xs = (if xs = [] then d else last xs)"

definition inline_args :: "bytes list \<Rightarrow> pam_args" where
  "inline_args raw =
     \<lparr>userid = last_or ''preferred_username'' (option_values ''userid'' raw),
      args_grace = last_or 3 (map (projr \<circ> parse_i64) (option_values ''grace'' raw)),
      iss = (case option_values ''iss'' raw of [] \<Rightarrow> None | v # _ \<Rightarrow> Some v),
      jwks = (case option_values ''jwks'' raw of [] \<Rightarrow> None | v # _ \<Rightarrow> Some v),
      trusted_aud = option_values ''trusted_aud'' raw,
      trusted_azp = option_values ''trusted_azp'' raw,
      required_scope = option_values ''required_scope'' raw,
      only_from = map split_hosts (option_values ''only_from'' raw),
      args_disallowed_usernames = option_values ''disallowed_username'' raw,
      args_allowed_algorithms =
        (if option_values ''allowed_alg'' raw = [] then None
         else Some (named_algorithms (option_values ''allowed_alg'' raw))),
      args_disallowed_algorithms = named_algorithms (option_values ''disallowed_alg'' raw)\<rparr>"

lemma option_values_Nil [simp]: "option_values key [] = []"
  by (simp add: option_values_def map_filter_simps)

lemma option_values_snoc [simp]:
  "option_values key (raw @ [arg]) =
     option_values key raw @
       (case split_once (CHR ''='') arg of
          None \<Rightarrow> [] | Some (k, v) \<Rightarrow> if k = key then [v] else [])"
  by (auto simp: option_values_def List.map_filter_def split: option.splits)

lemma option_values_snoc_pair:
  "CHR ''='' \<notin> set k \<Longrightarrow> option_values key (raw @ [k @ CHR ''='' # v]) =
     option_values key raw @ (if k = key then [v] else [])"
  by simp

lemma named_algorithms_Nil [simp]: "named_algorithms [] = []"
  by (simp add: named_algorithms_def)

lemma named_algorithms_snoc [simp]:
  "named_algorithms (names @ [n]) = add_new (named_algorithms names) (the (parse_algorithm_name n))"
  by (auto simp: named_algorithms_def add_new_def)

lemma last_or_simps [simp]: "last_or d [] = d" "last_or d (xs @ [x]) = x"
  by (simp_all add: last_or_def)

lemma parse_inline_loop_snoc:
  "parse_inline_loop args (raw @ [arg]) =
     and_then (parse_inline_loop args raw) (\<lambda>args'.
       case split_once (CHR ''='') arg of None \<Rightarrow> Inr args' | Some (key, v) \<Rightarrow> apply_option args' key v)"
proof (induction args raw rule: parse_inline_loop.induct)
  case (1 args)
  then show ?case by (auto split: option.splits)
next
  case (2 args a raw)
  then show ?case
    by (auto simp: and_then_assoc split: option.splits intro!: arg_cong [where f = "and_then _"])
qed

lemma apply_option_step:
  "inline_valid raw \<and> apply_option (inline_args raw) k v = Inr b \<longleftrightarrow>
   inline_valid (raw @ [k @ CHR ''='' # v]) \<and> inline_args (raw @ [k @ CHR ''='' # v]) = b"
  if k: "CHR ''='' \<notin> set k"
  proof -
  let ?keys = "{''userid'', ''grace'', ''iss'', ''jwks'', ''trusted_aud'', ''trusted_azp'',
        ''required_scope'', ''only_from'', ''disallowed_username'', ''allowed_alg'', ''disallowed_alg''}"
  show ?thesis
  proof (cases "k \<in> ?keys")
    case True
    then show ?thesis
      unfolding apply_option_def inline_valid_def inline_args_def option_values_snoc_pair [OF k]
      apply (elim insertE emptyE)
      subgoal by simp
      subgoal by (cases "parse_i64 v") simp_all
      subgoal by (cases "option_values ''iss'' raw") (simp_all add: set_once_def)
      subgoal by (cases "option_values ''jwks'' raw") (simp_all add: set_once_def)
      subgoal by simp
      subgoal by simp
      subgoal by simp
      subgoal by simp
      subgoal by simp
      subgoal by (cases "parse_algorithm_name v") (simp_all add: add_algorithm_def)
      subgoal by (cases "parse_algorithm_name v") (simp_all add: add_disallowed_algorithm_def)
      done
  next
    case False
    then show ?thesis
      unfolding apply_option_def inline_valid_def inline_args_def option_values_snoc_pair [OF k]
      by simp
  qed
qed


lemma parse_inline_args_Inr:
  "parse_inline_args raw = Inr a \<longleftrightarrow> inline_valid raw \<and> inline_args raw = a"
  unfolding parse_inline_args_def
proof (induction raw arbitrary: a rule: rev_induct)
  case Nil
  show ?case
    by (simp add: inline_valid_def inline_args_def default_args_def)
next
  case (snoc arg raw)
  show ?case
  proof (cases "split_once (CHR ''='') arg")
    case None
    then show ?thesis
      using snoc.IH [of a] by (simp add: parse_inline_loop_snoc inline_valid_def inline_args_def)
  next
    case (Some kv)
    obtain k v where kv: "kv = (k, v)" by force
    with Some split_once_Some [of "CHR ''=''" arg k v]
    have arg: "arg = k @ CHR ''='' # v" "CHR ''='' \<notin> set k" by auto
    have "parse_inline_loop default_args (raw @ [arg]) = Inr a \<longleftrightarrow>
        inline_valid raw \<and> apply_option (inline_args raw) k v = Inr a"
      using Some kv snoc.IH by (auto simp: parse_inline_loop_snoc result_simps)
    also note apply_option_step [OF arg(2)]
    finally show ?thesis by (simp add: arg(1))
  qed
qed

text \<open>C28: Inline arguments are accepted exactly when every \<open>grace\<close> parses as an \<open>i64\<close>, \<open>iss\<close> and \<open>jwks\<close>
  occur at most once and every algorithm name is known; they denote the last \<open>userid\<close> and \<open>grace\<close>,
  the one \<open>iss\<close> and \<open>jwks\<close>, and for every list option all its values in order. Arguments without
  \<open>=\<close> and unknown keys have no effect.\<close>

theorem parse_inline_args_iff:
  "parse_inline_args raw = Inr a \<longleftrightarrow> inline_valid raw \<and> a = inline_args raw"
  using parse_inline_args_Inr [of raw a] by blast

section \<open>Selecting the configuration file\<close>

lemma stripped_Cons:
  "List.map_filter (strip_prefix pre) (arg # raw) =
     (if starts_with pre arg then drop (length pre) arg # List.map_filter (strip_prefix pre) raw
      else List.map_filter (strip_prefix pre) raw)"
  by (simp add: map_filter_simps strip_prefix_def)

lemma stripped_empty:
  "List.map_filter (strip_prefix pre) raw = [] \<longleftrightarrow> list_all (\<lambda>arg. \<not> starts_with pre arg) raw"
  by (induction raw) (simp_all add: strip_prefix_def)

lemma stripped_single:
  "(List.map_filter (strip_prefix pre) raw = [p] \<and> \<not> list_ex (\<lambda>arg. \<not> starts_with pre arg) raw) \<longleftrightarrow>
   raw = [pre @ p]"
proof (cases raw)
  case (Cons arg rest)
  show ?thesis
  proof (cases "starts_with pre arg")
    case False
    then show ?thesis using Cons by (auto simp: starts_with_iff)
  next
    case True
    then obtain q where arg: "arg = pre @ q" by (auto simp: starts_with_iff)
    have "list_all (\<lambda>arg. \<not> starts_with pre arg) rest \<and> \<not> list_ex (\<lambda>arg. \<not> starts_with pre arg) rest \<longleftrightarrow>
        rest = []"
      by (cases rest) auto
    with True arg show ?thesis by (auto simp: Cons strip_prefix_def) (simp_all add: stripped_empty)
  qed
qed (simp add: map_filter_simps)

lemma select_single:
  "(let ps = List.map_filter (strip_prefix pre) raw in
      if length ps > 1 then Inl e
      else if ps \<noteq> [] \<and> list_ex (\<lambda>arg. \<not> starts_with pre arg) raw then Inl e'
      else Inr (case ps of [] \<Rightarrow> None | p # _ \<Rightarrow> Some p)) = Inr r \<longleftrightarrow>
   (case r of Some p \<Rightarrow> raw = [pre @ p] | None \<Rightarrow> list_all (\<lambda>arg. \<not> starts_with pre arg) raw)"
  unfolding stripped_single [symmetric] stripped_empty [symmetric]
  by (cases "List.map_filter (strip_prefix pre) raw"; cases "tl (List.map_filter (strip_prefix pre) raw)")
    (auto split: option.splits)

text \<open>A configuration file is used exactly when \<open>config=\<close> is the only argument; inline options are
  used exactly when no argument is a \<open>config=\<close>; every mixture and every repetition is an error.\<close>

theorem config_path_iff:
  "(config_path raw = Inr (Some p) \<longleftrightarrow> raw = [''config='' @ p]) \<and>
   (config_path raw = Inr None \<longleftrightarrow> list_all (\<lambda>arg. \<not> starts_with ''config='' arg) raw)"
  unfolding config_path_def select_single by simp

text \<open>With inline arguments the OAuth check applies to a host exactly when every \<open>only_from\<close>
  argument names it between its commas, and never to an empty host name.\<close>

theorem only_from_allows_iff:
  assumes "parse_inline_args raw = Inr a"
  shows "only_from_allows (only_from a) host \<longleftrightarrow>
    (\<forall>v \<in> set (option_values ''only_from'' raw). host \<noteq> [] \<and> host \<in> set (split_on (\<lambda>c. c = CHR '','') v))"
proof -
  from assms have "only_from a = map split_hosts (option_values ''only_from'' raw)"
    by (auto simp: parse_inline_args_Inr inline_args_def)
  then show ?thesis
    by (auto simp: only_from_allows_def split_hosts_def list_all_iff list_ex_iff)
qed

theorem only_from_allows_iff_witness:
  "only_from_allows [[''a'', ''b''], [''b'', ''c'']] ''b'' \<longleftrightarrow>
   (\<forall>v \<in> {''a,b'', ''b,,c''}. ''b'' \<noteq> [] \<and> ''b'' \<in> set (split_on (\<lambda>c. c = CHR '','') v))"
proof -
  have "parse_inline_args [''only_from=a,b'', ''only_from=b,,c''] =
      Inr (default_args\<lparr>only_from := [[''a'', ''b''], [''b'', ''c'']]\<rparr>)"
    "option_values ''only_from'' [''only_from=a,b'', ''only_from=b,,c''] = [''a,b'', ''b,,c'']"
    by code_simp+
  with only_from_allows_iff [OF this(1), of "''b''"] show ?thesis by (simp add: default_args_def)
qed


section \<open>The configuration file\<close>

lemma file_getter_map_of: "file_getter entries name = Inr (map_of entries name)"
  by (induction entries) (auto simp: file_getter_def)

text \<open>A file is an option source: it sets finitely many options.\<close>

interpretation config_file: option_source "file_getter entries" for entries
proof
  have "{name. \<exists>v. file_getter entries name = Inr (Some v)} \<subseteq> fst ` set entries"
    by (auto simp: file_getter_map_of dest: map_of_SomeD intro: rev_image_eqI)
  then show "finite {name. \<exists>v. file_getter entries name = Inr (Some v)}"
    by (rule finite_subset) simp
qed

lemma parse_config_ok: "\<exists>r. parse_config contents = Some r"
  unfolding parse_config_def
proof (intro try_opt_returns)
  show "\<exists>r. map_option (map_err PolicyOptionError) (read (file_getter entries)) = Some r" for entries
    using config_file.read_returns [of entries] by auto
qed auto

text \<open>A file in canonical form: one line per option, the key in lower case, the value trimmed.\<close>

definition well_formed_entry :: "bytes \<times> bytes \<Rightarrow> bool" where
  "well_formed_entry kv \<longleftrightarrow>
     list_all key_byte (fst kv) \<and> to_ascii_lowercase (fst kv) = fst kv \<and>
     snd kv \<noteq> [] \<and> trim (snd kv) = snd kv \<and> CHR 0x0A \<notin> set (snd kv) \<and> CHR 0x0D \<notin> set (snd kv)"

definition render_entry :: "bytes \<times> bytes \<Rightarrow> bytes" where
  "render_entry kv = fst kv @ '': '' @ snd kv"

definition render_entries :: "(bytes \<times> bytes) list \<Rightarrow> bytes" where
  "render_entries entries = closed_by (CHR 0x0A) (map render_entry entries)"

lemma key_byte_ascii: "key_byte c \<Longrightarrow> ord c < 0x80"
  by (auto simp: key_byte_def is_ascii_alphanumeric_def)

lemma not_key_byte [simp]:
  "\<not> key_byte (CHR 0x0A)" "\<not> key_byte (CHR 0x0D)" "\<not> key_byte (CHR '':'')" "\<not> key_byte (CHR ''#'')"
  by code_simp+

lemma key_notin: "list_all key_byte k \<Longrightarrow> \<not> key_byte c \<Longrightarrow> c \<notin> set k"
  by (auto simp: list_all_iff)

lemma ascii_not_whitespace: "32 < ord c \<Longrightarrow> ord c < 0x80 \<Longrightarrow> \<not> is_whitespace [c]"
proof -
  assume c: "32 < ord c" "ord c < 0x80"
  have "code_point [c] = int (ord c)" by (simp add: code_point_def of_nat_of_char)
  with c show ?thesis by (simp add: is_whitespace_def)
qed

lemma key_byte_whitespace: "key_byte c \<or> c = CHR '':'' \<Longrightarrow> \<not> is_whitespace [c]"
  by (rule ascii_not_whitespace) (auto simp: key_byte_def is_ascii_alphanumeric_def)

lemma split_inclusive_closed:
  "\<forall>f \<in> set fs. nl \<notin> set f \<Longrightarrow> split_inclusive nl (closed_by nl fs) = map (\<lambda>f. f @ [nl]) fs"
proof (induction fs)
  case (Cons f fs)
  have "nl \<notin> set f \<Longrightarrow> split_inclusive nl (f @ nl # xs) = (f @ [nl]) # split_inclusive nl xs" for f xs
    by (induction f) auto
  with Cons show ?case by simp
qed simp

lemma str_lines_closed:
  assumes "\<forall>f \<in> set fs. CHR 0x0A \<notin> set f \<and> CHR 0x0D \<notin> set f"
  shows "str_lines (closed_by (CHR 0x0A) fs) = fs"
proof -
  have "strip_suffix [CHR 0x0D] f = None" if "f \<in> set fs" for f
    using assms that by (auto simp: strip_suffix_def ends_with_iff)
  moreover have "strip_suffix [nl] (f @ [nl]) = Some f" for f and nl :: byte
    by (simp add: strip_suffix_def ends_with_def)
  ultimately show ?thesis
    using assms by (simp add: str_lines_def split_inclusive_closed map_idI)
qed

lemma trim_start_entry:
  assumes "list_all key_byte k"
  shows "trim_start (k @ CHR '':'' # v) = k @ CHR '':'' # v"
proof -
  obtain c cs where c: "k @ CHR '':'' # v = c # cs" "key_byte c \<or> c = CHR '':''"
    using assms by (cases k) auto
  moreover from c(2) have "ord c < 0x80" by (auto dest: key_byte_ascii)
  ultimately show ?thesis
    using key_byte_whitespace [OF c(2)] by (simp add: trim_start_def)
qed

lemma trim_space [simp]: "trim (CHR '' '' # v) = trim v"
proof -
  have "is_whitespace '' ''" by code_simp
  then show ?thesis by (simp add: trim_def trim_start_def)
qed

lemma parse_entries_render:
  "\<forall>kv \<in> set entries. well_formed_entry kv \<Longrightarrow>
   parse_entries n (map render_entry entries) acc = Inr (acc @ entries)"
proof (induction entries arbitrary: n acc)
  case (Cons kv entries)
  obtain k v where kv: "kv = (k, v)" by force
  with Cons.prems have k: "list_all key_byte k" "to_ascii_lowercase k = k" and v: "v \<noteq> []" "trim v = v"
    by (auto simp: well_formed_entry_def)
  from k(1) have "CHR '':'' \<notin> set k" by (rule key_notin) simp
  moreover from k(1) have "\<not> starts_with ''#'' (k @ '': '' @ v)"
    by (cases k) (auto simp: starts_with_def)
  ultimately show ?case
    using Cons k v kv trim_start_entry [OF k(1), of "CHR '' '' # v"]
    by (simp add: render_entry_def Let_def)
qed simp

lemma parse_render_entries:
  assumes "\<forall>kv \<in> set entries. well_formed_entry kv"
  shows "parse_config (render_entries entries) = Some (Inr a) \<longleftrightarrow>
    (\<exists>opts. options_of (\<lambda>name. Inr (map_of entries name)) opts \<and> a = args_of_options opts)"
proof -
  have nl: "\<forall>f \<in> set (map render_entry entries). CHR 0x0A \<notin> set f \<and> CHR 0x0D \<notin> set f"
    using assms by (auto simp: well_formed_entry_def render_entry_def key_notin)
  have "file_getter entries = (\<lambda>name. Inr (map_of entries name))"
    by (rule ext) (rule file_getter_map_of)
  then show ?thesis
    using parse_entries_render [OF assms, of 0 "[]"]
    by (auto simp: parse_config_def render_entries_def str_lines_closed [OF nl] try_opt_eq_Inr read_eq
        result_simps simp flip: read_eq)
qed

text \<open>A configuration file in canonical form gives exactly the policy that its options denote, the
  first value of a repeated key counting.\<close>

theorem parse_config_canonical:
  assumes "\<forall>kv \<in> set entries. well_formed_entry kv"
  shows "parse_config (render_entries entries) = Some (Inr a) \<longleftrightarrow>
    (\<exists>opts. options_of (\<lambda>name. Inr (map_of entries name)) opts \<and> a = args_of_options opts)"
  using assms by (rule parse_render_entries)

theorem parse_config_canonical_witness:
  "\<exists>a. parse_config (render_entries
     [(''oauthbearer_trusted_iss0'', ''https://first/''), (''oauthbearer_trusted_iss0'', ''second'')]) = Some (Inr a) \<and>
   iss a = Some ''https://first/''"
proof -
  let ?entries = "[(''oauthbearer_trusted_iss0'', ''https://first/''), (''oauthbearer_trusted_iss0'', ''second'')]"
  let ?opts = "\<lparr>opt_uid_attr = ''preferred_username'', opt_grace = 3,
    opt_trusted_issuer = Some ''https://first/'', opt_jwks_path = None, opt_trusted_audiences = [],
    opt_trusted_authorized_parties = [], opt_required_scopes = [], opt_disallowed_usernames = [],
    opt_allowed_algorithms = None, opt_disallowed_algorithms = []\<rparr>"
  have "\<forall>kv \<in> set ?entries. well_formed_entry kv" by code_simp
  moreover have "options_of (\<lambda>name. Inr (map_of ?entries name)) ?opts"
    by (auto simp: options_of_def grace_value_def algorithm_values_def list_values_def non_empty_def
        show_nat.simps)
  ultimately have "parse_config (render_entries ?entries) = Some (Inr (args_of_options ?opts))"
    using parse_config_canonical [of ?entries "args_of_options ?opts"] by blast
  then show ?thesis by (auto simp: args_of_options_def)
qed

lemma writable_by_others_iff: "writable_by_others mode \<longleftrightarrow> bit mode 1 \<or> bit mode 4"
proof -
  have "(0x12 :: 32 word) = or (push_bit 1 1) (push_bit 4 1)" by simp
  then have bits: "bit (0x12 :: 32 word) n \<longleftrightarrow> n = 1 \<or> n = 4" for n
    by (simp only: bit_or_iff bit_push_bit_iff bit_1_iff) auto
  have "and mode 0x12 = 0 \<longleftrightarrow> (\<forall>n. \<not> bit (and mode 0x12) n)"
    by (auto intro!: bit_eqI)
  then show ?thesis
    by (simp only: writable_by_others_def bit_and_iff bits) blast
qed

lemma read_config_file_InrD:
  "read_config_file file_open = Some (Inr (a, m)) \<Longrightarrow>
   \<exists>file contents. file_open = Inr file \<and> f_metadata file = Inr m \<and>
      f_read file = Inr contents \<and> parse_config contents = Some (Inr a)"
  by (auto simp: read_config_file_def result_simps read_to_string_def from_utf8_def split: if_splits)

text \<open>C37: A configuration is taken from a file exactly when it is a regular file that neither its group
  nor others may write (mode bits 4 and 1), whose content is UTF-8 and parses; the metadata handed
  to the cache are those of the file that was read.\<close>

theorem read_config_file_iff:
  "read_config_file file_open = Some (Inr (a, m)) \<longleftrightarrow>
   (\<exists>file contents. file_open = Inr file \<and> f_metadata file = Inr m \<and> md_is_file m \<and>
      \<not> bit (md_mode m) 4 \<and> \<not> bit (md_mode m) 1 \<and>
      f_read file = Inr contents \<and> valid_utf8 contents \<and> parse_config contents = Some (Inr a))"
  by (auto simp: read_config_file_def result_simps read_to_string_def from_utf8_def writable_by_others_iff
      split: if_splits)

end
