(* ===== verification/Jwt_Claims.thy ===== *)
theory Jwt_Claims
  imports Jwt_Types
begin

text \<open>
  The claim checks of \<open>core/src/jwt.rs\<close>: issuer, audience, authorized party, validity dates,
  scopes, username claim and deny-list. Each is a function of the policy and the claims; the
  dates also read the clock, which is an argument: the seconds since the epoch, or \<open>None\<close> when
  the system time is before it.
\<close>

section \<open>The checks\<close>

definition check_issuer :: "jwt_policy \<Rightarrow> json \<Rightarrow> oauth_error + unit" where
  "check_issuer policy claims =
     (let found = get_str ''iss'' claims in
      if found = Some (trusted_issuer policy) then Inr () else Inl (InvalidIssuer found))"

definition check_audience :: "jwt_policy \<Rightarrow> json \<Rightarrow> oauth_error + unit" where
  "check_audience policy claims =
     (let valid =
        (case json_get ''aud'' claims of
           Some (String aud) \<Rightarrow> list_ex (\<lambda>expected. expected = aud) (trusted_audiences policy)
         | Some (Array audiences) \<Rightarrow>
             list_ex (\<lambda>aud. list_ex (\<lambda>expected. expected = aud) (trusted_audiences policy))
               (List.map_filter as_str audiences)
         | _ \<Rightarrow> False)
      in if valid then Inr () else Inl InvalidAudience)"

definition check_authorized_party :: "jwt_policy \<Rightarrow> json \<Rightarrow> oauth_error + unit" where
  "check_authorized_party policy claims =
     (if trusted_authorized_parties policy = [] then Inr ()
      else case json_get ''azp'' claims of
        None \<Rightarrow> Inl (InvalidAuthorizedParty None)
      | Some v \<Rightarrow>
          (case as_str v of
             None \<Rightarrow> Inl (InvalidAuthorizedParty None)
           | Some azp \<Rightarrow>
               if list_ex (\<lambda>expected. expected = azp) (trusted_authorized_parties policy) then Inr ()
               else Inl (InvalidAuthorizedParty (Some azp))))"

definition numeric_date :: "json option \<Rightarrow> oauth_error + i64 option" where
  "numeric_date value =
     (case value of
        None \<Rightarrow> Inr None
      | Some v \<Rightarrow>
          (case as_i64 v of
             Some i \<Rightarrow> Inr (Some i)
           | None \<Rightarrow>
               (case as_u64 v of
                  Some u \<Rightarrow> ok_or ClaimExpired (map_option Some (i64_try_from_u64 u))
                | None \<Rightarrow>
                    (case as_f64 v of
                       Some (Finite q) \<Rightarrow>
                         if of_int i64_min \<le> q \<and> q \<le> of_int (i64_max + 1)
                         then Inr (Some (round_as_i64 q)) else Inl ClaimExpired
                     | _ \<Rightarrow> Inl ClaimExpired))))"

text \<open>\<open>nbf_in_future\<close>, \<open>iat_in_future\<close>\<close>

definition in_future :: "i64 \<Rightarrow> i64 option \<Rightarrow> bool" where
  "in_future limit date = (case date of Some v \<Rightarrow> i64_less limit v | None \<Rightarrow> False)"

definition check_validity_dates :: "u64 option \<Rightarrow> jwt_policy \<Rightarrow> json \<Rightarrow> oauth_error + unit" where
  "check_validity_dates clock policy claims =
     and_then (ok_or (ConfigError TimeBeforeEpoch) clock) (\<lambda>secs.
       let now = u64_as_i64 secs; g = i64_max_of (grace policy) 0 in
       case numeric_date (json_get ''exp'' claims) of
         Inr (Some exp_date) \<Rightarrow>
           and_then (numeric_date (json_get ''nbf'' claims)) (\<lambda>nbf.
           and_then (numeric_date (json_get ''iat'' claims)) (\<lambda>iat.
             if i64_less exp_date (saturating_sub now g) \<or>
                in_future (saturating_add now g) nbf \<or> in_future (saturating_add now g) iat
             then Inl ClaimExpired else Inr ()))
       | _ \<Rightarrow> Inl MissingExpiration)"

fun check_scopes :: "bytes \<Rightarrow> bytes list \<Rightarrow> oauth_error + unit" where
  "check_scopes scope [] = Inr ()"
| "check_scopes scope (required # rest) =
     (if \<not> list_ex (\<lambda>present. present = required) (split_ascii_whitespace scope)
      then Inl (MissingScope required)
      else check_scopes scope rest)"

definition check_required_scopes :: "jwt_policy \<Rightarrow> json \<Rightarrow> oauth_error + unit" where
  "check_required_scopes policy claims =
     (let scope = (case get_str ''scope'' claims of Some s \<Rightarrow> s | None \<Rightarrow> [])
      in check_scopes scope (required_scopes policy))"

definition check_username :: "jwt_policy \<Rightarrow> bytes \<Rightarrow> oauth_error + unit" where
  "check_username policy username =
     (if list_ex (\<lambda>value. eq_ignore_ascii_case value username) (disallowed_usernames policy)
      then Inl (DisallowedUsername username) else Inr ())"

definition extract_uid :: "jwt_policy \<Rightarrow> json \<Rightarrow> oauth_error + bytes" where
  "extract_uid policy claims =
     (case get_str (uid_attr policy) claims of
        None \<Rightarrow> Inl (MissingUidClaim (uid_attr policy))
      | Some uid \<Rightarrow>
          if uid = [] then Inl (MissingUidClaim (uid_attr policy))
          else if trim uid \<noteq> uid \<or> list_ex is_control (str_chars uid)
          then Inl (InvalidUidClaim (uid_attr policy))
          else Inr uid)"

text \<open>The part of \<open>verify\<close> after the signature: all checks, in the order of the source.\<close>

definition check_claims :: "u64 option \<Rightarrow> jwt_policy \<Rightarrow> json \<Rightarrow> oauth_error + bytes" where
  "check_claims clock policy claims =
     and_then (check_issuer policy claims) (\<lambda>_.
     and_then (check_audience policy claims) (\<lambda>_.
     and_then (check_authorized_party policy claims) (\<lambda>_.
     and_then (check_validity_dates clock policy claims) (\<lambda>_.
     and_then (check_required_scopes policy claims) (\<lambda>_.
     and_then (extract_uid policy claims) (\<lambda>uid.
     and_then (check_username policy uid) (\<lambda>_. Inr uid)))))))"

lemmas jwt_claims_eval [rust_defs] =
  check_issuer_def check_audience_def check_authorized_party_def numeric_date_def
  check_validity_dates_def in_future_def check_required_scopes_def check_username_def extract_uid_def
  check_claims_def

section \<open>What the checks accept\<close>

text \<open>The audiences a token names, and the dates an exact clock would accept.\<close>

definition aud_values :: "json \<Rightarrow> bytes set" where
  "aud_values claims =
     (case json_get ''aud'' claims of
        Some (String a) \<Rightarrow> {a}
      | Some (Array vs) \<Rightarrow> {a. String a \<in> set vs}
      | _ \<Rightarrow> {})"

definition scope_values :: "json \<Rightarrow> bytes set" where
  "scope_values claims =
     (case json_get ''scope'' claims of
        Some (String s) \<Rightarrow> set (split_ascii_whitespace s) | _ \<Rightarrow> {})"

definition not_after :: "int \<Rightarrow> oauth_error + i64 option \<Rightarrow> bool" where
  "not_after limit date \<longleftrightarrow>
     (case date of Inl _ \<Rightarrow> False | Inr None \<Rightarrow> True | Inr (Some d) \<Rightarrow> i64_val d \<le> limit)"

definition dates_ok :: "int \<Rightarrow> int \<Rightarrow> json \<Rightarrow> bool" where
  "dates_ok now tolerance claims \<longleftrightarrow>
     (\<exists>e. numeric_date (json_get ''exp'' claims) = Inr (Some e) \<and> now - tolerance \<le> i64_val e) \<and>
     not_after (now + tolerance) (numeric_date (json_get ''nbf'' claims)) \<and>
     not_after (now + tolerance) (numeric_date (json_get ''iat'' claims))"

definition uid_ok :: "bytes \<Rightarrow> bool" where
  "uid_ok uid \<longleftrightarrow> uid \<noteq> [] \<and>
     \<not> is_whitespace (hd (str_chars uid)) \<and> \<not> is_whitespace (last (str_chars uid)) \<and>
     (\<forall>c \<in> set (str_chars uid). \<not> is_control c)"

definition claims_accepted :: "int \<Rightarrow> jwt_policy \<Rightarrow> json \<Rightarrow> bytes \<Rightarrow> bool" where
  "claims_accepted now policy claims uid \<longleftrightarrow>
     json_get ''iss'' claims = Some (String (trusted_issuer policy)) \<and>
     set (trusted_audiences policy) \<inter> aud_values claims \<noteq> {} \<and>
     (trusted_authorized_parties policy = [] \<or>
        (\<exists>azp \<in> set (trusted_authorized_parties policy). json_get ''azp'' claims = Some (String azp))) \<and>
     dates_ok now (max (i64_val (grace policy)) 0) claims \<and>
     set (required_scopes policy) \<subseteq> scope_values claims \<and>
     json_get (uid_attr policy) claims = Some (String uid) \<and> uid_ok uid \<and>
     (\<forall>v \<in> set (disallowed_usernames policy). \<not> eq_ignore_ascii_case v uid)"

lemma check_issuer_Inr [result_simps]:
  "check_issuer policy claims = Inr () \<longleftrightarrow> json_get ''iss'' claims = Some (String (trusted_issuer policy))"
  by (simp add: check_issuer_def get_str_Some)

lemma check_audience_Inr [result_simps]:
  "check_audience policy claims = Inr () \<longleftrightarrow> set (trusted_audiences policy) \<inter> aud_values claims \<noteq> {}"
  by (auto simp: check_audience_def aud_values_def list_ex_iff set_map_filter_as_str
      split: option.splits json.splits)

lemma check_authorized_party_Inr [result_simps]:
  "check_authorized_party policy claims = Inr () \<longleftrightarrow>
     trusted_authorized_parties policy = [] \<or>
     (\<exists>azp \<in> set (trusted_authorized_parties policy). json_get ''azp'' claims = Some (String azp))"
  by (auto simp: check_authorized_party_def list_ex_iff split: option.splits)

lemma check_scopes_Inr:
  "check_scopes scope rs = Inr () \<longleftrightarrow> set rs \<subseteq> set (split_ascii_whitespace scope)"
  by (induction rs) (auto simp: list_ex_iff)

lemma check_required_scopes_Inr [result_simps]:
  "check_required_scopes policy claims = Inr () \<longleftrightarrow> set (required_scopes policy) \<subseteq> scope_values claims"
proof -
  have "split_ascii_whitespace [] = []"
    by (simp add: split_ascii_whitespace_def)
  then show ?thesis
    by (auto simp: check_required_scopes_def check_scopes_Inr scope_values_def get_str_def
        split: option.splits json.splits)
qed

lemma check_username_Inr [result_simps]:
  "check_username policy uid = Inr () \<longleftrightarrow>
     (\<forall>v \<in> set (disallowed_usernames policy). \<not> eq_ignore_ascii_case v uid)"
  by (auto simp: check_username_def list_ex_iff)

lemma extract_uid_Inr [result_simps]:
  "extract_uid policy claims = Inr uid \<longleftrightarrow>
     json_get (uid_attr policy) claims = Some (String uid) \<and> uid_ok uid"
  by (auto simp: extract_uid_def uid_ok_def get_str_Some [symmetric] trim_fixed_iff list_ex_iff
      split: option.splits if_splits)

lemma numeric_date_None [simp]: "numeric_date None = Inr None"
  by (simp add: numeric_date_def)

text \<open>The clock is exact: for every time an \<open>i64\<close> can hold, the saturating comparisons of the code
  are the comparisons of integers.\<close>

lemma check_validity_dates_Inr [result_simps]:
  assumes "u64_val secs \<le> i64_max"
  shows "check_validity_dates (Some secs) policy claims = Inr () \<longleftrightarrow>
     dates_ok (u64_val secs) (max (i64_val (grace policy)) 0) claims"
proof -
  let ?now = "u64_val secs" and ?g = "max (i64_val (grace policy)) 0"
  have now: "i64_val secs = ?now"
    by (rule u64_nonneg_signed [OF assms])
  have g: "i64_val (i64_max_of (grace policy) 0) = ?g" by simp
  have g_max: "0 \<le> ?g" "?g \<le> i64_max"
    using i64_range [of "grace policy"] by (auto simp: i64_max_def)
  have nonneg: "0 \<le> ?now" by simp
  have lower: "i64_val v < i64_clamp (?now - ?g) \<longleftrightarrow> i64_val v < ?now - ?g" for v
    using assms g_max by (intro less_clamp_iff) simp
  have upper: "i64_clamp (?now + ?g) < i64_val v \<longleftrightarrow> ?now + ?g < i64_val v" for v
    using nonneg g_max by (intro clamp_less_iff) (unfold i64_min_def, linarith)
  show ?thesis
    by (auto simp: check_validity_dates_def dates_ok_def not_after_def in_future_def u64_as_i64_def Let_def
        i64_less_def now lower upper and_then_eq_Inr not_less
        simp del: max.absorb1 max.absorb2 split: sum.splits option.splits if_splits)
qed

lemma check_claims_Inr:
  assumes "u64_val secs \<le> i64_max"
  shows "check_claims (Some secs) policy claims = Inr uid \<longleftrightarrow>
     claims_accepted (u64_val secs) policy claims uid"
  unfolding check_claims_def claims_accepted_def
  by (auto simp: result_simps check_validity_dates_Inr [OF assms])

section \<open>Properties\<close>

text \<open>Concrete inputs for the witnesses of this and later theories.\<close>

definition json_int :: "i64 \<Rightarrow> json" where
  "json_int n = Number \<lparr>num_as_i64 = Some n, num_as_u64 = Some n, num_as_f64 = None\<rparr>"

definition sample_policy :: jwt_policy where
  "sample_policy = \<lparr>uid_attr = ''uid'', grace = 3, trusted_issuer = ''issuer'',
     trusted_audiences = [''ldap''], trusted_authorized_parties = [], required_scopes = [''openid''],
     disallowed_usernames = [''root''], allowed_algorithms = None, disallowed_algorithms = []\<rparr>"

definition sample_claims :: "bytes \<Rightarrow> json" where
  "sample_claims uid = Object [(''iss'', String ''issuer''), (''aud'', Array [String ''x'', String ''ldap'']),
     (''exp'', json_int 1000), (''scope'', String ''openid email''), (''uid'', String uid)]"

lemma sample_claims_accepted: "check_claims (Some 1002) sample_policy (sample_claims ''alice'') = Inr ''alice''"
  by code_simp

lemma sample_claims_denied:
  "check_claims (Some 1002) sample_policy (sample_claims ''Root'') = Inl (DisallowedUsername ''Root'')"
  by code_simp

text \<open>C6: The claim checks implement the policy: on every clock an \<open>i64\<close> can hold, they return a
  username exactly when issuer, audience, authorized party, dates (with the exact clock and a
  non-negative tolerance), scopes, username claim and deny-list all hold.\<close>

theorem check_claims_refines_policy:
  assumes "u64_val secs \<le> i64_max"
  shows "check_claims (Some secs) policy claims = Inr uid \<longleftrightarrow>
     claims_accepted (u64_val secs) policy claims uid"
  by (rule check_claims_Inr [OF assms])

theorem check_claims_refines_policy_witness:
  "claims_accepted 1002 sample_policy (sample_claims ''alice'') ''alice''"
proof -
  have "u64_val (1002 :: u64) \<le> i64_max" "u64_val (1002 :: u64) = 1002" by (simp_all add: i64_max_def)
  with check_claims_refines_policy [of 1002 sample_policy "sample_claims ''alice''" "''alice''"]
    sample_claims_accepted show ?thesis by simp
qed

definition number_value :: "json \<Rightarrow> rat option" where
  "number_value v =
     (case as_i64 v of
        Some i \<Rightarrow> Some (of_int (i64_val i))
      | None \<Rightarrow>
          (case as_u64 v of
             Some u \<Rightarrow> Some (of_int (u64_val u))
           | None \<Rightarrow> (case as_f64 v of Some (Finite q) \<Rightarrow> Some q | _ \<Rightarrow> None)))"



text \<open>Every check reports its own error only.\<close>

lemma check_errors:
  "check_issuer policy claims = Inl e \<Longrightarrow> \<exists>f. e = InvalidIssuer f"
  "check_audience policy claims = Inl e \<Longrightarrow> e = InvalidAudience"
  "check_authorized_party policy claims = Inl e \<Longrightarrow> \<exists>f. e = InvalidAuthorizedParty f"
  "check_validity_dates clock policy claims = Inl e \<Longrightarrow>
     e \<in> {ConfigError TimeBeforeEpoch, MissingExpiration, ClaimExpired}"
  "check_required_scopes policy claims = Inl e \<Longrightarrow> \<exists>s \<in> set (required_scopes policy). e = MissingScope s"
proof -
  have dates: "numeric_date d = Inl e \<Longrightarrow> e = ClaimExpired" for d e
    by (auto simp: numeric_date_def result_simps split: option.splits f64.splits if_splits)
  have scopes: "check_scopes sc rs = Inl e \<Longrightarrow> \<exists>s \<in> set rs. e = MissingScope s" for sc rs
    by (induction rs) (auto split: if_splits)
  show "check_issuer policy claims = Inl e \<Longrightarrow> \<exists>f. e = InvalidIssuer f"
    by (auto simp: check_issuer_def Let_def split: if_splits)
  show "check_audience policy claims = Inl e \<Longrightarrow> e = InvalidAudience"
    by (auto simp: check_audience_def Let_def split: if_splits)
  show "check_authorized_party policy claims = Inl e \<Longrightarrow> \<exists>f. e = InvalidAuthorizedParty f"
    by (auto simp: check_authorized_party_def split: if_splits option.splits)
  show "check_validity_dates clock policy claims = Inl e \<Longrightarrow>
     e \<in> {ConfigError TimeBeforeEpoch, MissingExpiration, ClaimExpired}"
    by (cases clock; cases "numeric_date (json_get ''exp'' claims)")
       (auto simp: check_validity_dates_def Let_def and_then_eq_Inl dest: dates
         split: option.splits if_splits)
  show "check_required_scopes policy claims = Inl e \<Longrightarrow> \<exists>s \<in> set (required_scopes policy). e = MissingScope s"
    by (auto simp: check_required_scopes_def Let_def dest: scopes)
qed

lemma uid_errors:
  "extract_uid policy claims = Inl e \<Longrightarrow> e = MissingUidClaim (uid_attr policy) \<or> e = InvalidUidClaim (uid_attr policy)"
  "check_username policy uid = Inl e \<Longrightarrow> e = DisallowedUsername uid"
  by (auto simp: extract_uid_def check_username_def split: option.splits if_splits)

fun is_username_error :: "oauth_error \<Rightarrow> bool" where
  "is_username_error (MissingUidClaim _) = True"
| "is_username_error (InvalidUidClaim _) = True"
| "is_username_error (DisallowedUsername _) = True"
| "is_username_error _ = False"

text \<open>Errors about the username are reported last: a token that gets one has the trusted
  issuer, audience, authorized party, dates and scopes, so a token that fails any of those
  learns nothing about which usernames are denied.\<close>

theorem username_errors_last:
  assumes "u64_val secs \<le> i64_max" and "check_claims (Some secs) policy claims = Inl e"
    and "is_username_error e"
  shows "json_get ''iss'' claims = Some (String (trusted_issuer policy)) \<and>
     set (trusted_audiences policy) \<inter> aud_values claims \<noteq> {} \<and>
     (trusted_authorized_parties policy = [] \<or>
        (\<exists>azp \<in> set (trusted_authorized_parties policy). json_get ''azp'' claims = Some (String azp))) \<and>
     dates_ok (u64_val secs) (max (i64_val (grace policy)) 0) claims \<and>
     set (required_scopes policy) \<subseteq> scope_values claims"
proof -
  have "check_issuer policy claims = Inr ()" "check_audience policy claims = Inr ()"
    "check_authorized_party policy claims = Inr ()"
    "check_validity_dates (Some secs) policy claims = Inr ()"
    "check_required_scopes policy claims = Inr ()"
    using assms(2,3) unfolding check_claims_def
    by (auto simp: and_then_eq_Inl dest: check_errors)
  then show ?thesis
    by (simp add: check_issuer_Inr check_audience_Inr check_authorized_party_Inr
        check_validity_dates_Inr [OF assms(1)] check_required_scopes_Inr)
qed

theorem username_errors_last_witness:
  "dates_ok 1002 3 (sample_claims ''Root'')"
proof -
  have "u64_val (1002 :: u64) \<le> i64_max" by (simp add: i64_max_def)
  from username_errors_last [OF this sample_claims_denied] show ?thesis
    by (simp add: sample_policy_def)
qed

lemma uid_ok_bytes:
  assumes "uid_ok uid" and "b \<in> set uid"
  shows "32 \<le> ord b \<and> ord b \<noteq> 127"
proof (rule ccontr)
  assume *: "\<not> (32 \<le> ord b \<and> ord b \<noteq> 127)"
  then have "ord b < 0x80" by auto
  with str_chars_ascii [OF assms(2)] assms(1) have "\<not> is_control [b]"
    by (auto simp: uid_ok_def)
  moreover have "code_point [b] = int (ord b)"
    by (simp add: code_point_def of_nat_of_char)
  ultimately show False
    using * by (auto simp: is_control_def)
qed

lemma check_claims_uid_ok: "check_claims clock policy claims = Inr uid \<Longrightarrow> uid_ok uid"
  by (auto simp: check_claims_def and_then_eq_Inr extract_uid_Inr)

text \<open>C34: The username of an accepted token is safe to hand on: it is not empty, has no NUL and no
  other ASCII control byte, and neither starts nor ends with a space, so the trimming a SASL
  consumer applies afterwards does not change it.\<close>

theorem accepted_username_safe:
  assumes "check_claims clock policy claims = Inr uid"
  shows "uid \<noteq> [] \<and> trim uid = uid \<and> (\<forall>b \<in> set uid. 32 \<le> ord b \<and> ord b \<noteq> 127)"
proof -
  from assms have "uid_ok uid" by (rule check_claims_uid_ok)
  then show ?thesis
    using uid_ok_bytes by (auto simp: uid_ok_def trim_fixed_iff)
qed

theorem accepted_username_safe_witness: "trim ''alice'' = ''alice''"
  using accepted_username_safe [OF sample_claims_accepted] by simp

text \<open>The deny-list cannot be bypassed by case or by padding: no username that equals a
  denied name up to ASCII case, before or after trimming, is ever returned.\<close>

theorem denied_username_never_returned:
  assumes "check_claims clock policy claims = Inr uid" and "v \<in> set (disallowed_usernames policy)"
  shows "\<not> eq_ignore_ascii_case v uid \<and> \<not> eq_ignore_ascii_case v (trim uid)"
proof -
  from assms have "uid_ok uid" "\<not> eq_ignore_ascii_case v uid"
    by (auto simp: check_claims_def and_then_eq_Inr extract_uid_Inr check_username_Inr)
  then show ?thesis
    by (simp add: uid_ok_def trim_fixed_iff [THEN iffD2])
qed

theorem denied_username_never_returned_witness: "\<not> eq_ignore_ascii_case ''root'' (trim ''alice'')"
  using denied_username_never_returned [OF sample_claims_accepted, of "''root''"]
  by (simp add: sample_policy_def)

text \<open>The clock tolerance is monotone: what is accepted with one grace period is accepted, as
  the same user, with every longer one; a negative grace period counts as zero.\<close>

theorem grace_monotone:
  assumes "u64_val secs \<le> i64_max" and "check_claims (Some secs) policy claims = Inr uid"
    and "max (i64_val (grace policy)) 0 \<le> max (i64_val g) 0"
  shows "check_claims (Some secs) (policy\<lparr>grace := g\<rparr>) claims = Inr uid"
proof -
  have mono: "dates_ok now a c \<Longrightarrow> a \<le> b \<Longrightarrow> dates_ok now b c" for now a b c
    by (fastforce simp: dates_ok_def not_after_def split: sum.splits option.splits)
  from assms(2) have "claims_accepted (u64_val secs) policy claims uid"
    by (simp add: check_claims_Inr [OF assms(1)])
  with mono assms(3) show ?thesis
    by (auto simp: check_claims_Inr [OF assms(1)] claims_accepted_def)
qed

theorem grace_monotone_witness:
  "check_claims (Some 1002) (sample_policy\<lparr>grace := 60\<rparr>) (sample_claims ''alice'') = Inr ''alice''"
  by (rule grace_monotone [OF _ sample_claims_accepted]) (simp_all add: i64_max_def sample_policy_def)

end
