(* ===== verification/Rust_Collections.thy ===== *)
theory Rust_Collections
  imports Prelude "HOL-Library.AList"
begin

text \<open>
  The \<open>HashMap\<close> interface: what the verifier's key table and the PAM process cache rely on
  of \<open>new\<close>, \<open>insert\<close>, \<open>get\<close> and \<open>is_empty\<close>. The provider is an association list kept by
  \<open>AList.update\<close>; no code iterates over a map, so the order of the list is never observed.
\<close>

type_synonym ('k, 'v) hash_map = "('k \<times> 'v) list"

definition hm_new :: "('k, 'v) hash_map" where "hm_new = []"
definition hm_get :: "('k, 'v) hash_map \<Rightarrow> 'k \<Rightarrow> 'v option" where "hm_get m k = map_of m k"
definition hm_insert :: "('k, 'v) hash_map \<Rightarrow> 'k \<Rightarrow> 'v \<Rightarrow> ('k, 'v) hash_map" where
  "hm_insert m k v = AList.update k v m"
definition hm_is_empty :: "('k, 'v) hash_map \<Rightarrow> bool" where "hm_is_empty m \<longleftrightarrow> m = []"

locale hash_map_ops =
  fixes new :: "'m"
    and get :: "'m \<Rightarrow> 'k \<Rightarrow> 'v option"
    and ins :: "'m \<Rightarrow> 'k \<Rightarrow> 'v \<Rightarrow> 'm"
    and is_empty :: "'m \<Rightarrow> bool"
  assumes get_new: "get new k = None"
    and get_ins: "get (ins m k v) k' = (if k' = k then Some v else get m k')"
    and is_empty_iff: "is_empty m \<longleftrightarrow> (\<forall>k. get m k = None)"
begin

text \<open>Inserting a list of bindings with distinct keys, none of them bound yet.\<close>

lemma get_fold_ins:
  "distinct (map fst kvs) \<Longrightarrow> (\<forall>k \<in> set (map fst kvs). get m k = None) \<Longrightarrow>
   get (fold (\<lambda>(k, v) m. ins m k v) kvs m) k =
     (case map_of kvs k of Some v \<Rightarrow> Some v | None \<Rightarrow> get m k)"
proof (induction kvs arbitrary: m)
  case (Cons kv kvs)
  obtain a b where kv: "kv = (a, b)" by force
  with Cons.prems have "distinct (map fst kvs)" "\<forall>k' \<in> set (map fst kvs). get (ins m a b) k' = None"
    by (auto simp: get_ins image_iff)
  note IH = Cons.IH [OF this]
  from Cons.prems kv have "map_of kvs a = None"
    by (simp add: map_of_eq_None_iff)
  with kv IH show ?case by (auto simp: get_ins split: option.splits)
qed simp

lemma not_empty_ins: "\<not> is_empty (ins m k v)"
  by (auto simp: is_empty_iff get_ins intro!: exI [of _ k])

end

interpretation hm: hash_map_ops hm_new hm_get hm_insert hm_is_empty
proof unfold_locales
  show "hm_get hm_new k = None" for k :: 'k
    by (simp add: hm_get_def hm_new_def)
  show "hm_get (hm_insert m k v) k' = (if k' = k then Some v else hm_get m k')"
    for m :: "('k, 'v) hash_map" and k k' v
    by (simp add: hm_get_def hm_insert_def update_conv')
  show "hm_is_empty m \<longleftrightarrow> (\<forall>k. hm_get m k = None)" for m :: "('k, 'v) hash_map"
    by (cases m) (auto simp: hm_is_empty_def hm_get_def)
qed

declare hm.get_new [simp] hm.get_ins [simp]

lemmas hm_eval [rust_defs] = hm_new_def hm_get_def hm_insert_def hm_is_empty_def

end
