(* ===== verification/Jwt_Verifier.thy ===== *)
theory Jwt_Verifier
  imports Jwt_Claims Rust_Collections
begin

text \<open>
  \<open>JwtVerifier\<close> of \<open>core/src/jwt.rs\<close>: \<open>from_jwks_json\<close> selects the signature keys of a JWKS
  document, \<open>verify\<close> selects the key of a token, has the signature checked and applies the claim
  checks. JSON parsing, JWK decoding and signature verification are calls into \<open>serde_json\<close> and
  \<open>jsonwebtoken\<close>: they are the fields of \<open>jwt_lib\<close>, an argument of every definition here.
\<close>

section \<open>The libraries\<close>

record jwt_header =
  hdr_alg :: algorithm
  hdr_kid :: "bytes option"

text \<open>The fields of \<open>jsonwebtoken::Validation\<close> that \<open>verify\<close> depends on.\<close>

record validation =
  val_algorithms :: "algorithm list"
  required_spec_claims :: "bytes list"
  validate_exp :: bool
  validate_nbf :: bool

text \<open>The classes of \<open>jsonwebtoken::errors::ErrorKind\<close> that \<open>verify\<close> tells apart.\<close>

datatype error_kind =
  KindInvalidSignature | KindInvalidAlgorithm | KindJson | KindBase64 | KindInvalidToken | KindOther

record ('j, 'k) jwt_lib =
  lib_from_str :: "bytes \<Rightarrow> bytes + json"
  lib_jwk_from_value :: "json \<Rightarrow> 'j option"
  lib_decoding_key_from_jwk :: "'j \<Rightarrow> 'k option"
  lib_decode_header :: "bytes \<Rightarrow> jwt_header option"
  lib_validation_new :: "algorithm \<Rightarrow> validation"
  lib_decode :: "bytes \<Rightarrow> 'k \<Rightarrow> validation \<Rightarrow> error_kind + json"

section \<open>Loading the keys\<close>

record 'k jwt_verifier =
  v_policy :: jwt_policy
  v_keys :: "(bytes, 'k signing_key) hash_map"

definition jwk_meta_of :: "(bytes \<times> json) list \<Rightarrow> jwk_meta" where
  "jwk_meta_of obj =
     \<lparr>meta_alg = get_str ''alg'' (Object obj),
      meta_use = get_str ''use'' (Object obj),
      meta_key_ops =
        (case Option.bind (json_get ''key_ops'' (Object obj)) as_array of
           Some vs \<Rightarrow> List.map_filter as_str vs | None \<Rightarrow> []),
      meta_kty = (case get_str ''kty'' (Object obj) of Some s \<Rightarrow> s | None \<Rightarrow> []),
      meta_crv = get_str ''crv'' (Object obj)\<rparr>"

text \<open>The three \<open>continue\<close>s on the metadata: not for signatures, not for verifying, not a JWS
  algorithm.\<close>

definition meta_usable :: "jwk_meta \<Rightarrow> bool" where
  "meta_usable meta \<longleftrightarrow>
     \<not> (case meta_use meta of Some v \<Rightarrow> v \<noteq> ''sig'' | None \<Rightarrow> False) \<and>
     \<not> (meta_key_ops meta \<noteq> [] \<and> \<not> list_ex (\<lambda>v. v = ''verify'') (meta_key_ops meta)) \<and>
     \<not> (case meta_alg meta of Some v \<Rightarrow> parse_algorithm_name v = None | None \<Rightarrow> False)"

definition key_for_jsonwebtoken :: "(bytes \<times> json) list \<Rightarrow> json" where
  "key_for_jsonwebtoken obj =
     Object (obj_remove ''key_ops'' (obj_remove ''use'' (obj_remove ''alg'' obj)))"

text \<open>One entry with a fresh \<open>kid\<close>: its signing key, or \<open>None\<close> where the loop continues.\<close>

definition load_key :: "('j, 'k) jwt_lib \<Rightarrow> (bytes \<times> json) list \<Rightarrow> 'k signing_key option" where
  "load_key lib obj =
     (let meta = jwk_meta_of obj in
      if \<not> meta_usable meta then None
      else case lib_jwk_from_value lib (key_for_jsonwebtoken obj) of
        None \<Rightarrow> None
      | Some jwk \<Rightarrow>
          (case lib_decoding_key_from_jwk lib jwk of
             None \<Rightarrow> None
           | Some key \<Rightarrow> Some \<lparr>sk_key = key, sk_meta = meta\<rparr>))"

fun load_keys :: "('j, 'k) jwt_lib \<Rightarrow> json list \<Rightarrow> bytes set \<Rightarrow> (bytes, 'k signing_key) hash_map \<Rightarrow>
    oauth_error + (bytes, 'k signing_key) hash_map" where
  "load_keys lib [] seen_kids keys = Inr keys"
| "load_keys lib (raw_key # raw_keys) seen_kids keys =
     (case as_object raw_key of
        None \<Rightarrow> Inl (ConfigError KeyNotObject)
      | Some obj \<Rightarrow>
          (case get_str ''kid'' (Object obj) of
             None \<Rightarrow> load_keys lib raw_keys seen_kids keys
           | Some kid \<Rightarrow>
               if kid \<in> seen_kids then Inl (ConfigError (DuplicateKid kid))
               else case load_key lib obj of
                 None \<Rightarrow> load_keys lib raw_keys (insert kid seen_kids) keys
               | Some sk \<Rightarrow> load_keys lib raw_keys (insert kid seen_kids) (hm_insert keys kid sk)))"

definition from_jwks_json :: "('j, 'k) jwt_lib \<Rightarrow> jwt_policy \<Rightarrow> bytes \<Rightarrow> oauth_error + 'k jwt_verifier" where
  "from_jwks_json lib policy jwks_json =
     (if trusted_audiences policy = [] then Inl (ConfigError NoTrustedAudiences)
      else if trusted_issuer policy = [] then Inl (ConfigError NoTrustedIssuer)
      else if allowed_algorithms policy = Some [] then Inl (ConfigError EmptyAllowedAlgorithms)
      else
        and_then (map_err (\<lambda>e. ConfigError (InvalidJwksJson e)) (lib_from_str lib jwks_json)) (\<lambda>raw.
        and_then (ok_or (ConfigError NoKeysArray) (Option.bind (json_get ''keys'' raw) as_array)) (\<lambda>raw_keys.
        if raw_keys = [] then Inl (ConfigError NoKeys)
        else and_then (load_keys lib raw_keys {} hm_new) (\<lambda>keys.
          if hm_is_empty keys then Inl (ConfigError NoUsableKeys)
          else Inr \<lparr>v_policy = policy, v_keys = keys\<rparr>))))"

section \<open>Verifying a token\<close>

definition MIN_JWT_LEN :: nat where "MIN_JWT_LEN = 16"

definition token_validation :: "('j, 'k) jwt_lib \<Rightarrow> algorithm \<Rightarrow> validation" where
  "token_validation lib alg =
     (lib_validation_new lib alg)\<lparr>required_spec_claims := [], validate_exp := False, validate_nbf := False\<rparr>"

fun decode_error :: "error_kind \<Rightarrow> oauth_error" where
  "decode_error KindInvalidSignature = InvalidSignature"
| "decode_error KindInvalidAlgorithm = InvalidSignature"
| "decode_error KindJson = ParseError"
| "decode_error KindBase64 = ParseError"
| "decode_error KindInvalidToken = ParseError"
| "decode_error KindOther = InvalidSignature"

definition verify :: "('j, 'k) jwt_lib \<Rightarrow> u64 option \<Rightarrow> 'k jwt_verifier \<Rightarrow> bytes \<Rightarrow> oauth_error + bytes" where
  "verify lib clock v tok =
     (if length tok < MIN_JWT_LEN \<or> length (filter (\<lambda>b. b = CHR ''.'') tok) \<noteq> 2 then Inl ParseError
      else
        and_then (ok_or ParseError (lib_decode_header lib tok)) (\<lambda>header.
        if \<not> algorithm_allowed (v_policy v) (hdr_alg header) then Inl InvalidSignature
        else
          and_then (ok_or (UnknownSigningKey None) (hdr_kid header)) (\<lambda>kid.
          and_then (ok_or (UnknownSigningKey (Some kid)) (hm_get (v_keys v) kid)) (\<lambda>signing_key.
          and_then (check_jwk_metadata (sk_meta signing_key) (hdr_alg header)) (\<lambda>_.
          and_then (map_err decode_error
              (lib_decode lib tok (sk_key signing_key) (token_validation lib (hdr_alg header)))) (\<lambda>claims.
          check_claims clock (v_policy v) claims))))))"

lemmas jwt_verifier_eval [rust_defs] =
  jwk_meta_of_def meta_usable_def key_for_jsonwebtoken_def load_key_def from_jwks_json_def
  MIN_JWT_LEN_def token_validation_def verify_def

section \<open>What loading selects\<close>

text \<open>The \<open>kid\<close>s of a JWKS and its usable keys, in document order.\<close>

definition raw_kid :: "json \<Rightarrow> bytes option" where
  "raw_kid raw = get_str ''kid'' raw"

definition usable_key :: "('j, 'k) jwt_lib \<Rightarrow> json \<Rightarrow> (bytes \<times> 'k signing_key) option" where
  "usable_key lib raw =
     (case (raw, raw_kid raw) of
        (Object obj, Some kid) \<Rightarrow> map_option (Pair kid) (load_key lib obj) | _ \<Rightarrow> None)"

definition is_usable :: "('j, 'k) jwt_lib \<Rightarrow> json \<Rightarrow> bool" where
  "is_usable lib raw \<longleftrightarrow> usable_key lib raw \<noteq> None"

definition jwks_kids :: "json list \<Rightarrow> bytes list" where
  "jwks_kids raws = List.map_filter raw_kid raws"

definition usable_keys :: "('j, 'k) jwt_lib \<Rightarrow> json list \<Rightarrow> (bytes \<times> 'k signing_key) list" where
  "usable_keys lib raws = List.map_filter (usable_key lib) raws"

abbreviation insert_all ::
  "(bytes \<times> 'k signing_key) list \<Rightarrow> (bytes, 'k signing_key) hash_map \<Rightarrow> (bytes, 'k signing_key) hash_map" where
  "insert_all kvs m \<equiv> fold (\<lambda>(k, v) m. hm_insert m k v) kvs m"

lemma jwks_lists [simp]:
  "jwks_kids [] = []" "usable_keys lib [] = []"
  "jwks_kids (r # rs) = (case raw_kid r of None \<Rightarrow> jwks_kids rs | Some k \<Rightarrow> k # jwks_kids rs)"
  "usable_keys lib (r # rs) = (case usable_key lib r of None \<Rightarrow> usable_keys lib rs | Some k \<Rightarrow> k # usable_keys lib rs)"
  by (simp_all add: jwks_kids_def usable_keys_def map_filter_simps split: option.splits)

lemma usable_key_kid: "usable_key lib r = Some (k, sk) \<Longrightarrow> raw_kid r = Some k"
  by (auto simp: usable_key_def split: json.splits option.splits)

lemma usable_keys_kids: "set (map fst (usable_keys lib rs)) \<subseteq> set (jwks_kids rs)"
  by (induction rs) (auto dest: usable_key_kid split: option.splits)

lemma usable_keys_distinct: "distinct (jwks_kids rs) \<Longrightarrow> distinct (map fst (usable_keys lib rs))"
proof (induction rs)
  case (Cons r rs)
  then show ?case
    using usable_keys_kids [of lib rs] usable_key_kid [of lib r]
    by (fastforce split: option.splits)
qed simp

lemma load_keys_Inr:
  "load_keys lib raws seen keys = Inr keys' \<longleftrightarrow>
     (\<forall>r \<in> set raws. \<exists>obj. r = Object obj) \<and> distinct (jwks_kids raws) \<and>
     set (jwks_kids raws) \<inter> seen = {} \<and> keys' = insert_all (usable_keys lib raws) keys"
proof (induction lib raws seen keys rule: load_keys.induct)
  case (2 lib raw raws seen keys)
  show ?case
  proof (cases "as_object raw")
    case None
    then show ?thesis by (cases raw) auto
  next
    case (Some obj)
    then have raw: "raw = Object obj" by simp
    show ?thesis
    proof (cases "raw_kid raw")
      case None
      with 2(1) [OF Some] raw show ?thesis
        by (simp add: raw_kid_def usable_key_def)
    next
      case kid: (Some kid)
      with 2(2,3) [OF Some] raw show ?thesis
        by (cases "load_key lib obj") (auto simp: raw_kid_def usable_key_def)
    qed
  qed
qed auto

lemma hm_get_usable:
  assumes "distinct (jwks_kids raws)"
  shows "hm_get (insert_all (usable_keys lib raws) hm_new) kid = map_of (usable_keys lib raws) kid"
  using hm.get_fold_ins [OF usable_keys_distinct [OF assms, of lib], where m = hm_new and k = kid]
  by (simp split: option.splits)

definition policy_configured :: "jwt_policy \<Rightarrow> bool" where
  "policy_configured policy \<longleftrightarrow> trusted_audiences policy \<noteq> [] \<and> trusted_issuer policy \<noteq> [] \<and>
     allowed_algorithms policy \<noteq> Some []"

lemma insert_all_empty [simp]: "hm_is_empty (insert_all kvs hm_new) \<longleftrightarrow> kvs = []"
proof (cases kvs rule: rev_cases)
  case (snoc ys kv)
  then show ?thesis by (cases kv) (simp add: hm.not_empty_ins)
qed (simp add: hm_is_empty_def hm_new_def)

lemma hm_is_empty_new [simp]: "hm_is_empty hm_new"
  by (simp add: hm_is_empty_def hm_new_def)

lemma from_jwks_json_Inr:
  "from_jwks_json lib policy jwks_json = Inr v \<longleftrightarrow>
     policy_configured policy \<and>
     (\<exists>doc raws. lib_from_str lib jwks_json = Inr doc \<and> json_get ''keys'' doc = Some (Array raws) \<and>
        (\<forall>r \<in> set raws. \<exists>obj. r = Object obj) \<and> distinct (jwks_kids raws) \<and>
        usable_keys lib raws \<noteq> [] \<and>
        v = \<lparr>v_policy = policy, v_keys = insert_all (usable_keys lib raws) hm_new\<rparr>)"
proof -
  have ne: "usable_keys lib raws \<noteq> [] \<Longrightarrow> raws \<noteq> []" for raws
    by auto
  show ?thesis
    using ne by (auto simp: from_jwks_json_def policy_configured_def result_simps bind_eq_Some_conv
        load_keys_Inr split: if_splits)
qed

section \<open>What a verified token is\<close>

text \<open>
  The contract of \<open>verify\<close>: the token has the shape of a JWS, its header names an allowed
  algorithm and a loaded key whose metadata fit that algorithm, the library verified its
  signature with that key and that algorithm, and the claims satisfy the policy.
\<close>

definition signed_claims ::
  "('j, 'k) jwt_lib \<Rightarrow> 'k jwt_verifier \<Rightarrow> bytes \<Rightarrow> jwt_header \<Rightarrow> bytes \<Rightarrow> 'k signing_key \<Rightarrow> json \<Rightarrow> bool" where
  "signed_claims lib v tok header kid sk claims \<longleftrightarrow>
     16 \<le> length tok \<and> count_list tok (CHR ''.'') = 2 \<and>
     lib_decode_header lib tok = Some header \<and> hdr_kid header = Some kid \<and>
     algorithm_allowed (v_policy v) (hdr_alg header) \<and>
     hm_get (v_keys v) kid = Some sk \<and> check_jwk_metadata (sk_meta sk) (hdr_alg header) = Inr () \<and>
     lib_decode lib tok (sk_key sk) (token_validation lib (hdr_alg header)) = Inr claims"

definition token_accepted :: "('j, 'k) jwt_lib \<Rightarrow> int \<Rightarrow> 'k jwt_verifier \<Rightarrow> bytes \<Rightarrow> bytes \<Rightarrow> bool" where
  "token_accepted lib now v tok uid \<longleftrightarrow>
     (\<exists>header kid sk claims. signed_claims lib v tok header kid sk claims \<and>
        claims_accepted now (v_policy v) claims uid)"

lemma count_dots: "length (filter (\<lambda>b. b = c) xs) = count_list xs c"
  by (induction xs) auto

lemma verify_Inr:
  "verify lib clock v tok = Inr uid \<longleftrightarrow>
     (\<exists>header kid sk claims. signed_claims lib v tok header kid sk claims \<and>
        check_claims clock (v_policy v) claims = Inr uid)"
  by (auto simp: verify_def signed_claims_def result_simps count_dots MIN_JWT_LEN_def split: if_splits)

text \<open>An error other than the four of the signature part comes from the claim checks.\<close>

lemma verify_claim_error:
  assumes "verify lib clock v tok = Inl e"
    and "e \<noteq> ParseError" "e \<noteq> InvalidSignature" "\<forall>k. e \<noteq> UnknownSigningKey k"
  shows "\<exists>header kid sk claims. signed_claims lib v tok header kid sk claims \<and>
     check_claims clock (v_policy v) claims = Inl e"
proof -
  have "check_jwk_metadata m a = Inl d \<Longrightarrow> d = InvalidSignature" for m a d
    by (auto simp: check_jwk_metadata_def split: if_splits)
  moreover have "decode_error k = ParseError \<or> decode_error k = InvalidSignature" for k
    by (cases k) auto
  ultimately show ?thesis
    using assms
    by (fastforce simp: verify_def signed_claims_def result_simps count_dots MIN_JWT_LEN_def split: if_splits)
qed

text \<open>Concrete inputs for witnesses: a library that knows one document and one token.\<close>

definition sample_key :: "bytes \<Rightarrow> bytes \<Rightarrow> bytes \<Rightarrow> json" where
  "sample_key kid use alg = Object [(''kty'', String ''RSA''), (''kid'', String kid),
     (''use'', String use), (''alg'', String alg), (''n'', String ''AQ''), (''e'', String ''AQAB'')]"

definition sample_token :: bytes where "sample_token = ''aaaaaaa.bbbbbbb.ccccccc''"

definition sample_lib :: "(json, bytes) jwt_lib" where
  "sample_lib =
     \<lparr>lib_from_str = (\<lambda>s.
        if s = ''jwks'' then Inr (Object [(''keys'', Array [sample_key ''enc'' ''enc'' ''RSA-OAEP'', sample_key ''sig'' ''sig'' ''RS256''])])
        else if s = ''sig'' then Inr (Object [(''keys'', Array [sample_key ''sig'' ''sig'' ''RS256''])])
        else if s = ''dup'' then Inr (Object [(''keys'', Array [sample_key ''sig'' ''enc'' ''RSA-OAEP'', sample_key ''sig'' ''sig'' ''RS256''])])
        else Inl ''not JSON''),
      lib_jwk_from_value = Some,
      lib_decoding_key_from_jwk = get_str ''n'',
      lib_decode_header = (\<lambda>t. if t = sample_token then Some \<lparr>hdr_alg = RS256, hdr_kid = Some ''sig''\<rparr> else None),
      lib_validation_new = (\<lambda>alg. \<lparr>val_algorithms = [alg], required_spec_claims = [''exp''],
         validate_exp = True, validate_nbf = False\<rparr>),
      lib_decode = (\<lambda>t k v. if t = sample_token \<and> k = ''AQ'' \<and> val_algorithms v = [RS256]
         then Inr (sample_claims ''alice'') else Inl KindInvalidSignature)\<rparr>"

definition sample_verifier :: "bytes jwt_verifier" where
  "sample_verifier = \<lparr>v_policy = sample_policy,
     v_keys = [(''sig'', \<lparr>sk_key = ''AQ'', sk_meta = \<lparr>meta_alg = Some ''RS256'', meta_use = Some ''sig'',
       meta_key_ops = [], meta_kty = ''RSA'', meta_crv = None\<rparr>\<rparr>)]\<rparr>"

lemma sample_load: "from_jwks_json sample_lib sample_policy ''jwks'' = Inr sample_verifier"
  by code_simp

lemma sample_verify: "verify sample_lib (Some 1002) sample_verifier sample_token = Inr ''alice''"
  by code_simp

section \<open>Properties\<close>

text \<open>C11: Loading a JWKS document is exact: it succeeds when the policy is configured, every entry
  is an object, no two entries share a \<open>kid\<close> and some entry is usable, and then the verifier has
  the given policy and finds under each \<open>kid\<close> the usable entry with that \<open>kid\<close>, or nothing.\<close>

theorem jwks_loading_exact:
  assumes "lib_from_str lib jwks_json = Inr doc" and "json_get ''keys'' doc = Some (Array raws)"
  shows "((\<exists>v. from_jwks_json lib policy jwks_json = Inr v) \<longleftrightarrow>
       policy_configured policy \<and> (\<forall>r \<in> set raws. \<exists>obj. r = Object obj) \<and>
       distinct (jwks_kids raws) \<and> usable_keys lib raws \<noteq> []) \<and>
     (\<forall>v. from_jwks_json lib policy jwks_json = Inr v \<longrightarrow>
       v_policy v = policy \<and> (\<forall>kid. hm_get (v_keys v) kid = map_of (usable_keys lib raws) kid))"
  using assms by (auto simp: from_jwks_json_Inr hm_get_usable)

theorem jwks_loading_exact_witness:
  "hm_get (v_keys sample_verifier) ''enc'' = None"
proof -
  have doc: "lib_from_str sample_lib ''jwks'' = Inr (Object [(''keys'', Array
      [sample_key ''enc'' ''enc'' ''RSA-OAEP'', sample_key ''sig'' ''sig'' ''RS256''])])"
    by (simp add: sample_lib_def)
  have "map_of (usable_keys sample_lib [sample_key ''enc'' ''enc'' ''RSA-OAEP'', sample_key ''sig'' ''sig'' ''RS256'']) ''enc'' = None"
    by code_simp
  with jwks_loading_exact [OF doc, of _ sample_policy] sample_load show ?thesis by simp
qed

lemma usable_keys_filter: "usable_keys lib (filter (is_usable lib) raws) = usable_keys lib raws"
  by (induction raws) (auto simp: is_usable_def split: option.splits)

lemma jwks_kids_filter: "distinct (jwks_kids raws) \<Longrightarrow> distinct (jwks_kids (filter P raws)) \<and>
    set (jwks_kids (filter P raws)) \<subseteq> set (jwks_kids raws)"
  by (induction raws) (auto split: option.splits)

text \<open>Entries that cannot be used are harmless: when a JWKS loads, the JWKS without its
  unusable entries (encryption keys, unknown algorithms, unsupported key types, no \<open>kid\<close>) loads
  to the same verifier.\<close>

theorem unusable_entries_ignored:
  assumes "from_jwks_json lib policy jwks_json = Inr v"
    and "lib_from_str lib jwks_json = Inr doc" and "json_get ''keys'' doc = Some (Array raws)"
    and "lib_from_str lib cleaned = Inr doc'"
    and "json_get ''keys'' doc' = Some (Array (filter (is_usable lib) raws))"
  shows "from_jwks_json lib policy cleaned = Inr v"
  using assms jwks_kids_filter [of raws "is_usable lib"]
  by (auto simp: from_jwks_json_Inr usable_keys_filter)

theorem unusable_entries_ignored_witness:
  "from_jwks_json sample_lib sample_policy ''sig'' = Inr sample_verifier"
proof (rule unusable_entries_ignored [OF sample_load])
  show "lib_from_str sample_lib ''jwks'' = Inr (Object [(''keys'', Array
      [sample_key ''enc'' ''enc'' ''RSA-OAEP'', sample_key ''sig'' ''sig'' ''RS256''])])"
    by (simp add: sample_lib_def)
  show "lib_from_str sample_lib ''sig'' = Inr (Object [(''keys'', Array [sample_key ''sig'' ''sig'' ''RS256''])])"
    by (simp add: sample_lib_def)
  have "filter (is_usable sample_lib) [sample_key ''enc'' ''enc'' ''RSA-OAEP'', sample_key ''sig'' ''sig'' ''RS256'']
      = [sample_key ''sig'' ''sig'' ''RS256'']"
    by code_simp
  then show "json_get ''keys'' (Object [(''keys'', Array [sample_key ''sig'' ''sig'' ''RS256''])]) =
      Some (Array (filter (is_usable sample_lib) [sample_key ''enc'' ''enc'' ''RSA-OAEP'', sample_key ''sig'' ''sig'' ''RS256'']))"
    by simp
qed simp



text \<open>C5: \<open>verify\<close> implements its contract: it returns a username exactly for the tokens whose
  signature the library verified with the selected key and whose claims satisfy the policy.\<close>

theorem verify_refines_contract:
  assumes "u64_val secs \<le> i64_max"
  shows "verify lib (Some secs) v tok = Inr uid \<longleftrightarrow> token_accepted lib (u64_val secs) v tok uid"
  by (simp add: verify_Inr token_accepted_def check_claims_Inr [OF assms])

theorem verify_refines_contract_witness: "token_accepted sample_lib 1002 sample_verifier sample_token ''alice''"
proof -
  have "u64_val (1002 :: u64) \<le> i64_max" by (simp add: i64_max_def)
  from verify_refines_contract [OF this] sample_verify show ?thesis by force
qed



definition stricter :: "jwt_policy \<Rightarrow> jwt_policy \<Rightarrow> bool" where
  "stricter p q \<longleftrightarrow> uid_attr p = uid_attr q \<and> trusted_issuer p = trusted_issuer q \<and>
     max (i64_val (grace p)) 0 \<le> max (i64_val (grace q)) 0 \<and>
     set (trusted_audiences p) \<subseteq> set (trusted_audiences q) \<and>
     trusted_authorized_parties p = trusted_authorized_parties q \<and>
     set (required_scopes q) \<subseteq> set (required_scopes p) \<and>
     set (disallowed_usernames q) \<subseteq> set (disallowed_usernames p) \<and>
     allowed_algorithms p = allowed_algorithms q \<and>
     set (disallowed_algorithms q) \<subseteq> set (disallowed_algorithms p)"

lemma claims_accepted_stricter: "claims_accepted now p c uid \<Longrightarrow> stricter p q \<Longrightarrow> claims_accepted now q c uid"
proof -
  have mono: "dates_ok now a c \<Longrightarrow> a \<le> b \<Longrightarrow> dates_ok now b c" for a b
    by (fastforce simp: dates_ok_def not_after_def split: sum.splits option.splits)
  assume "claims_accepted now p c uid" and "stricter p q"
  then show ?thesis
    using mono by (auto simp: claims_accepted_def stricter_def)
qed

text \<open>A stricter policy accepts fewer tokens: more required scopes, more denied usernames or
  algorithms, fewer audiences, or a shorter grace period never admit a token that the looser
  policy refuses.\<close>

theorem stricter_policy_accepts_less:
  assumes "u64_val secs \<le> i64_max" and "stricter p (v_policy v)"
    and "verify lib (Some secs) (v\<lparr>v_policy := p\<rparr>) tok = Inr uid"
  shows "verify lib (Some secs) v tok = Inr uid"
proof -
  from assms(2) have "algorithm_allowed p a \<Longrightarrow> algorithm_allowed (v_policy v) a" for a
    by (auto simp: algorithm_allowed_def stricter_def Let_def)
  with assms(2,3) show ?thesis
    by (auto simp: verify_Inr check_claims_Inr [OF assms(1)] signed_claims_def intro: claims_accepted_stricter)
qed

theorem stricter_policy_accepts_less_witness:
  "verify sample_lib (Some 1002) (sample_verifier\<lparr>v_policy := sample_policy\<lparr>disallowed_usernames := []\<rparr>\<rparr>) sample_token = Inr ''alice''"
  by (rule stricter_policy_accepts_less [where p = sample_policy])
     (use sample_verify in \<open>simp_all add: i64_max_def stricter_def sample_policy_def sample_verifier_def\<close>)

text \<open>Claims are judged only after the signature: every error that says something about a
  token's claims is about claims that the library verified with a loaded, permitted key.\<close>

theorem claim_errors_need_valid_signature:
  assumes "verify lib clock v tok = Inl e"
    and "e \<notin> {ParseError, InvalidSignature} \<union> range UnknownSigningKey"
  shows "\<exists>header kid sk claims. signed_claims lib v tok header kid sk claims \<and>
     check_claims clock (v_policy v) claims = Inl e"
  using assms by (intro verify_claim_error) auto

theorem claim_errors_need_valid_signature_witness:
  "\<exists>header kid sk claims. signed_claims sample_lib sample_verifier sample_token header kid sk claims"
proof -
  have "verify sample_lib (Some 2000) sample_verifier sample_token = Inl ClaimExpired"
    by code_simp
  from claim_errors_need_valid_signature [OF this] show ?thesis by blast
qed

end
