(* ===== verification/Pam_Cache.thy ===== *)
theory Pam_Cache
  imports Pam_Args Jwt_Verifier
begin

text \<open>
  The process-global cache of the PAM module, \<open>pam/src/cache.rs\<close>: parsed configurations keyed by the
  arguments of the PAM stack line and revalidated against the \<open>config=\<close> file; in each of them
  the verifier built from it, revalidated against the key file. An \<open>Arc<Config>\<close> is an index into the
  list of the configurations allocated so far: one that a newer version replaced in the map stays
  alive for the calls that hold it. Here each operation runs alone; theory \<open>Pam_Threads\<close>
  interleaves the operations of several threads, whose mutexes only make parts of them atomic. A
  poisoned mutex is used as if it were not.
\<close>

section \<open>What the operating system answers during one operation\<close>

text \<open>\<open>os_stat\<close> is \<open>fs::metadata\<close>, \<open>os_open\<close> is \<open>File::open\<close>: two calls, between which the file may
  change. \<open>os_now\<close> is \<open>SystemTime::now\<close> in nanoseconds since the epoch.\<close>

record os_view =
  os_stat :: "bytes \<Rightarrow> io_error + metadata"
  os_open :: "bytes \<Rightarrow> io_error + opened"
  os_now :: int

section \<open>Stamps\<close>

record stamp =
  st_dev :: u64
  st_ino :: u64
  st_len :: u64
  st_mtime :: "i64 \<times> i64"
  st_ctime :: "i64 \<times> i64"

definition stamp_of :: "metadata \<Rightarrow> stamp" where
  "stamp_of meta =
     \<lparr>st_dev = md_dev meta, st_ino = md_ino meta, st_len = md_size meta,
      st_mtime = (md_mtime meta, md_mtime_nsec meta), st_ctime = (md_ctime meta, md_ctime_nsec meta)\<rparr>"

definition SETTLE_TIME :: int where "SETTLE_TIME = 2 * 10 ^ 9"

text \<open>\<open>SystemTime + Duration\<close> panics when the seconds leave the \<open>i64\<close> they are kept in.\<close>

definition add_duration :: "int \<Rightarrow> int \<Rightarrow> int flow" where
  "add_duration t d = (if (t + d) div 10 ^ 9 \<le> i64_max then Ret (t + d) else Panic)"

definition settled :: "int \<Rightarrow> metadata \<Rightarrow> stamp option flow" where
  "settled now meta =
     (case u64_try_from_i64 (md_ctime meta) of
        None \<Rightarrow> Ret None
      | Some secs \<Rightarrow>
          bind_flow (add_duration 0 (u64_val secs * 10 ^ 9)) (\<lambda>t.
          case u64_try_from_i64 (md_ctime_nsec meta) of
            None \<Rightarrow> Ret None
          | Some nsecs \<Rightarrow>
              bind_flow (add_duration t (u64_val nsecs)) (\<lambda>changed.
              if now < changed then Ret None
              else Ret (if now - changed \<ge> SETTLE_TIME then Some (stamp_of meta) else None))))"

section \<open>State\<close>

datatype read_failure = IssOrJwksMissing | FailedToReadJwks io_error

datatype cache_error = ReadError read_failure | BuildError oauth_error

record 'k config_obj =
  cfg_args :: pam_args
  cfg_verifier :: "(stamp option \<times> 'k jwt_verifier) option"

record cache_entry =
  en_stamp :: "stamp option"
  en_config :: nat

record 'k cache_state =
  configs :: "'k config_obj list"
  cache_map :: "(bytes list, cache_entry) hash_map"

definition cache_new :: "'k cache_state" where
  "cache_new = \<lparr>configs = [], cache_map = hm_new\<rparr>"

section \<open>Operations\<close>

definition config_stat :: "os_view \<Rightarrow> bytes option \<Rightarrow> args_error + stamp option" where
  "config_stat os path =
     (case path of
        None \<Rightarrow> Inr None
      | Some p \<Rightarrow> map_err FailedToStat (and_then (os_stat os p) (\<lambda>meta. Inr (Some (stamp_of meta)))))"

definition cache_hit :: "'k cache_state \<Rightarrow> bytes list \<Rightarrow> stamp option \<Rightarrow> nat option" where
  "cache_hit st raw_args current =
     (case hm_get (cache_map st) raw_args of
        None \<Rightarrow> None
      | Some entry \<Rightarrow>
          (let fresh = (case current of Some c \<Rightarrow> en_stamp entry = Some c | None \<Rightarrow> True) in
           if fresh then Some (en_config entry) else None))"

definition cache_store ::
  "'k cache_state \<Rightarrow> bytes list \<Rightarrow> pam_args \<Rightarrow> stamp option \<Rightarrow> nat \<times> 'k cache_state" where
  "cache_store st raw_args args stmp =
     (let cid = length (configs st) in
      (cid, st\<lparr>configs := configs st @ [\<lparr>cfg_args = args, cfg_verifier = None\<rparr>],
              cache_map := hm_insert (cache_map st) raw_args \<lparr>en_stamp = stmp, en_config = cid\<rparr>\<rparr>))"

text \<open>The arguments and the stamp to cache; \<open>None\<close> if reading them did not return.\<close>

definition load_config :: "os_view \<Rightarrow> bytes list \<Rightarrow> bytes option \<Rightarrow>
    (args_error + pam_args \<times> stamp option) flow option" where
  "load_config os raw_args path =
     (case path of
        Some p \<Rightarrow>
          map_option (\<lambda>r. try_flow (Ret r) (\<lambda>(args, meta).
              bind_flow (settled (os_now os) meta) (\<lambda>stmp. Ret (Inr (args, stmp)))))
            (read_config_file (os_open os p))
      | None \<Rightarrow> Some (Ret (and_then (parse_inline_args raw_args) (\<lambda>args. Inr (args, None)))))"

text \<open>\<open>config\<close> looks at the file before it takes the mutex; \<open>config_locked\<close> is what it does under the mutex.\<close>

definition config_locked :: "os_view \<Rightarrow> bytes list \<Rightarrow> bytes option \<Rightarrow> stamp option \<Rightarrow> 'k cache_state \<Rightarrow>
    ((args_error + nat) flow \<times> 'k cache_state) option" where
  "config_locked os raw_args path current st =
     (case cache_hit st raw_args current of
        Some cid \<Rightarrow> Some (Ret (Inr cid), st)
      | None \<Rightarrow>
          map_option (\<lambda>r. case r of
              Panic \<Rightarrow> (Panic, st)
            | Ret (Inl e) \<Rightarrow> (Ret (Inl e), st)
            | Ret (Inr (args, stmp)) \<Rightarrow>
                (let (cid, st') = cache_store st raw_args args stmp in (Ret (Inr cid), st')))
            (load_config os raw_args path))"

definition cache_config :: "os_view \<Rightarrow> bytes list \<Rightarrow> 'k cache_state \<Rightarrow>
    ((args_error + nat) flow \<times> 'k cache_state) option" where
  "cache_config os raw_args st =
     (case config_path raw_args of
        Inl e \<Rightarrow> Some (Ret (Inl e), st)
      | Inr path \<Rightarrow>
          (case config_stat os path of
             Inl e \<Rightarrow> Some (Ret (Inl e), st)
           | Inr current \<Rightarrow> config_locked os raw_args path current st))"

definition config_policy :: "pam_args \<Rightarrow> bytes \<Rightarrow> jwt_policy" where
  "config_policy args issuer =
     \<lparr>uid_attr = userid args, grace = args_grace args, trusted_issuer = issuer,
      trusted_audiences = trusted_aud args, trusted_authorized_parties = trusted_azp args,
      required_scopes = required_scope args, disallowed_usernames = args_disallowed_usernames args,
      allowed_algorithms = args_allowed_algorithms args,
      disallowed_algorithms = args_disallowed_algorithms args\<rparr>"

text \<open>Reading the key file and building the verifier, with the stamp to cache.\<close>

definition build_verifier :: "('j, 'k) jwt_lib \<Rightarrow> os_view \<Rightarrow> pam_args \<Rightarrow> bytes \<Rightarrow> bytes \<Rightarrow>
    (cache_error + stamp option \<times> 'k jwt_verifier) flow" where
  "build_verifier lib os args issuer jwks_path =
     (let read_error = (\<lambda>e. ReadError (FailedToReadJwks e)) in
      try_flow (Ret (map_err read_error (os_open os jwks_path))) (\<lambda>file.
      try_flow (Ret (map_err read_error (f_metadata file))) (\<lambda>meta.
      try_flow (Ret (map_err read_error (read_to_string file))) (\<lambda>jwks_json.
      try_flow (Ret (map_err BuildError
          (from_jwks_json lib (config_policy args issuer) jwks_json))) (\<lambda>v.
      bind_flow (settled (os_now os) meta) (\<lambda>stmp. Ret (Inr (stmp, v))))))))"

text \<open>Again the file is looked at first; the rest happens under the mutex of the configuration.\<close>

definition verifier_locked :: "('j, 'k) jwt_lib \<Rightarrow> os_view \<Rightarrow> bytes \<Rightarrow> bytes \<Rightarrow> stamp \<Rightarrow> 'k config_obj \<Rightarrow>
    (cache_error + 'k jwt_verifier) flow \<times> 'k config_obj" where
  "verifier_locked lib os issuer jwks_path current cfg =
     (let rebuild = (case build_verifier lib os (cfg_args cfg) issuer jwks_path of
            Panic \<Rightarrow> (Panic, cfg)
          | Ret (Inl e) \<Rightarrow> (Ret (Inl e), cfg)
          | Ret (Inr (stmp, v)) \<Rightarrow> (Ret (Inr v), cfg\<lparr>cfg_verifier := Some (stmp, v)\<rparr>))
      in case cfg_verifier cfg of
        Some (stmp, v) \<Rightarrow> if stmp = Some current then (Ret (Inr v), cfg) else rebuild
      | None \<Rightarrow> rebuild)"

definition config_verifier :: "('j, 'k) jwt_lib \<Rightarrow> os_view \<Rightarrow> 'k config_obj \<Rightarrow>
    (cache_error + 'k jwt_verifier) flow \<times> 'k config_obj" where
  "config_verifier lib os cfg =
     (case (iss (cfg_args cfg), jwks (cfg_args cfg)) of
        (Some issuer, Some jwks_path) \<Rightarrow>
          (case os_stat os jwks_path of
             Inl e \<Rightarrow> (Ret (Inl (ReadError (FailedToReadJwks e))), cfg)
           | Inr meta \<Rightarrow> verifier_locked lib os issuer jwks_path (stamp_of meta) cfg)
      | _ \<Rightarrow> (Ret (Inl (ReadError IssOrJwksMissing)), cfg))"

text \<open>\<open>Config::verifier\<close> through an \<open>Arc\<close>: the object is updated in place.\<close>

definition cache_verifier :: "('j, 'k) jwt_lib \<Rightarrow> os_view \<Rightarrow> nat \<Rightarrow> 'k cache_state \<Rightarrow>
    (cache_error + 'k jwt_verifier) flow \<times> 'k cache_state" where
  "cache_verifier lib os cid st =
     (let (r, cfg) = config_verifier lib os (configs st ! cid) in (r, st\<lparr>configs := (configs st)[cid := cfg]\<rparr>))"

lemmas pam_cache_eval [rust_defs] =
  stamp_of_def SETTLE_TIME_def add_duration_def settled_def cache_new_def config_stat_def cache_hit_def
  cache_store_def load_config_def cache_config_def config_locked_def config_policy_def build_verifier_def
  config_verifier_def verifier_locked_def cache_verifier_def

section \<open>Stamps\<close>

text \<open>The time of the last change, in nanoseconds, as the metadata state it.\<close>

definition change_time :: "metadata \<Rightarrow> int" where
  "change_time meta = i64_val (md_ctime meta) * 10 ^ 9 + i64_val (md_ctime_nsec meta)"

lemma settled_eq:
  "settled now meta =
     (if i64_val (md_ctime meta) < 0 \<or> i64_val (md_ctime_nsec meta) < 0 then Ret None
      else if i64_max < change_time meta div 10 ^ 9 then Panic
      else if now - change_time meta < SETTLE_TIME then Ret None
      else Ret (Some (stamp_of meta)))"
proof (cases "i64_val (md_ctime meta) < 0 \<or> i64_val (md_ctime_nsec meta) < 0")
  case True
  then show ?thesis
    using i64_range [of "md_ctime meta"]
    by (auto simp: settled_def u64_try_from_i64_def add_duration_def i64_nonneg_unsigned)
next
  case False
  then show ?thesis
    using i64_range [of "md_ctime meta"] SETTLE_TIME_def
    by (auto simp: settled_def u64_try_from_i64_def add_duration_def i64_nonneg_unsigned change_time_def)
qed

section \<open>Invariants\<close>

text \<open>\<open>hist p s\<close> is the content of the version of file \<open>p\<close> that has stamp \<open>s\<close>. What the cache relies on
  of the file system: a stamp that was settled when the file was read identifies what was read
  (\<open>settled_stamp_detects_change\<close> gives the reason), and nanosecond fields are below a second.\<close>

type_synonym history = "bytes \<Rightarrow> stamp \<Rightarrow> bytes"

definition os_honest :: "history \<Rightarrow> os_view \<Rightarrow> bool" where
  "os_honest hist os \<longleftrightarrow>
     (\<forall>p file meta. os_open os p = Inr file \<and> f_metadata file = Inr meta \<longrightarrow>
        0 \<le> i64_val (md_ctime_nsec meta) \<and> i64_val (md_ctime_nsec meta) < 10 ^ 9 \<and>
        (\<forall>s raw. settled (os_now os) meta = Ret (Some s) \<and> f_read file = Inr raw \<longrightarrow> raw = hist p s))"

definition entry_ok :: "history \<Rightarrow> bytes list \<Rightarrow> pam_args \<Rightarrow> stamp option \<Rightarrow> bool" where
  "entry_ok hist raw_args args stmp \<longleftrightarrow>
     (case config_path raw_args of
        Inl _ \<Rightarrow> False
      | Inr None \<Rightarrow> parse_inline_args raw_args = Inr args
      | Inr (Some p) \<Rightarrow> (\<forall>s. stmp = Some s \<longrightarrow> parse_config (hist p s) = Some (Inr args)))"

definition verifier_ok :: "('j, 'k) jwt_lib \<Rightarrow> history \<Rightarrow> 'k config_obj \<Rightarrow> bool" where
  "verifier_ok lib hist cfg \<longleftrightarrow>
     (\<forall>s v. cfg_verifier cfg = Some (Some s, v) \<longrightarrow>
        (\<forall>issuer p. iss (cfg_args cfg) = Some issuer \<longrightarrow> jwks (cfg_args cfg) = Some p \<longrightarrow>
           from_jwks_json lib (config_policy (cfg_args cfg) issuer) (hist p s) = Inr v))"

definition cache_inv :: "('j, 'k) jwt_lib \<Rightarrow> history \<Rightarrow> 'k cache_state \<Rightarrow> bool" where
  "cache_inv lib hist st \<longleftrightarrow>
     (\<forall>raw_args en. hm_get (cache_map st) raw_args = Some en \<longrightarrow>
        en_config en < length (configs st) \<and>
        entry_ok hist raw_args (cfg_args (configs st ! en_config en)) (en_stamp en)) \<and>
     (\<forall>cfg \<in> set (configs st). verifier_ok lib hist cfg)"

text \<open>One call of the module on the cache, by any thread.\<close>

datatype cache_op = GetConfig os_view "bytes list" | GetVerifier os_view nat

datatype 'k cache_out =
  DidNotReturn | Panicked
| GotConfig "args_error + nat"
| GotVerifier "cache_error + 'k jwt_verifier"

fun flow_out :: "('a \<Rightarrow> 'k cache_out) \<Rightarrow> 'a flow \<Rightarrow> 'k cache_out" where
  "flow_out f Panic = Panicked"
| "flow_out f (Ret x) = f x"

fun cache_step :: "('j, 'k) jwt_lib \<Rightarrow> 'k cache_state \<Rightarrow> cache_op \<Rightarrow> 'k cache_state \<times> 'k cache_out" where
  "cache_step lib st (GetConfig os raw_args) =
     (case cache_config os raw_args st of
        None \<Rightarrow> (st, DidNotReturn)
      | Some (r, st') \<Rightarrow> (st', flow_out GotConfig r))"
| "cache_step lib st (GetVerifier os cid) =
     (let (r, st') = cache_verifier lib os cid st in (st', flow_out GotVerifier r))"

fun op_honest :: "history \<Rightarrow> cache_op \<Rightarrow> bool" where
  "op_honest hist (GetConfig os raw_args) = os_honest hist os"
| "op_honest hist (GetVerifier os cid) = os_honest hist os"

definition returned :: "'k cache_out \<Rightarrow> bool" where
  "returned out \<longleftrightarrow> out \<noteq> DidNotReturn \<and> out \<noteq> Panicked"

section \<open>Every operation keeps the invariant and returns\<close>

lemma settled_honest:
  assumes "os_honest hist os" and "os_open os p = Inr file" and "f_metadata file = Inr meta"
  shows "settled (os_now os) meta \<noteq> Panic"
proof -
  have "0 \<le> i64_val (md_ctime_nsec meta)" "i64_val (md_ctime_nsec meta) < 10 ^ 9"
    using assms by (auto simp: os_honest_def)
  then have "change_time meta div 10 ^ 9 = i64_val (md_ctime meta)"
    by (simp add: change_time_def)
  then show ?thesis
    using i64_range [of "md_ctime meta"] by (auto simp: settled_eq)
qed

lemma load_config_returns:
  assumes "os_honest hist os"
  shows "\<exists>r. load_config os raw_args path = Some (Ret r)"
proof (cases path)
  case (Some p)
  have "\<exists>r. read_config_file (os_open os p) = Some r"
    unfolding read_config_file_def by (intro try_opt_returns) (auto intro!: try_opt_returns parse_config_ok)
  then obtain r where r: "read_config_file (os_open os p) = Some r" ..
  show ?thesis
  proof (cases r)
    case (Inl e)
    with r Some show ?thesis by (simp add: load_config_def)
  next
    case (Inr am)
    obtain a m where am: "am = (a, m)" by force
    with r Inr obtain fh where "os_open os p = Inr fh" "f_metadata fh = Inr m"
      by (auto dest: read_config_file_InrD)
    from settled_honest [OF assms this] obtain s where "settled (os_now os) m = Ret s"
      by (cases "settled (os_now os) m") auto
    with r Inr am Some show ?thesis by (simp add: load_config_def)
  qed
qed (simp add: load_config_def)

text \<open>The three ways through \<open>config\<close>: an error, a hit, a load.\<close>

lemma cache_config_cases:
  assumes "cache_config os raw_args st = Some (r, st')"
  obtains (err) e where "r = Ret (Inl e)" "st' = st"
  | (panic) path where "config_path raw_args = Inr path" "load_config os raw_args path = Some Panic"
      "r = Panic" "st' = st"
  | (hit) path current cid where "config_path raw_args = Inr path" "config_stat os path = Inr current"
      "cache_hit st raw_args current = Some cid" "r = Ret (Inr cid)" "st' = st"
  | (load) path args stmp cid where "config_path raw_args = Inr path"
      "load_config os raw_args path = Some (Ret (Inr (args, stmp)))"
      "cache_store st raw_args args stmp = (cid, st')" "r = Ret (Inr cid)"
proof (cases "config_path raw_args")
  case (Inl e)
  with assms show thesis by (intro err [of e]) (auto simp: cache_config_def config_locked_def)
next
  case path: (Inr path)
  show thesis
  proof (cases "config_stat os path")
    case (Inl e)
    with assms path show thesis by (intro err [of e]) (auto simp: cache_config_def config_locked_def)
  next
    case (Inr current)
    show thesis
    proof (cases "cache_hit st raw_args current")
      case None
      then obtain l where l: "load_config os raw_args path = Some l"
        using assms path Inr by (auto simp: cache_config_def config_locked_def)
      consider "l = Panic" | e where "l = Ret (Inl e)" | args stmp where "l = Ret (Inr (args, stmp))"
        by (metis flow.exhaust sum.exhaust prod.exhaust)
      then show thesis
      proof cases
        case 1
        with assms path Inr None l show thesis by (intro panic [of path]) (auto simp: cache_config_def config_locked_def)
      next
        case (2 e)
        with assms path Inr None l show thesis by (intro err [of e]) (auto simp: cache_config_def config_locked_def)
      next
        case (3 args stmp)
        obtain cid st1 where "cache_store st raw_args args stmp = (cid, st1)" by force
        with 3 assms path Inr None l show thesis
          by (intro load [of path args stmp cid]) (auto simp: cache_config_def config_locked_def)
      qed
    next
      case (Some cid)
      with assms path Inr show thesis by (intro hit [of path current cid]) (auto simp: cache_config_def config_locked_def)
    qed
  qed
qed

lemma cache_config_returns:
  assumes "os_honest hist os"
  shows "\<exists>r st'. cache_config os raw_args st = Some (Ret r, st')"
proof -
  have ret: "\<exists>r. load_config os raw_args path = Some (Ret r)" for path
    by (rule load_config_returns [OF assms])
  have "cache_config os raw_args st \<noteq> None"
  proof
    assume "cache_config os raw_args st = None"
    then obtain path where "load_config os raw_args path = None"
      by (auto simp: cache_config_def config_locked_def split: sum.splits option.splits)
    with ret [of path] show False by simp
  qed
  then obtain r st' where c: "cache_config os raw_args st = Some (r, st')" by auto
  from c show ?thesis
  proof (cases rule: cache_config_cases)
    case (panic path)
    with ret [of path] show ?thesis by simp
  qed (use c in auto)
qed

lemma cache_verifier_returns:
  assumes "os_honest hist os"
  shows "\<exists>r. fst (config_verifier lib os cfg) = Ret r"
proof -
  have "build_verifier lib os a i p \<noteq> Panic" for a i p
  proof (cases "os_open os p")
    case (Inr fh)
    show ?thesis
    proof (cases "f_metadata fh")
      case meta: (Inr meta)
      from settled_honest [OF assms Inr meta] show ?thesis
        by (auto simp: build_verifier_def Inr meta result_simps Let_def
            elim!: bind_flow.elims)
    qed (simp add: build_verifier_def Inr)
  qed (simp add: build_verifier_def)
  then show ?thesis
    by (auto simp: config_verifier_def verifier_locked_def Let_def split: option.splits sum.splits flow.splits)
qed

lemma load_config_Inr:
  assumes "os_honest hist os" and "config_path raw_args = Inr path"
    and "load_config os raw_args path = Some (Ret (Inr (args, stmp)))"
  shows "entry_ok hist raw_args args stmp"
proof (cases path)
  case None
  with assms show ?thesis by (auto simp: load_config_def entry_ok_def result_simps)
next
  case (Some p)
  with assms(3) obtain m where m: "read_config_file (os_open os p) = Some (Inr (args, m))"
    "settled (os_now os) m = Ret stmp"
    by (auto simp: load_config_def result_simps)
  then obtain fh raw where "os_open os p = Inr fh" "f_metadata fh = Inr m" "f_read fh = Inr raw"
    "parse_config raw = Some (Inr args)"
    by (auto dest: read_config_file_InrD)
  with assms(1) m have "stmp = Some s \<Longrightarrow> parse_config (hist p s) = Some (Inr args)" for s
    by (auto simp: os_honest_def)
  with Some assms(2) show ?thesis by (simp add: entry_ok_def)
qed

lemma cache_store_inv:
  assumes "cache_inv lib hist st" and "entry_ok hist raw_args args stmp"
    and "cache_store st raw_args args stmp = (cid, st')"
  shows "cache_inv lib hist st' \<and> cid < length (configs st') \<and> cfg_args (configs st' ! cid) = args"
proof -
  have st': "configs st' = configs st @ [\<lparr>cfg_args = args, cfg_verifier = None\<rparr>]"
    "cache_map st' = hm_insert (cache_map st) raw_args \<lparr>en_stamp = stmp, en_config = length (configs st)\<rparr>"
    "cid = length (configs st)"
    using assms(3) by (auto simp: cache_store_def Let_def)
  have "en_config en < length (configs st)" if "hm_get (cache_map st) k = Some en" for k en
    using that assms(1) by (auto simp: cache_inv_def)
  then show ?thesis
    using assms(1,2)
    by (auto simp: st' cache_inv_def nth_append verifier_ok_def less_Suc_eq split: if_splits)
qed

lemma cache_config_inv:
  assumes "cache_inv lib hist st" and "os_honest hist os" and "cache_config os raw_args st = Some (r, st')"
  shows "cache_inv lib hist st'"
  using assms(3)
proof (cases rule: cache_config_cases)
  case (load path args stmp cid)
  from cache_store_inv [OF assms(1) load_config_Inr [OF assms(2) load(1,2)] load(3)] show ?thesis by simp
qed (use assms(1) in simp_all)

text \<open>The verifier of a configuration that satisfies the invariant: from the content that the key file
  has now, as its stamp identifies it, or from the content just read.\<close>

definition current_verifier :: "('j, 'k) jwt_lib \<Rightarrow> history \<Rightarrow> os_view \<Rightarrow> pam_args \<Rightarrow> 'k jwt_verifier \<Rightarrow> bool" where
  "current_verifier lib hist os args v \<longleftrightarrow>
     (\<exists>issuer p jwks_json. iss args = Some issuer \<and> jwks args = Some p \<and>
        from_jwks_json lib (config_policy args issuer) jwks_json = Inr v \<and>
        ((\<exists>meta. os_stat os p = Inr meta \<and> jwks_json = hist p (stamp_of meta)) \<or>
         (\<exists>fh. os_open os p = Inr fh \<and> f_read fh = Inr jwks_json)))"

lemma build_verifier_Inr:
  assumes "build_verifier lib os args issuer p = Ret (Inr (stmp, v))"
  obtains fh meta raw where "os_open os p = Inr fh" "f_metadata fh = Inr meta" "f_read fh = Inr raw"
    "from_jwks_json lib (config_policy args issuer) raw = Inr v" "settled (os_now os) meta = Ret stmp"
  using assms
  by (auto simp: build_verifier_def Let_def result_simps read_to_string_def from_utf8_def split: if_splits)

text \<open>The three ways through \<open>Config::verifier\<close>.\<close>

lemma config_verifier_cases:
  assumes "config_verifier lib os cfg = (r, cfg')"
  obtains (err) "\<And>v. r \<noteq> Ret (Inr v)" "cfg' = cfg"
  | (hit) issuer p meta v where "iss (cfg_args cfg) = Some issuer" "jwks (cfg_args cfg) = Some p"
      "os_stat os p = Inr meta" "cfg_verifier cfg = Some (Some (stamp_of meta), v)" "r = Ret (Inr v)" "cfg' = cfg"
  | (build) issuer p stmp v where "iss (cfg_args cfg) = Some issuer" "jwks (cfg_args cfg) = Some p"
      "build_verifier lib os (cfg_args cfg) issuer p = Ret (Inr (stmp, v))" "r = Ret (Inr v)"
      "cfg' = cfg\<lparr>cfg_verifier := Some (stmp, v)\<rparr>"
proof (cases "iss (cfg_args cfg) = None \<or> jwks (cfg_args cfg) = None")
  case True
  with assms show thesis by (intro err) (auto simp: config_verifier_def verifier_locked_def split: option.splits)
next
  case False
  then obtain issuer p where ip: "iss (cfg_args cfg) = Some issuer" "jwks (cfg_args cfg) = Some p" by auto
  show thesis
  proof (cases "os_stat os p")
    case (Inl e)
    with assms ip show thesis by (intro err) (auto simp: config_verifier_def verifier_locked_def)
  next
    case (Inr meta)
    show thesis
    proof (cases "\<exists>v. cfg_verifier cfg = Some (Some (stamp_of meta), v)")
      case True
      with assms ip Inr show thesis by (elim exE) (rule hit, auto simp: config_verifier_def verifier_locked_def Let_def)
    next
      case False
      then have eq: "(r, cfg') = (case build_verifier lib os (cfg_args cfg) issuer p of
          Panic \<Rightarrow> (Panic, cfg) | Ret (Inl e) \<Rightarrow> (Ret (Inl e), cfg)
        | Ret (Inr (stmp, v)) \<Rightarrow> (Ret (Inr v), cfg\<lparr>cfg_verifier := Some (stmp, v)\<rparr>))"
        using assms ip Inr
        by (auto simp: config_verifier_def verifier_locked_def Let_def split: option.splits)
      consider "\<And>x. build_verifier lib os (cfg_args cfg) issuer p \<noteq> Ret (Inr x)"
        | stmp v where "build_verifier lib os (cfg_args cfg) issuer p = Ret (Inr (stmp, v))"
        by (metis prod.exhaust)
      then show thesis
      proof cases
        case 1
        with eq show thesis by (intro err) (auto split: flow.splits sum.splits)
      next
        case (2 stmp v)
        with eq ip show thesis by (intro build [of issuer p stmp v]) auto
      qed
    qed
  qed
qed

lemma config_verifier_inv:
  assumes "verifier_ok lib hist cfg" and "os_honest hist os" and "config_verifier lib os cfg = (r, cfg')"
  shows "verifier_ok lib hist cfg' \<and> cfg_args cfg' = cfg_args cfg \<and>
    (\<forall>v. r = Ret (Inr v) \<longrightarrow> current_verifier lib hist os (cfg_args cfg) v)"
  using assms(3)
proof (cases rule: config_verifier_cases)
  case err
  with assms(1) show ?thesis by simp
next
  case (hit issuer p meta v)
  with assms(1) show ?thesis by (auto simp: verifier_ok_def current_verifier_def)
next
  case (build issuer p stmp v)
  from build(3) obtain fh meta raw where fh: "os_open os p = Inr fh" "f_metadata fh = Inr meta"
    "f_read fh = Inr raw" "from_jwks_json lib (config_policy (cfg_args cfg) issuer) raw = Inr v"
    "settled (os_now os) meta = Ret stmp"
    by (rule build_verifier_Inr)
  with assms(2) have "stmp = Some s \<Longrightarrow> raw = hist p s" for s
    by (auto simp: os_honest_def)
  with build fh show ?thesis by (auto simp: verifier_ok_def current_verifier_def)
qed

lemma cache_verifier_inv:
  assumes "cache_inv lib hist st" and "os_honest hist os" and "cache_verifier lib os cid st = (r, st')"
  shows "cache_inv lib hist st'"
proof (cases "cid < length (configs st)")
  case False
  with assms show ?thesis by (auto simp: not_less list_update_beyond cache_inv_def cache_verifier_def Let_def split: prod.splits)
next
  case True
  obtain cfg' where cv: "config_verifier lib os (configs st ! cid) = (r, cfg')"
    and st': "st' = st\<lparr>configs := (configs st)[cid := cfg']\<rparr>"
    using assms(3) by (auto simp: cache_verifier_def Let_def split: prod.splits)
  from True assms(1) have "verifier_ok lib hist (configs st ! cid)" by (simp add: cache_inv_def)
  from config_verifier_inv [OF this assms(2) cv]
  have "verifier_ok lib hist cfg'" "cfg_args cfg' = cfg_args (configs st ! cid)" by simp_all
  with assms(1) True show ?thesis
    by (auto simp: cache_inv_def st' nth_list_update dest: set_update_subset_insert [THEN subsetD])
qed

interpretation cache: machine "cache_step lib" "op_honest hist" "cache_inv lib hist" returned
  for lib hist
proof
  show "cache_inv lib hist (fst (cache_step lib st op))" if "cache_inv lib hist st" "op_honest hist op" for st op
    using that by (cases op) (auto dest: cache_config_inv cache_verifier_inv split: option.splits prod.splits)
  show "returned (snd (cache_step lib st op))" if "cache_inv lib hist st" "op_honest hist op" for st op
  proof (cases op)
    case (GetConfig os raw_args)
    with that cache_config_returns [of hist os raw_args st] show ?thesis by (auto simp: returned_def)
  next
    case (GetVerifier os cid)
    with that cache_verifier_returns [of hist os lib "configs st ! cid"] show ?thesis
      by (auto simp: returned_def cache_verifier_def Let_def split: prod.splits)
  qed
qed

lemma cache_new_inv: "cache_inv lib hist cache_new"
  by (simp add: cache_inv_def cache_new_def)

text \<open>The cache after a history of calls.\<close>

definition cache_after :: "('j, 'k) jwt_lib \<Rightarrow> cache_op list \<Rightarrow> 'k cache_state" where
  "cache_after lib ops = fst (run_machine (cache_step lib) cache_new ops)"

lemma cache_after_inv: "\<forall>op \<in> set ops. op_honest hist op \<Longrightarrow> cache_inv lib hist (cache_after lib ops)"
  unfolding cache_after_def by (rule cache.run_inv [OF cache_new_inv])

text \<open>What the arguments of a stack line denote during a call.\<close>

definition denoted_args :: "history \<Rightarrow> os_view \<Rightarrow> bytes list \<Rightarrow> pam_args \<Rightarrow> bool" where
  "denoted_args hist os raw_args args \<longleftrightarrow>
     (\<exists>path. config_path raw_args = Inr path \<and>
       (case path of
          None \<Rightarrow> parse_inline_args raw_args = Inr args
        | Some p \<Rightarrow>
            (\<exists>meta. os_stat os p = Inr meta \<and> parse_config (hist p (stamp_of meta)) = Some (Inr args)) \<or>
            (\<exists>m. read_config_file (os_open os p) = Some (Inr (args, m)))))"

lemma cache_config_Inr:
  assumes "cache_inv lib hist st" and "os_honest hist os"
    and "cache_config os raw_args st = Some (Ret (Inr cid), st')"
  shows "cid < length (configs st') \<and> denoted_args hist os raw_args (cfg_args (configs st' ! cid))"
  using assms(3)
proof (cases rule: cache_config_cases)
  case (hit path current cid')
  then obtain en where en: "hm_get (cache_map st) raw_args = Some en" "en_config en = cid"
    and fresh: "case current of Some c \<Rightarrow> en_stamp en = Some c | None \<Rightarrow> True"
    by (auto simp: cache_hit_def Let_def split: option.splits if_splits)
  with assms(1) hit have ok: "entry_ok hist raw_args (cfg_args (configs st' ! cid)) (en_stamp en)"
    "cid < length (configs st')"
    by (auto simp: cache_inv_def)
  show ?thesis
  proof (cases path)
    case None
    with ok hit show ?thesis by (auto simp: entry_ok_def denoted_args_def)
  next
    case (Some p)
    with hit(2) obtain meta where "os_stat os p = Inr meta" "current = Some (stamp_of meta)"
      by (auto simp: config_stat_def result_simps)
    with Some ok hit fresh show ?thesis by (auto simp: entry_ok_def denoted_args_def)
  qed
next
  case (load path args stmp cid')
  from cache_store_inv [OF assms(1) load_config_Inr [OF assms(2) load(1,2)] load(3)]
  have st': "cid < length (configs st')" "cfg_args (configs st' ! cid) = args" using load(4) by auto
  show ?thesis
    using load(1,2) st' by (auto simp: load_config_def denoted_args_def result_simps split: option.splits)
qed simp_all


lemma cache_verifier_current:
  assumes "cache_inv lib hist st" and "os_honest hist os" and "cid < length (configs st)"
    and "cache_verifier lib os cid st = (Ret (Inr v), st')"
  shows "current_verifier lib hist os (cfg_args (configs st ! cid)) v"
proof -
  have "verifier_ok lib hist (configs st ! cid)"
    using assms(1,3) by (simp add: cache_inv_def)
  moreover obtain cfg' where "config_verifier lib os (configs st ! cid) = (Ret (Inr v), cfg')"
    using assms(4) by (auto simp: cache_verifier_def Let_def split: prod.splits)
  ultimately show ?thesis using config_verifier_inv [OF _ assms(2)] by blast
qed

text \<open>Concrete inputs for witnesses: one key file, last changed long ago.\<close>

definition sample_meta :: metadata where
  "sample_meta = \<lparr>md_dev = 1, md_ino = 2, md_size = 4, md_mtime = 1000, md_mtime_nsec = 0,
     md_ctime = 1000, md_ctime_nsec = 0, md_is_file = True, md_mode = 0x81A4\<rparr>"

definition sample_os :: os_view where
  "sample_os =
     \<lparr>os_stat = (\<lambda>p. if p = ''/keys'' then Inr sample_meta else Inl ''ENOENT''),
      os_open = (\<lambda>p. if p = ''/keys'' then Inr \<lparr>f_metadata = Inr sample_meta, f_read = Inr ''jwks''\<rparr>
         else Inl ''ENOENT''),
      os_now = 2000 * 10 ^ 9\<rparr>"

definition sample_raw_args :: "bytes list" where
  "sample_raw_args = [''iss=issuer'', ''jwks=/keys'', ''trusted_aud=ldap'', ''userid=uid'',
     ''only_from=host-a,host-b'']"

definition sample_ops :: "cache_op list" where
  "sample_ops = [GetConfig sample_os sample_raw_args, GetVerifier sample_os 0]"

lemma sample_honest: "os_honest (\<lambda>p s. ''jwks'') sample_os"
proof -
  have "i64_val 0 = 0" by simp
  then show ?thesis by (auto simp: os_honest_def sample_os_def sample_meta_def split: if_splits)
qed

lemma sample_ops_honest: "\<forall>op \<in> set sample_ops. op_honest (\<lambda>p s. ''jwks'') op"
  by (simp add: sample_ops_def sample_honest)

section \<open>Properties\<close>

text \<open>C29: A settled stamp is never the stamp of a later version: a file whose stamp was cached at time
  \<open>now\<close> and that was written to at or after \<open>now\<close> has another stamp, provided the kernel's change
  time lags behind the clock by less than the two seconds of \<open>SETTLE_TIME\<close>.\<close>

theorem settled_stamp_detects_change:
  assumes "settled now meta = Ret (Some s)" and "now \<le> written"
    and "written - SETTLE_TIME < change_time meta'"
  shows "stamp_of meta' \<noteq> s"
proof
  assume "stamp_of meta' = s"
  with assms(1) have "stamp_of meta' = stamp_of meta" "SETTLE_TIME \<le> now - change_time meta"
    by (auto simp: settled_eq split: if_splits)
  then have "change_time meta' = change_time meta" by (simp add: stamp_of_def change_time_def)
  with assms(2,3) \<open>SETTLE_TIME \<le> now - change_time meta\<close> show False by simp
qed

theorem settled_stamp_detects_change_witness:
  "stamp_of (sample_meta\<lparr>md_ctime := 1999, md_ctime_nsec := 500\<rparr>) \<noteq> stamp_of sample_meta"
  by (rule settled_stamp_detects_change [where now = "2000 * 10 ^ 9" and written = "2000 * 10 ^ 9"
        and meta = sample_meta]; code_simp)

text \<open>No history of calls makes the cache panic or hang: whatever the arguments, the files and the
  clock, \<open>config\<close> and \<open>verifier\<close> return a value or an error.\<close>

theorem cache_returns:
  assumes "\<forall>op \<in> set ops. op_honest hist op"
  shows "out \<in> set (snd (run_machine (cache_step lib) cache_new ops)) \<Longrightarrow> out \<noteq> DidNotReturn \<and> out \<noteq> Panicked"
  using cache.run_out [OF cache_new_inv assms] unfolding returned_def by blast

theorem cache_returns_witness:
  "GotConfig (Inr 0) \<in> set (snd (run_machine (cache_step sample_lib) cache_new sample_ops)) \<and>
   (GotConfig (Inr 0) :: bytes cache_out) \<noteq> Panicked"
proof -
  have "case snd (run_machine (cache_step sample_lib) cache_new sample_ops) of
      GotConfig (Inr cid) # _ \<Rightarrow> cid = 0 | _ \<Rightarrow> False"
    by code_simp
  then have "GotConfig (Inr 0) \<in> set (snd (run_machine (cache_step sample_lib) cache_new sample_ops))"
    by (auto split: list.splits cache_out.splits sum.splits)
  with cache_returns [OF sample_ops_honest this] show ?thesis by simp
qed

text \<open>C13: After any history of calls, a configuration is the one its stack arguments denote now: parsed
  from these inline arguments, or from the \<open>config=\<close> file, either just read or in the version whose
  stamp the file has at this call. It never belongs to another stack line.\<close>

theorem config_is_current:
  assumes "\<forall>op \<in> set ops. op_honest hist op" and "os_honest hist os"
    and "cache_config os raw_args (cache_after lib ops) = Some (Ret (Inr cid), st')"
  shows "cid < length (configs st') \<and> denoted_args hist os raw_args (cfg_args (configs st' ! cid))"
  by (rule cache_config_Inr [OF cache_after_inv [OF assms(1)] assms(2,3)])

lemma sample_config: "cache_config sample_os sample_raw_args (cache_after sample_lib sample_ops) =
    Some (Ret (Inr 0), cache_after sample_lib sample_ops)"
  by code_simp

theorem config_is_current_witness:
  "parse_inline_args sample_raw_args = Inr (cfg_args (configs (cache_after sample_lib sample_ops) ! 0))"
proof -
  have "config_path sample_raw_args = Inr None" by code_simp
  with config_is_current [OF sample_ops_honest sample_honest sample_config] show ?thesis
    by (simp add: denoted_args_def)
qed

text \<open>C12: After any history of calls, the verifier of a live configuration is built with exactly that
  configuration's policy and issuer, from the key file just read or from the version of it whose
  stamp the key file has at this call.\<close>

theorem verifier_is_current:
  assumes "\<forall>op \<in> set ops. op_honest hist op" and "os_honest hist os"
    and "cid < length (configs (cache_after lib ops))"
    and "cache_verifier lib os cid (cache_after lib ops) = (Ret (Inr v), st')"
  shows "current_verifier lib hist os (cfg_args (configs (cache_after lib ops) ! cid)) v"
  by (rule cache_verifier_current [OF cache_after_inv [OF assms(1)] assms(2,3,4)])

theorem verifier_is_current_witness:
  "current_verifier sample_lib (\<lambda>p s. ''jwks'') sample_os
     (cfg_args (configs (cache_after sample_lib sample_ops) ! 0))
     (sample_verifier\<lparr>v_policy := \<lparr>uid_attr = ''uid'', grace = 3, trusted_issuer = ''issuer'',
        trusted_audiences = [''ldap''], trusted_authorized_parties = [], required_scopes = [],
        disallowed_usernames = [], allowed_algorithms = None, disallowed_algorithms = []\<rparr>\<rparr>)"
  by (rule verifier_is_current [OF sample_ops_honest sample_honest, where st' = "cache_after sample_lib sample_ops"];
      code_simp)

end
