(* ===== verification/Pam_Auth.thy ===== *)
theory Pam_Auth
  imports Pam_Cache
begin

text \<open>
  The PAM module proper: \<open>authenticate\<close>, \<open>guard\<close> and the entry points of \<open>pam/src/lib.rs\<close> over the
  safe wrappers of \<open>pam/src/ffi.rs\<close>. libpam and libc are outside the repository: \<open>pam_handle\<close> holds
  what their functions return during one call. Besides its return code a call changes the process
  cache and the \<open>PAM_AUTHTOK\<close> item that later modules of the stack read. What a
  call logs is in theory \<open>Messages\<close>.
\<close>

section \<open>Return codes and items\<close>

type_synonym c_int = int

definition PAM_SUCCESS :: c_int where "PAM_SUCCESS = 0"
definition PAM_OPEN_ERR :: c_int where "PAM_OPEN_ERR = 1"
definition PAM_SYSTEM_ERR :: c_int where "PAM_SYSTEM_ERR = 4"
definition PAM_AUTH_ERR :: c_int where "PAM_AUTH_ERR = 7"
definition PAM_CONV_ERR :: c_int where "PAM_CONV_ERR = 19"
definition PAM_TRY_AGAIN :: c_int where "PAM_TRY_AGAIN = 24"
definition PAM_IGNORE :: c_int where "PAM_IGNORE = 25"

definition PAM_RHOST :: c_int where "PAM_RHOST = 4"
definition PAM_AUTHTOK :: c_int where "PAM_AUTHTOK = 6"

lemmas pam_codes =
  PAM_SUCCESS_def PAM_OPEN_ERR_def PAM_SYSTEM_ERR_def PAM_AUTH_ERR_def PAM_CONV_ERR_def
  PAM_TRY_AGAIN_def PAM_IGNORE_def

section \<open>libpam and libc\<close>

text \<open>A C string is the bytes before its NUL. A pointer that may be null is an option. The response of a
  conversation is a null pointer, or a structure whose answer may be null.\<close>

definition PAM_PROMPT_ECHO_OFF :: c_int where "PAM_PROMPT_ECHO_OFF = 1"

record pam_message =
  msg_style :: c_int
  pam_msg :: bytes

record conv_result =
  conv_rc :: c_int
  conv_resp :: "bytes option option"

record pam_handle =
  pam_get_user :: "c_int \<times> bytes option"
  pam_get_item :: "c_int \<Rightarrow> c_int \<times> bytes option"
  pam_get_conv :: "c_int \<times> (pam_message \<Rightarrow> conv_result) option option"
  getpwnam_r :: "bytes \<Rightarrow> c_int \<times> bool"

section \<open>The wrappers\<close>

text \<open>\<open>PamHandle::user\<close>, \<open>item_str\<close>, \<open>converse_secret\<close>, \<open>account_exists\<close>: \<open>Inl\<close> carries a return code.\<close>

definition pam_user :: "pam_handle \<Rightarrow> c_int + bytes" where
  "pam_user pam =
     (case pam_get_user pam of
        (rc, None) \<Rightarrow> Inl rc
      | (rc, Some user) \<Rightarrow> if rc \<noteq> PAM_SUCCESS then Inl rc else Inr user)"

definition item_str :: "pam_handle \<Rightarrow> c_int \<Rightarrow> c_int + bytes option" where
  "item_str pam item_type =
     (let (rc, item) = pam_get_item pam item_type in
      if rc \<noteq> PAM_SUCCESS then Inl rc else Inr (map_option from_utf8_lossy item))"

definition converse_secret :: "pam_handle \<Rightarrow> bytes \<Rightarrow> c_int + bytes" where
  "converse_secret pam prompt =
     (let (rc, conv) = pam_get_conv pam in
      if rc \<noteq> PAM_SUCCESS then Inl rc
      else case Option.bind conv id of
        None \<Rightarrow> Inl PAM_CONV_ERR
      | Some conv_fn \<Rightarrow>
          (let r = conv_fn \<lparr>msg_style = PAM_PROMPT_ECHO_OFF, pam_msg = prompt\<rparr> in
           if conv_rc r \<noteq> PAM_SUCCESS then Inl (conv_rc r)
           else case conv_resp r of
             None \<Rightarrow> Inl PAM_CONV_ERR
           | Some answer \<Rightarrow> ok_or PAM_CONV_ERR answer))"

definition account_exists :: "pam_handle \<Rightarrow> bytes \<Rightarrow> c_int + bool" where
  "account_exists pam user =
     (let (rc, found) = getpwnam_r pam user in if rc \<noteq> 0 then Inl PAM_TRY_AGAIN else Inr found)"

section \<open>Authentication\<close>

text \<open>The token: the item if it is set, else the answer to the prompt, which is stored for later modules
  before it is looked at. The second component is the value given to \<open>set_authtok\<close>, if any.\<close>

definition obtain_token :: "pam_handle \<Rightarrow> (c_int + bytes) \<times> bytes option" where
  "obtain_token pam =
     (case item_str pam PAM_AUTHTOK of
        Inl rc \<Rightarrow> (Inl rc, None)
      | Inr (Some tok) \<Rightarrow> (Inr tok, None)
      | Inr None \<Rightarrow>
          (case converse_secret pam ''Access Token: '' of
             Inl rc \<Rightarrow> (Inl rc, None)
           | Inr answer \<Rightarrow> (ok_or PAM_AUTH_ERR (from_utf8 answer), Some answer)))"

record 'k auth_result =
  auth_rc :: "c_int flow"
  auth_authtok :: "bytes option"
  auth_cache :: "'k cache_state"

fun check_token :: "('j, 'k) jwt_lib \<Rightarrow> u64 option \<Rightarrow> bytes \<Rightarrow> bytes \<Rightarrow>
    (cache_error + 'k jwt_verifier) flow \<Rightarrow> c_int flow" where
  "check_token lib clock user tok Panic = Panic"
| "check_token lib clock user tok (Ret (Inl (ReadError e))) = Ret PAM_OPEN_ERR"
| "check_token lib clock user tok (Ret (Inl (BuildError e))) = Ret PAM_SYSTEM_ERR"
| "check_token lib clock user tok (Ret (Inr v)) =
     Ret (case verify lib clock v tok of
            Inl e \<Rightarrow> PAM_AUTH_ERR
          | Inr oauth_user \<Rightarrow> if oauth_user \<noteq> user then PAM_AUTH_ERR else PAM_SUCCESS)"

text \<open>The clock and the two views are what the system answers to \<open>verify\<close>, to \<open>config\<close> and to \<open>verifier\<close>.
  \<open>None\<close>: reading the configuration does not return.\<close>

definition rhost_denied :: "pam_handle \<Rightarrow> pam_args \<Rightarrow> bool" where
  "rhost_denied pam args \<longleftrightarrow>
     only_from args \<noteq> [] \<and>
     \<not> (case item_str pam PAM_RHOST of
          Inr (Some h) \<Rightarrow> only_from_allows (only_from args) h
        | _ \<Rightarrow> False)"

definition authenticate_user :: "('j, 'k) jwt_lib \<Rightarrow> u64 option \<Rightarrow> os_view \<Rightarrow> pam_handle \<Rightarrow> nat \<Rightarrow>
    'k cache_state \<Rightarrow> bytes \<Rightarrow> 'k auth_result" where
  "authenticate_user lib clock os pam cid st user =
     (case account_exists pam user of
        Inl rc \<Rightarrow> \<lparr>auth_rc = Ret rc, auth_authtok = None, auth_cache = st\<rparr>
      | Inr _ \<Rightarrow>
          (let (tok, authtok) = obtain_token pam in
           case tok of
             Inl rc \<Rightarrow> \<lparr>auth_rc = Ret rc, auth_authtok = authtok, auth_cache = st\<rparr>
           | Inr tok \<Rightarrow>
               (let (v, st') = cache_verifier lib os cid st in
                \<lparr>auth_rc = check_token lib clock user tok v, auth_authtok = authtok, auth_cache = st'\<rparr>)))"

definition authenticate :: "('j, 'k) jwt_lib \<Rightarrow> u64 option \<Rightarrow> os_view \<Rightarrow> os_view \<Rightarrow> pam_handle \<Rightarrow>
    bytes list \<Rightarrow> 'k cache_state \<Rightarrow> 'k auth_result option" where
  "authenticate lib clock os1 os2 pam raw_args st =
     (case cache_config os1 raw_args st of
        None \<Rightarrow> None
      | Some (Panic, st') \<Rightarrow> Some \<lparr>auth_rc = Panic, auth_authtok = None, auth_cache = st'\<rparr>
      | Some (Ret (Inl e), st') \<Rightarrow>
          Some \<lparr>auth_rc = Ret PAM_SYSTEM_ERR, auth_authtok = None, auth_cache = st'\<rparr>
      | Some (Ret (Inr cid), st') \<Rightarrow>
          (let args = cfg_args (configs st' ! cid) in
           if rhost_denied pam args
           then Some \<lparr>auth_rc = Ret PAM_IGNORE, auth_authtok = None, auth_cache = st'\<rparr>
           else case pam_user pam of
             Inl rc \<Rightarrow> Some \<lparr>auth_rc = Ret (if rc = PAM_SUCCESS then PAM_AUTH_ERR else rc),
                 auth_authtok = None, auth_cache = st'\<rparr>
           | Inr user \<Rightarrow> Some (authenticate_user lib clock os2 pam cid st' user)))"

text \<open>\<open>guard\<close>: a panic becomes \<open>PAM_SYSTEM_ERR\<close>.\<close>

definition guard :: "c_int flow \<Rightarrow> c_int" where
  "guard f = catch_unwind_or PAM_SYSTEM_ERR f"

text \<open>The exported functions. A null handle is \<open>None\<close>. The result is the return code, the stored token
  and the cache.\<close>

definition pam_sm_authenticate :: "('j, 'k) jwt_lib \<Rightarrow> u64 option \<Rightarrow> os_view \<Rightarrow> os_view \<Rightarrow>
    pam_handle option \<Rightarrow> 32 word \<Rightarrow> bytes option list option \<Rightarrow> 'k cache_state \<Rightarrow>
    (c_int \<times> bytes option \<times> 'k cache_state) option" where
  "pam_sm_authenticate lib clock os1 os2 pamh argc argv st =
     (case pamh of
        None \<Rightarrow> Some (guard (Ret PAM_SYSTEM_ERR), None, st)
      | Some pam \<Rightarrow>
          map_option (\<lambda>r. (guard (auth_rc r), auth_authtok r, auth_cache r))
            (authenticate lib clock os1 os2 pam (collect_args argc argv) st))"

definition pam_sm_setcred :: c_int where "pam_sm_setcred = PAM_SUCCESS"
definition pam_sm_acct_mgmt :: c_int where "pam_sm_acct_mgmt = PAM_SUCCESS"
definition pam_sm_open_session :: c_int where "pam_sm_open_session = PAM_SUCCESS"
definition pam_sm_close_session :: c_int where "pam_sm_close_session = PAM_SUCCESS"
definition pam_sm_chauthtok :: c_int where "pam_sm_chauthtok = PAM_SUCCESS"

lemmas pam_auth_eval [rust_defs] =
  pam_user_def item_str_def converse_secret_def account_exists_def obtain_token_def rhost_denied_def
  authenticate_user_def authenticate_def guard_def pam_sm_authenticate_def


section \<open>Where each return code comes from\<close>

lemma item_str_Inl: "item_str pam t = Inl rc \<Longrightarrow> rc \<noteq> PAM_SUCCESS"
  by (auto simp: item_str_def Let_def split: prod.splits if_splits)

lemma converse_secret_Inl: "converse_secret pam p = Inl rc \<Longrightarrow> rc \<noteq> PAM_SUCCESS"
  by (auto simp: converse_secret_def Let_def result_simps PAM_CONV_ERR_def PAM_SUCCESS_def
      split: prod.splits if_splits option.splits)

lemma obtain_token_Inl: "fst (obtain_token pam) = Inl rc \<Longrightarrow> rc \<noteq> PAM_SUCCESS"
  by (auto simp: obtain_token_def result_simps PAM_AUTH_ERR_def PAM_SUCCESS_def
      dest: item_str_Inl converse_secret_Inl split: sum.splits option.splits)

lemma check_token_SUCCESS:
  "check_token lib clock user tok r = Ret PAM_SUCCESS \<longleftrightarrow>
   (\<exists>v. r = Ret (Inr v) \<and> verify lib clock v tok = Inr user)"
  by (cases "(lib, clock, user, tok, r)" rule: check_token.cases)
    (auto simp: pam_codes split: sum.splits if_splits)

lemma check_token_Panic: "check_token lib clock user tok r = Panic \<longleftrightarrow> r = Panic"
  by (cases "(lib, clock, user, tok, r)" rule: check_token.cases) auto

lemma authenticate_user_SUCCESS:
  assumes "auth_rc (authenticate_user lib clock os pam cid st user) = Ret PAM_SUCCESS"
  obtains tok v st' where "fst (obtain_token pam) = Inr tok"
    "cache_verifier lib os cid st = (Ret (Inr v), st')" "verify lib clock v tok = Inr user"
proof (cases "account_exists pam user")
  case (Inl rc)
  then have "rc \<noteq> PAM_SUCCESS"
    by (auto simp: account_exists_def pam_codes split: prod.splits if_splits)
  with Inl assms show thesis by (simp add: authenticate_user_def)
next
  case (Inr found)
  obtain t a where ot: "obtain_token pam = (t, a)" by force
  show thesis
  proof (cases t)
    case (Inl rc)
    with obtain_token_Inl [of pam rc] ot Inr assms show thesis by (simp add: authenticate_user_def)
  next
    case tok: (Inr tok)
    obtain r st' where "cache_verifier lib os cid st = (r, st')" by force
    with that ot tok Inr assms show thesis by (auto simp: authenticate_user_def check_token_SUCCESS)
  qed
qed

lemma authenticate_SUCCESS:
  assumes "authenticate lib clock os1 os2 pam raw_args st = Some r" and "guard (auth_rc r) = PAM_SUCCESS"
  obtains cid st1 user where "cache_config os1 raw_args st = Some (Ret (Inr cid), st1)"
    "\<not> rhost_denied pam (cfg_args (configs st1 ! cid))" "pam_user pam = Inr user"
    "auth_rc (authenticate_user lib clock os2 pam cid st1 user) = Ret PAM_SUCCESS"
proof -
  from assms(2) have rc: "auth_rc r = Ret PAM_SUCCESS"
    by (cases "auth_rc r") (auto simp: guard_def pam_codes)
  then show thesis
    using assms(1) that
    by (auto simp: authenticate_def Let_def pam_codes
        split: option.splits prod.splits flow.splits sum.splits if_splits)
qed

section \<open>Properties\<close>

text \<open>C1: The module grants access only for a verified token of the requested user: whatever calls were
  made before in the process, \<open>PAM_SUCCESS\<close> means that the configuration the stack arguments denote
  now applies to the remote host, that the verifier was built with its policy from the current key
  file, and that this verifier accepts the token, now, for exactly the user name of the PAM handle.\<close>

theorem pam_success_sound:
  assumes "\<forall>op \<in> set ops. op_honest hist op" and "os_honest hist os1" and "os_honest hist os2"
    and "u64_val secs \<le> i64_max"
    and "pam_sm_authenticate lib (Some secs) os1 os2 pamh argc argv (cache_after lib ops) =
      Some (PAM_SUCCESS, authtok, st')"
  shows "\<exists>pam user tok args v. pamh = Some pam \<and> pam_user pam = Inr user \<and>
    fst (obtain_token pam) = Inr tok \<and> denoted_args hist os1 (collect_args argc argv) args \<and>
    \<not> rhost_denied pam args \<and> current_verifier lib hist os2 args v \<and>
    token_accepted lib (u64_val secs) v tok user"
proof -
  note inv = cache_after_inv [OF assms(1), of lib]
  from assms(5) obtain pam r where pam: "pamh = Some pam"
    and r: "authenticate lib (Some secs) os1 os2 pam (collect_args argc argv) (cache_after lib ops) = Some r"
      "guard (auth_rc r) = PAM_SUCCESS"
    by (cases pamh) (auto simp: pam_sm_authenticate_def guard_def pam_codes)
  from r obtain cid st1 user where
    cfg: "cache_config os1 (collect_args argc argv) (cache_after lib ops) = Some (Ret (Inr cid), st1)"
    and host: "\<not> rhost_denied pam (cfg_args (configs st1 ! cid))" and user: "pam_user pam = Inr user"
    and auth: "auth_rc (authenticate_user lib (Some secs) os2 pam cid st1 user) = Ret PAM_SUCCESS"
    by (rule authenticate_SUCCESS)
  from auth obtain tok v st2 where tok: "fst (obtain_token pam) = Inr tok"
    and v: "cache_verifier lib os2 cid st1 = (Ret (Inr v), st2)"
    and ok: "verify lib (Some secs) v tok = Inr user"
    by (rule authenticate_user_SUCCESS)
  from cache_config_Inr [OF inv assms(2) cfg]
  have cid: "cid < length (configs st1)"
    and args: "denoted_args hist os1 (collect_args argc argv) (cfg_args (configs st1 ! cid))"
    by simp_all
  from cache_verifier_current [OF cache_config_inv [OF inv assms(2) cfg] assms(3) cid v]
  have "current_verifier lib hist os2 (cfg_args (configs st1 ! cid)) v" .
  moreover from ok have "token_accepted lib (u64_val secs) v tok user"
    by (simp add: verify_Inr token_accepted_def check_claims_Inr [OF assms(4)])
  ultimately show ?thesis using pam user tok args host by blast
qed

text \<open>A call for user alice from host-b with the token at hand, in a process that has already
  authenticated once.\<close>

definition sample_pam :: pam_handle where
  "sample_pam =
     \<lparr>pam_get_user = (PAM_SUCCESS, Some ''alice''),
      pam_get_item = (\<lambda>t. (PAM_SUCCESS,
        if t = PAM_RHOST then Some ''host-b'' else if t = PAM_AUTHTOK then Some sample_token else None)),
      pam_get_conv = (PAM_SUCCESS, None),
      getpwnam_r = (\<lambda>user. (0, user = ''alice''))\<rparr>"

lemma sample_call:
  "pam_sm_authenticate sample_lib (Some 1002) sample_os sample_os (Some sample_pam) 5
     (Some (map Some sample_raw_args)) (cache_after sample_lib sample_ops) =
   Some (PAM_SUCCESS, None, cache_after sample_lib sample_ops)"
  by code_simp

theorem pam_success_sound_witness:
  "\<exists>v. token_accepted sample_lib 1002 v sample_token ''alice'' \<and> jwt_policy.uid_attr (v_policy v) = ''uid''"
proof -
  have secs: "u64_val (1002 :: u64) \<le> i64_max" "u64_val (1002 :: u64) = 1002" by (simp_all add: i64_max_def)
  have user: "pam_user sample_pam = Inr ''alice''" "fst (obtain_token sample_pam) = Inr sample_token"
    by code_simp+
  have inline: "config_path (collect_args 5 (Some (map Some sample_raw_args))) = Inr None" by code_simp
  have "map_sum id userid (parse_inline_args (collect_args 5 (Some (map Some sample_raw_args)))) = Inr ''uid''"
    by code_simp
  then have "parse_inline_args (collect_args 5 (Some (map Some sample_raw_args))) = Inr args \<Longrightarrow> userid args = ''uid''"
    for args by simp
  with pam_success_sound [OF sample_ops_honest sample_honest sample_honest secs(1) sample_call] inline user secs(2)
  show ?thesis
    by (fastforce simp: denoted_args_def current_verifier_def from_jwks_json_Inr config_policy_def)
qed

text \<open>C31: The module answers every call and no panic of its code reaches \<open>guard\<close>, for all arguments,
  files, clocks and answers of the PAM application.\<close>

theorem pam_authenticate_returns:
  assumes "\<forall>op \<in> set ops. op_honest hist op" and "os_honest hist os1" and "os_honest hist os2"
  shows "\<exists>r rc. authenticate lib clock os1 os2 pam raw_args (cache_after lib ops) = Some r \<and> auth_rc r = Ret rc"
proof -
  obtain c st1 where cfg: "cache_config os1 raw_args (cache_after lib ops) = Some (Ret c, st1)"
    using cache_config_returns [OF assms(2)] by blast
  show ?thesis
  proof (cases c)
    case (Inl e)
    with cfg show ?thesis by (simp add: authenticate_def)
  next
    case (Inr cid)
    have "\<exists>rc. auth_rc (authenticate_user lib clock os2 pam cid st1 user) = Ret rc" for user
    proof -
      obtain t a where ot: "obtain_token pam = (t, a)" by force
      obtain v st2 where cv: "cache_verifier lib os2 cid st1 = (v, st2)" by force
      from cache_verifier_returns [OF assms(3), of lib "configs st1 ! cid"] cv
      have "v \<noteq> Panic" by (auto simp: cache_verifier_def Let_def split: prod.splits)
      then have "check_token lib clock user tok v \<noteq> Panic" for tok by (simp add: check_token_Panic)
      with ot cv show ?thesis
        by (cases "account_exists pam user"; cases t)
          (auto simp: authenticate_user_def intro: flow.exhaust [of "check_token lib clock user (projr t) v"])
    qed
    with cfg Inr show ?thesis
      by (cases "pam_user pam") (auto simp: authenticate_def Let_def)
  qed
qed

theorem pam_authenticate_returns_witness:
  "\<exists>r rc. authenticate sample_lib None sample_os sample_os sample_pam [] (cache_after sample_lib sample_ops) = Some r \<and>
     auth_rc r = Ret rc"
  by (rule pam_authenticate_returns [OF sample_ops_honest sample_honest sample_honest])



text \<open>C40: The codes of a call that got as far as a token: \<open>PAM_OPEN_ERR\<close> when the configuration names no
  issuer or no key file, and \<open>PAM_AUTH_ERR\<close> for every token the verifier rejects, a token without
  the user name claim included.\<close>

theorem pam_failure_codes:
  assumes "cache_config os1 raw_args st = Some (Ret (Inr cid), st1)"
    and "\<not> rhost_denied pam (cfg_args (configs st1 ! cid))" and "pam_user pam = Inr user"
    and "account_exists pam user = Inr found" and "fst (obtain_token pam) = Inr tok"
  shows "\<exists>r. authenticate lib clock os1 os2 pam raw_args st = Some r \<and>
    (iss (cfg_args (configs st1 ! cid)) = None \<or> jwks (cfg_args (configs st1 ! cid)) = None \<longrightarrow>
       auth_rc r = Ret PAM_OPEN_ERR) \<and>
    (\<forall>v e. fst (cache_verifier lib os2 cid st1) = Ret (Inr v) \<and> verify lib clock v tok = Inl e \<longrightarrow>
       auth_rc r = Ret PAM_AUTH_ERR)"
proof -
  obtain a where "obtain_token pam = (Inr tok, a)" using assms(5) by (cases "obtain_token pam") auto
  then show ?thesis
    using assms(1-4)
    by (auto simp: authenticate_def authenticate_user_def cache_verifier_def config_verifier_def Let_def
        split: prod.splits option.splits)
qed

theorem pam_failure_codes_witness:
  "\<exists>r. authenticate sample_lib None sample_os sample_os sample_pam [''iss=issuer''] cache_new = Some r \<and>
     auth_rc r = Ret PAM_OPEN_ERR"
proof -
  let ?st = "\<lparr>configs = [\<lparr>cfg_args = inline_args [''iss=issuer''], cfg_verifier = None\<rparr>],
     cache_map = [([''iss=issuer''], \<lparr>en_stamp = None, en_config = 0\<rparr>)]\<rparr>"
  have "cache_config sample_os [''iss=issuer''] (cache_new :: bytes cache_state) = Some (Ret (Inr 0), ?st)"
    "\<not> rhost_denied sample_pam (cfg_args (configs ?st ! 0))" "pam_user sample_pam = Inr ''alice''"
    "account_exists sample_pam ''alice'' = Inr True" "fst (obtain_token sample_pam) = Inr sample_token"
    "jwks (cfg_args (configs ?st ! 0)) = None"
    by code_simp+
  from pam_failure_codes [OF this(1-5), of sample_lib None sample_os] this(6) show ?thesis by auto
qed

end
