(* ===== verification/Store.thy ===== *)
theory Store
  imports Prelude
begin

text \<open>
  Memory with explicit addresses, for the parts of the program that hand raw pointers to its
  frameworks: what \<open>Box::into_raw\<close>, \<open>CString::new\<close> or the SASL allocator return is an address, what
  \<open>Box::from_raw\<close> and \<open>free\<close> take back is one. Using an address that is not allocated is undefined
  behaviour: \<open>None\<close>. A null pointer is \<open>None\<close> of type \<open>addr option\<close>.
\<close>

type_synonym addr = nat

record 'b store =
  st_next :: addr
  st_blocks :: "addr \<Rightarrow> 'b option"

definition store_new :: "'b store" where
  "store_new = \<lparr>st_next = 0, st_blocks = (\<lambda>_. None)\<rparr>"

definition block :: "'b store \<Rightarrow> addr \<Rightarrow> 'b option" where "block h a = st_blocks h a"

definition alloc :: "'b \<Rightarrow> 'b store \<Rightarrow> addr \<times> 'b store" where
  "alloc b h = (st_next h, h\<lparr>st_next := Suc (st_next h), st_blocks := (st_blocks h)(st_next h \<mapsto> b)\<rparr>)"

definition put :: "addr \<Rightarrow> 'b \<Rightarrow> 'b store \<Rightarrow> 'b store option" where
  "put a b h = (if block h a = None then None else Some (h\<lparr>st_blocks := (st_blocks h)(a \<mapsto> b)\<rparr>))"

definition free :: "addr \<Rightarrow> 'b store \<Rightarrow> 'b store option" where
  "free a h = (if block h a = None then None else Some (h\<lparr>st_blocks := (st_blocks h)(a := None)\<rparr>))"

definition store_wf :: "'b store \<Rightarrow> bool" where
  "store_wf h \<longleftrightarrow> (\<forall>a. st_next h \<le> a \<longrightarrow> block h a = None)"

lemmas store_eval [rust_defs] = store_new_def block_def alloc_def put_def free_def

text \<open>What the clients of an allocator rely on.\<close>

locale allocator =
  fixes wf :: "'h \<Rightarrow> bool"
    and get :: "'h \<Rightarrow> addr \<Rightarrow> 'b option"
    and alloc :: "'b \<Rightarrow> 'h \<Rightarrow> addr \<times> 'h"
    and put :: "addr \<Rightarrow> 'b \<Rightarrow> 'h \<Rightarrow> 'h option"
    and free :: "addr \<Rightarrow> 'h \<Rightarrow> 'h option"
  assumes alloc_fresh: "wf h \<Longrightarrow> alloc b h = (a, h') \<Longrightarrow> get h a = None"
    and alloc_get: "wf h \<Longrightarrow> alloc b h = (a, h') \<Longrightarrow> wf h' \<and> (\<forall>x. get h' x = (if x = a then Some b else get h x))"
    and put_get: "wf h \<Longrightarrow> get h a \<noteq> None \<Longrightarrow>
      \<exists>h'. put a b h = Some h' \<and> wf h' \<and> (\<forall>x. get h' x = (if x = a then Some b else get h x))"
    and free_get: "wf h \<Longrightarrow> get h a \<noteq> None \<Longrightarrow>
      \<exists>h'. free a h = Some h' \<and> wf h' \<and> (\<forall>x. get h' x = (if x = a then None else get h x))"
begin

text \<open>Giving an owner a new block: no block other than the owner changes, the new one is fresh.\<close>

lemma alloc_put:
  assumes "wf h" and "get h p \<noteq> None" and "alloc b h = (a, h1)"
  shows "\<exists>h2. put p c h1 = Some h2 \<and> wf h2 \<and> a \<noteq> p \<and> get h a = None \<and>
    (\<forall>x. get h2 x = (if x = p then Some c else if x = a then Some b else get h x))"
proof -
  have fresh: "get h a = None" by (rule alloc_fresh [OF assms(1,3)])
  with assms(2) have "a \<noteq> p" by auto
  moreover from alloc_get [OF assms(1,3)] have h1: "wf h1" "\<And>x. get h1 x = (if x = a then Some b else get h x)"
    by auto
  moreover from put_get [OF h1(1), of p c] obtain h2 where "put p c h1 = Some h2" "wf h2"
    "\<And>x. get h2 x = (if x = p then Some c else get h1 x)"
    using assms(2) h1(2) \<open>a \<noteq> p\<close> by auto
  ultimately show ?thesis using fresh by auto
qed

text \<open>Two blocks freed one after the other.\<close>

lemma free_two:
  assumes "wf h" and "get h a \<noteq> None" and "get h b \<noteq> None" and "a \<noteq> b"
  shows "\<exists>h1 h2. free a h = Some h1 \<and> free b h1 = Some h2 \<and> wf h2 \<and>
    (\<forall>x. get h1 x = (if x = a then None else get h x)) \<and>
    (\<forall>x. get h2 x = (if x = a \<or> x = b then None else get h x))"
proof -
  from free_get [OF assms(1,2)] obtain h1 where h1: "free a h = Some h1" "wf h1"
    "\<And>x. get h1 x = (if x = a then None else get h x)" by auto
  with assms(3,4) have "get h1 b \<noteq> None" by auto
  from free_get [OF h1(2) this] h1 show ?thesis by auto
qed

end

interpretation mem: allocator store_wf block alloc put free
  by unfold_locales (auto simp: store_wf_def block_def alloc_def put_def free_def)

lemma store_new_wf [simp]: "store_wf store_new"
  by (simp add: store_wf_def store_new_def block_def)

lemma block_new [simp]: "block store_new a = None"
  by (simp add: store_new_def block_def)

end
