(* ===== verification/Pam_Memory.thy ===== *)
theory Pam_Memory
  imports Pam_Auth Store
begin

text \<open>
  \<open>converse_secret\<close> of \<open>pam/src/ffi.rs\<close> over explicit memory. The application's conversation function
  allocates the response and the answer; the module reads the answer, overwrites it and frees both. A
  log of the freed blocks, with their contents, shows what is left to whoever reuses the memory.
\<close>

section \<open>Memory\<close>

text \<open>A \<open>pam_response\<close>, and the bytes its answer points to, the terminating NUL and all.\<close>

datatype conv_block = ResponseBlock "addr option" | AnswerBlock bytes

record pam_memory =
  pm_store :: "conv_block store"
  pm_freed :: "(addr \<times> conv_block) list"

text \<open>\<open>libc::free\<close>, \<open>CStr::from_ptr\<close> and \<open>memset(answer, 0, n)\<close>; reading or writing past the end of an
  allocation is undefined as well.\<close>

definition pm_free :: "addr \<Rightarrow> pam_memory \<Rightarrow> pam_memory option" where
  "pm_free a m =
     (case block (pm_store m) a of
        None \<Rightarrow> None
      | Some b \<Rightarrow> map_option (\<lambda>h. \<lparr>pm_store = h, pm_freed = pm_freed m @ [(a, b)]\<rparr>) (free a (pm_store m)))"

definition read_answer :: "addr \<Rightarrow> pam_memory \<Rightarrow> bytes option" where
  "read_answer a m =
     (case block (pm_store m) a of
        Some (AnswerBlock mem) \<Rightarrow> if CHR 0x00 \<in> set mem then Some (cstr mem) else None
      | _ \<Rightarrow> None)"

definition zero_answer :: "addr \<Rightarrow> nat \<Rightarrow> pam_memory \<Rightarrow> pam_memory option" where
  "zero_answer a n m =
     (case block (pm_store m) a of
        Some (AnswerBlock mem) \<Rightarrow>
          if length mem < n then None
          else map_option (\<lambda>h. m\<lparr>pm_store := h\<rparr>)
            (put a (AnswerBlock (replicate n (CHR 0x00) @ drop n mem)) (pm_store m))
      | _ \<Rightarrow> None)"

type_synonym conv_fn = "pam_message \<Rightarrow> pam_memory \<Rightarrow> c_int \<times> addr option \<times> pam_memory"

text \<open>\<open>None\<close>: undefined behaviour.\<close>

definition converse_secret_at :: "c_int \<times> conv_fn option option \<Rightarrow> bytes \<Rightarrow> pam_memory \<Rightarrow>
    ((c_int + bytes) \<times> pam_memory) option" where
  "converse_secret_at pam_conv prompt m =
     (let (rc, conv) = pam_conv in
      if rc \<noteq> PAM_SUCCESS then Some (Inl rc, m)
      else case Option.bind conv id of
        None \<Rightarrow> Some (Inl PAM_CONV_ERR, m)
      | Some conv_fn \<Rightarrow>
          (let (rc, resp, m) = conv_fn \<lparr>msg_style = PAM_PROMPT_ECHO_OFF, pam_msg = prompt\<rparr> m in
           if rc \<noteq> PAM_SUCCESS then Some (Inl rc, m)
           else case resp of
             None \<Rightarrow> Some (Inl PAM_CONV_ERR, m)
           | Some r \<Rightarrow>
               (case block (pm_store m) r of
                  Some (ResponseBlock None) \<Rightarrow> map_option (\<lambda>m. (Inl PAM_CONV_ERR, m)) (pm_free r m)
                | Some (ResponseBlock (Some answer)) \<Rightarrow>
                    Option.bind (read_answer answer m) (\<lambda>secret.
                    Option.bind (zero_answer answer (length secret) m) (\<lambda>m.
                    Option.bind (pm_free answer m) (\<lambda>m.
                    map_option (\<lambda>m. (Inr secret, m)) (pm_free r m))))
                | _ \<Rightarrow> None)))"

lemmas pam_memory_eval [rust_defs] =
  pm_free_def read_answer_def zero_answer_def converse_secret_at_def

section \<open>The conversation\<close>

text \<open>What PAM requires of an application: it reports failure without a response, or allocates a response,
  whose answer is null or a terminated string allocated by itself; it touches nothing else.\<close>

definition answers :: "pam_memory \<Rightarrow> pam_memory \<Rightarrow> addr option \<Rightarrow> bytes option option \<Rightarrow> bool" where
  "answers m m' resp seen \<longleftrightarrow> store_wf (pm_store m') \<and> pm_freed m' = pm_freed m \<and>
     (case resp of
        None \<Rightarrow> seen = None \<and> (\<forall>a. block (pm_store m') a = block (pm_store m) a)
      | Some r \<Rightarrow> block (pm_store m) r = None \<and>
          (\<exists>answer. block (pm_store m') r = Some (ResponseBlock answer) \<and>
             (case answer of
                None \<Rightarrow> seen = Some None \<and> (\<forall>a. a \<noteq> r \<longrightarrow> block (pm_store m') a = block (pm_store m) a)
              | Some a \<Rightarrow> a \<noteq> r \<and> block (pm_store m) a = None \<and>
                  (\<exists>mem. block (pm_store m') a = Some (AnswerBlock mem) \<and> CHR 0x00 \<in> set mem \<and>
                     seen = Some (Some (cstr mem))) \<and>
                  (\<forall>x. x \<noteq> r \<longrightarrow> x \<noteq> a \<longrightarrow> block (pm_store m') x = block (pm_store m) x))))"

text \<open>The conversation of the model without memory that a conversation on memory carries out.\<close>

definition carries_out :: "conv_fn \<Rightarrow> (pam_message \<Rightarrow> conv_result) \<Rightarrow> bool" where
  "carries_out f conv \<longleftrightarrow>
     (\<forall>prompt m rc resp m'. store_wf (pm_store m) \<longrightarrow> f prompt m = (rc, resp, m') \<longrightarrow>
        rc = conv_rc (conv prompt) \<and>
        (if rc = PAM_SUCCESS then answers m m' resp (conv_resp (conv prompt)) else answers m m' None None))"

lemma cstr_length: "length (cstr mem) \<le> length mem"
  by (simp add: cstr_def length_takeWhile_le)

lemma erased_prefix:
  assumes "CHR 0x00 \<in> set mem"
  shows "take (Suc (length (cstr mem))) (replicate (length (cstr mem)) (CHR 0x00) @ drop (length (cstr mem)) mem) =
    replicate (Suc (length (cstr mem))) (CHR 0x00)"
proof -
  from split_list_first [OF assms] obtain ys zs where mem: "mem = ys @ CHR 0x00 # zs" "CHR 0x00 \<notin> set ys" by blast
  then have "cstr mem = ys" by (auto simp: cstr_def takeWhile_append)
  with mem(1) show ?thesis by (simp add: replicate_append_same)
qed

text \<open>Reading, erasing and freeing an answer and its response.\<close>

lemma erase_and_free:
  assumes wf: "store_wf (pm_store m)" and r: "block (pm_store m) r = Some (ResponseBlock (Some a))"
    and a: "block (pm_store m) a = Some (AnswerBlock mem)" "CHR 0x00 \<in> set mem" and ar: "a \<noteq> r"
  shows "\<exists>m1 m2 m3. read_answer a m = Some (cstr mem) \<and>
    zero_answer a (length (cstr mem)) m = Some m1 \<and> pm_free a m1 = Some m2 \<and> pm_free r m2 = Some m3 \<and>
    (\<forall>x. block (pm_store m3) x = (if x = a \<or> x = r then None else block (pm_store m) x)) \<and>
    pm_freed m3 = pm_freed m @
      [(a, AnswerBlock (replicate (length (cstr mem)) (CHR 0x00) @ drop (length (cstr mem)) mem)),
       (r, ResponseBlock (Some a))]"
proof -
  let ?z = "AnswerBlock (replicate (length (cstr mem)) (CHR 0x00) @ drop (length (cstr mem)) mem)"
  from mem.put_get [OF wf, of a ?z] a(1) obtain h1 where h1: "put a ?z (pm_store m) = Some h1" "store_wf h1"
    "\<And>x. block h1 x = (if x = a then Some ?z else block (pm_store m) x)" by auto
  from mem.free_two [OF h1(2), of a r] ar r h1(3) obtain h2 h3 where h2: "free a h1 = Some h2" "free r h2 = Some h3"
    "\<And>x. block h2 x = (if x = a then None else block h1 x)"
    "\<And>x. block h3 x = (if x = a \<or> x = r then None else block h1 x)" by auto
  have "read_answer a m = Some (cstr mem)" "zero_answer a (length (cstr mem)) m = Some (m\<lparr>pm_store := h1\<rparr>)"
    using a h1(1) cstr_length [of mem] by (simp_all add: read_answer_def zero_answer_def)
  with h1 h2 r ar show ?thesis
    by (auto simp: pm_free_def)
qed

text \<open>What both versions do once the conversation function is there.\<close>

lemma converse_secret_asks:
  assumes "pam_get_conv pam = (rc, Some (Some conv))" and "rc = PAM_SUCCESS"
  shows "converse_secret pam prompt =
    (let r = conv \<lparr>msg_style = PAM_PROMPT_ECHO_OFF, pam_msg = prompt\<rparr> in
     if conv_rc r \<noteq> PAM_SUCCESS then Inl (conv_rc r)
     else case conv_resp r of None \<Rightarrow> Inl PAM_CONV_ERR | Some answer \<Rightarrow> ok_or PAM_CONV_ERR answer)"
  using assms by (simp add: converse_secret_def)

lemma converse_secret_at_asks:
  assumes "rc = PAM_SUCCESS" and "f \<lparr>msg_style = PAM_PROMPT_ECHO_OFF, pam_msg = prompt\<rparr> m = (rc1, resp, m1)"
  shows "converse_secret_at (rc, Some (Some f)) prompt m = (if rc1 \<noteq> PAM_SUCCESS then Some (Inl rc1, m1)
      else case resp of None \<Rightarrow> Some (Inl PAM_CONV_ERR, m1) | Some r \<Rightarrow>
        (case block (pm_store m1) r of
           Some (ResponseBlock None) \<Rightarrow> map_option (\<lambda>m. (Inl PAM_CONV_ERR, m)) (pm_free r m1)
         | Some (ResponseBlock (Some answer)) \<Rightarrow>
             Option.bind (read_answer answer m1) (\<lambda>secret.
             Option.bind (zero_answer answer (length secret) m1) (\<lambda>m.
             Option.bind (pm_free answer m) (\<lambda>m.
             map_option (\<lambda>m. (Inr secret, m)) (pm_free r m))))
         | _ \<Rightarrow> None))"
  using assms by (simp add: converse_secret_at_def)

text \<open>The three ways a conversation ends.\<close>

lemma conversation_cases:
  assumes "if ok then answers m m1 resp seen else answers m m1 None None"
  obtains (nothing) "\<not> ok \<or> resp = None" "ok \<longrightarrow> seen = None"
      "\<forall>x. block (pm_store m1) x = block (pm_store m) x" "pm_freed m1 = pm_freed m"
  | (empty) r where "ok" "resp = Some r" "seen = Some None" "store_wf (pm_store m1)" "pm_freed m1 = pm_freed m"
      "block (pm_store m1) r = Some (ResponseBlock None)" "block (pm_store m) r = None"
      "\<And>x. x \<noteq> r \<Longrightarrow> block (pm_store m1) x = block (pm_store m) x"
  | (answer) r a bytes where "ok" "resp = Some r" "seen = Some (Some (cstr bytes))" "store_wf (pm_store m1)"
      "pm_freed m1 = pm_freed m" "a \<noteq> r" "block (pm_store m1) r = Some (ResponseBlock (Some a))"
      "block (pm_store m1) a = Some (AnswerBlock bytes)" "CHR 0x00 \<in> set bytes"
      "block (pm_store m) r = None" "block (pm_store m) a = None"
      "\<And>x. x \<noteq> r \<Longrightarrow> x \<noteq> a \<Longrightarrow> block (pm_store m1) x = block (pm_store m) x"
proof -
  from assms consider "\<not> ok \<or> resp = None" | r where "ok" "resp = Some r" "answers m m1 (Some r) seen"
    by (cases resp) (auto split: if_splits)
  then show thesis
  proof cases
    case 1
    with assms have "ok \<longrightarrow> seen = None" "\<forall>x. block (pm_store m1) x = block (pm_store m) x"
      "pm_freed m1 = pm_freed m" by (auto simp: answers_def split: if_splits)
    with 1 show thesis by (rule nothing)
  next
    case (2 r)
    then obtain ans where r: "block (pm_store m1) r = Some (ResponseBlock ans)" by (auto simp: answers_def)
    show thesis
    proof (cases ans)
      case None
      with 2 r show thesis by (intro empty [of r]) (auto simp: answers_def)
    next
      case (Some a)
      with 2 r obtain bytes where "block (pm_store m1) a = Some (AnswerBlock bytes)" "CHR 0x00 \<in> set bytes"
        "seen = Some (Some (cstr bytes))" by (auto simp: answers_def)
      with 2 r Some show thesis by (intro answer [of r bytes a]) (auto simp: answers_def)
    qed
  qed
qed

section \<open>Properties\<close>

text \<open>C18: The secret does not outlive the conversation: \<open>converse_secret\<close> on memory returns what the model
  without memory returns, frees what the application allocated and nothing else, exactly once, and
  every answer it frees has been overwritten with zeros up to its terminator.\<close>

theorem secret_erased:
  assumes "pam_get_conv pam = (rc, Some (Some conv))" and "carries_out f conv" and "store_wf (pm_store m)"
    and "pm_freed m = []"
  shows "\<exists>m'. converse_secret_at (rc, Some (Some f)) prompt m = Some (converse_secret pam prompt, m') \<and>
    (\<forall>a. block (pm_store m') a = block (pm_store m) a) \<and> distinct (map fst (pm_freed m')) \<and>
    (\<forall>a mem. (a, AnswerBlock mem) \<in> set (pm_freed m') \<longrightarrow>
       (\<forall>secret. converse_secret pam prompt = Inr secret \<longrightarrow>
          take (Suc (length secret)) mem = replicate (Suc (length secret)) (CHR 0x00)))"
proof (cases "rc = PAM_SUCCESS")
  case False
  with assms show ?thesis by (auto simp: converse_secret_at_def converse_secret_def)
next
  case rc: True
  let ?q = "\<lparr>msg_style = PAM_PROMPT_ECHO_OFF, pam_msg = prompt\<rparr>"
  obtain rc1 resp m1 where f: "f ?q m = (rc1, resp, m1)" by (metis prod_cases3)
  with assms(2,3) have rc1: "rc1 = conv_rc (conv ?q)"
    and ans: "if rc1 = PAM_SUCCESS then answers m m1 resp (conv_resp (conv ?q)) else answers m m1 None None"
    unfolding carries_out_def by blast+
  note pure = converse_secret_asks [where prompt = prompt, OF assms(1) rc, unfolded Let_def, folded rc1]
    and mem = converse_secret_at_asks [where f = f, OF rc f]
  from ans show ?thesis
  proof (cases rule: conversation_cases)
    case nothing
    with assms(4) show ?thesis by (auto simp: pure mem)
  next
    case (empty r)
    from mem.free_get [OF empty(4), of r] empty(6) obtain h where "free r (pm_store m1) = Some h"
      "\<And>x. block h x = (if x = r then None else block (pm_store m1) x)" by auto
    with empty assms(4) show ?thesis by (auto simp: pure mem pm_free_def)
  next
    case (answer r a bytes)
    from erase_and_free [OF answer(4) answer(7,8,9,6)] obtain m2 m3 m4 where e: "read_answer a m1 = Some (cstr bytes)"
      "zero_answer a (length (cstr bytes)) m1 = Some m2" "pm_free a m2 = Some m3" "pm_free r m3 = Some m4"
      "\<And>x. block (pm_store m4) x = (if x = a \<or> x = r then None else block (pm_store m1) x)"
      "pm_freed m4 = pm_freed m1 @
        [(a, AnswerBlock (replicate (length (cstr bytes)) (CHR 0x00) @ drop (length (cstr bytes)) bytes)),
         (r, ResponseBlock (Some a))]"
      by blast
    from e have "converse_secret_at (rc, Some (Some f)) prompt m = Some (converse_secret pam prompt, m4)"
      using answer by (simp add: pure mem)
    moreover have "\<forall>x. block (pm_store m4) x = block (pm_store m) x" using e(5) answer by auto
    ultimately show ?thesis
      using e(6) answer assms(4) erased_prefix [OF answer(9)] by (auto simp: pure)
  qed
qed

text \<open>An application that answers with a token.\<close>

definition sample_conv_fn :: conv_fn where
  "sample_conv_fn prompt m =
     (let (a, h1) = alloc (AnswerBlock (''token'' @ [CHR 0x00])) (pm_store m);
          (r, h2) = alloc (ResponseBlock (Some a)) h1
      in (PAM_SUCCESS, Some r, m\<lparr>pm_store := h2\<rparr>))"

definition sample_conv_pam :: pam_handle where
  "sample_conv_pam = \<lparr>pam_get_user = (PAM_SUCCESS, Some ''alice''), pam_get_item = (\<lambda>i. (PAM_SUCCESS, None)),
     pam_get_conv = (PAM_SUCCESS, Some (Some (\<lambda>p. \<lparr>conv_rc = PAM_SUCCESS, conv_resp = Some (Some ''token'')\<rparr>))),
     getpwnam_r = (\<lambda>u. (0, True))\<rparr>"

lemma sample_carries_out:
  "carries_out sample_conv_fn (\<lambda>p. \<lparr>conv_rc = PAM_SUCCESS, conv_resp = Some (Some ''token'')\<rparr>)"
proof -
  have "cstr (''token'' @ [CHR 0x00]) = ''token''" by code_simp
  then show ?thesis
    by (auto simp: carries_out_def sample_conv_fn_def alloc_def answers_def store_wf_def block_def)
qed

theorem secret_erased_witness:
  "\<exists>m'. converse_secret_at (PAM_SUCCESS, Some (Some sample_conv_fn)) ''Access Token: '' \<lparr>pm_store = store_new, pm_freed = []\<rparr> =
     Some (Inr ''token'', m') \<and> (\<forall>a. block (pm_store m') a = None)"
proof -
  let ?m = "\<lparr>pm_store = store_new, pm_freed = []\<rparr>"
  have conv: "pam_get_conv sample_conv_pam =
      (PAM_SUCCESS, Some (Some (\<lambda>p. \<lparr>conv_rc = PAM_SUCCESS, conv_resp = Some (Some ''token'')\<rparr>)))"
    by (simp add: sample_conv_pam_def)
  have "converse_secret sample_conv_pam ''Access Token: '' = Inr ''token''" by code_simp
  moreover have "store_wf (pm_store ?m)" "pm_freed ?m = []" by simp_all
  from secret_erased [OF conv sample_carries_out this, of "''Access Token: ''"]
  obtain m' where "converse_secret_at (PAM_SUCCESS, Some (Some sample_conv_fn)) ''Access Token: '' ?m =
      Some (converse_secret sample_conv_pam ''Access Token: '', m')" "\<forall>a. block (pm_store m') a = block (pm_store ?m) a"
    by blast
  ultimately show ?thesis by auto
qed

end
