(* ===== verification/Pam_Threads.thy ===== *)
theory Pam_Threads
  imports Pam_Auth
begin

text \<open>
  Calls of the PAM module by several threads of one process, interleaved where the code lets them: the
  cache is shared, \<open>cache::config\<close> and \<open>Config::verifier\<close> look at their file before they take their mutex,
  and hold it for the rest. Between two steps of a call any other thread may change the cache, replace
  the configuration the call holds in the map, or rebuild the verifier it is about to use, and any file
  may change. No step takes a second mutex, so there is nothing to deadlock on.
\<close>

section \<open>One call\<close>

text \<open>Where a call of \<open>authenticate\<close> is, with the local variables that are live there: before \<open>config\<close>, before
  its mutex, with a configuration, with user and token, before the mutex of the configuration (the issuer
  and path it read, and the stamp of the key file), and with the result of \<open>verifier\<close>.\<close>

datatype 'k pc =
  Entered
| CacheLock "bytes option" "stamp option"
| Configured nat
| HasToken nat bytes bytes
| VerifierLock nat bytes bytes bytes bytes stamp
| Checking bytes bytes "(cache_error + 'k jwt_verifier) flow"
| Returned "c_int flow"

text \<open>Besides its arguments a frame records, for the statements below, what the system answered to
  \<open>config\<close>, to \<open>verifier\<close> and to \<open>verify\<close>; the code has no such variables.\<close>

record 'k frame =
  fr_pam :: pam_handle
  fr_args :: "bytes list"
  fr_pc :: "'k pc"
  fr_authtok :: "bytes option"
  fr_os1 :: os_view
  fr_os2 :: os_view
  fr_clock :: "u64 option"

record env =
  ev_os :: os_view
  ev_clock :: "u64 option"

definition stat_by :: "os_view \<Rightarrow> os_view \<Rightarrow> os_view" where
  "stat_by seen os = os\<lparr>os_stat := os_stat seen\<rparr>"

definition user_and_token :: "pam_handle \<Rightarrow> pam_args \<Rightarrow> (c_int + bytes \<times> bytes) \<times> bytes option" where
  "user_and_token pam args =
     (if rhost_denied pam args then (Inl PAM_IGNORE, None)
      else case pam_user pam of
        Inl rc \<Rightarrow> (Inl (if rc = PAM_SUCCESS then PAM_AUTH_ERR else rc), None)
      | Inr user \<Rightarrow>
          (case account_exists pam user of
             Inl rc \<Rightarrow> (Inl rc, None)
           | Inr _ \<Rightarrow>
               (let (tok, authtok) = obtain_token pam
                in (and_then tok (\<lambda>tok. Inr (user, tok)), authtok))))"

text \<open>A step of a call, on the shared cache. \<open>None\<close>: it does not return, or has returned.\<close>

definition frame_step :: "('j, 'k) jwt_lib \<Rightarrow> env \<Rightarrow> 'k cache_state \<Rightarrow> 'k frame \<Rightarrow>
    ('k frame \<times> 'k cache_state) option" where
  "frame_step lib e st f =
     (case fr_pc f of
        Entered \<Rightarrow>
          (case and_then (config_path (fr_args f)) (\<lambda>path.
                and_then (config_stat (ev_os e) path) (\<lambda>current. Inr (path, current))) of
             Inl err \<Rightarrow> Some (f\<lparr>fr_pc := Returned (Ret PAM_SYSTEM_ERR)\<rparr>, st)
           | Inr (path, current) \<Rightarrow> Some (f\<lparr>fr_pc := CacheLock path current, fr_os1 := ev_os e\<rparr>, st))
      | CacheLock path current \<Rightarrow>
          map_option (\<lambda>(r, st'). (f\<lparr>fr_pc := (case r of
                Panic \<Rightarrow> Returned Panic
              | Ret (Inl err) \<Rightarrow> Returned (Ret PAM_SYSTEM_ERR)
              | Ret (Inr cid) \<Rightarrow> Configured cid), fr_os1 := stat_by (fr_os1 f) (ev_os e)\<rparr>, st'))
            (config_locked (ev_os e) (fr_args f) path current st)
      | Configured cid \<Rightarrow>
          (let (r, authtok) = user_and_token (fr_pam f) (cfg_args (configs st ! cid))
           in Some (f\<lparr>fr_authtok := authtok, fr_pc := (case r of
                  Inl rc \<Rightarrow> Returned (Ret rc)
                | Inr (user, tok) \<Rightarrow> HasToken cid user tok)\<rparr>, st))
      | HasToken cid user tok \<Rightarrow>
          (let args = cfg_args (configs st ! cid) in
           case (iss args, jwks args) of
             (Some issuer, Some path) \<Rightarrow>
               (case os_stat (ev_os e) path of
                  Inl err \<Rightarrow> Some (f\<lparr>fr_pc := Checking user tok (Ret (Inl (ReadError (FailedToReadJwks err))))\<rparr>, st)
                | Inr meta \<Rightarrow>
                    Some (f\<lparr>fr_pc := VerifierLock cid user tok issuer path (stamp_of meta), fr_os2 := ev_os e\<rparr>, st))
           | _ \<Rightarrow> Some (f\<lparr>fr_pc := Checking user tok (Ret (Inl (ReadError IssOrJwksMissing)))\<rparr>, st))
      | VerifierLock cid user tok issuer path current \<Rightarrow>
          (let (r, cfg) = verifier_locked lib (ev_os e) issuer path current (configs st ! cid)
           in Some (f\<lparr>fr_pc := Checking user tok r, fr_os2 := stat_by (fr_os2 f) (ev_os e)\<rparr>,
                st\<lparr>configs := (configs st)[cid := cfg]\<rparr>))
      | Checking user tok r \<Rightarrow> Some (f\<lparr>fr_pc := Returned (check_token lib (ev_clock e) user tok r), fr_clock := ev_clock e\<rparr>, st)
      | Returned rc \<Rightarrow> None)"

definition enter :: "pam_handle \<Rightarrow> bytes list \<Rightarrow> os_view \<Rightarrow> 'k frame" where
  "enter pam raw_args os =
     \<lparr>fr_pam = pam, fr_args = raw_args, fr_pc = Entered, fr_authtok = None, fr_os1 = os, fr_os2 = os, fr_clock = None\<rparr>"

fun returned_with :: "'k pc \<Rightarrow> c_int flow option" where
  "returned_with (Returned rc) = Some rc"
| "returned_with _ = None"

text \<open>How many steps of its own a call still has at most.\<close>

fun rank :: "'k pc \<Rightarrow> nat" where
  "rank Entered = 6"
| "rank (CacheLock path current) = 5"
| "rank (Configured cid) = 4"
| "rank (HasToken cid user tok) = 3"
| "rank (VerifierLock cid user tok issuer path s) = 2"
| "rank (Checking user tok r) = 1"
| "rank (Returned rc) = 0"

section \<open>The process\<close>

text \<open>\<open>None\<close>: the thread is not in the module.\<close>

record 'k process =
  ps_cache :: "'k cache_state"
  ps_threads :: "nat \<Rightarrow> 'k frame option"

definition process_start :: "'k process" where
  "process_start = \<lparr>ps_cache = cache_new, ps_threads = (\<lambda>_. None)\<rparr>"

inductive pstep :: "('j, 'k) jwt_lib \<Rightarrow> history \<Rightarrow> 'k process \<Rightarrow> 'k process \<Rightarrow> bool"
  for lib hist where
  call: "ps_threads s t = None \<Longrightarrow>
    pstep lib hist s (s\<lparr>ps_threads := (ps_threads s)(t := Some (enter pam raw_args os))\<rparr>)"
| run: "ps_threads s t = Some f \<Longrightarrow> os_honest hist (ev_os e) \<Longrightarrow>
    frame_step lib e (ps_cache s) f = Some (f', st') \<Longrightarrow>
    pstep lib hist s (s\<lparr>ps_cache := st', ps_threads := (ps_threads s)(t := Some f')\<rparr>)"
| leave: "ps_threads s t = Some f \<Longrightarrow> returned_with (fr_pc f) \<noteq> None \<Longrightarrow>
    pstep lib hist s (s\<lparr>ps_threads := (ps_threads s)(t := None)\<rparr>)"

inductive_cases pstepE: "pstep lib hist s s'"

section \<open>The locked parts in terms of the whole operations\<close>

lemma os_honest_stat_by [simp]: "os_honest hist (stat_by seen os) = os_honest hist os"
  by (simp add: os_honest_def stat_by_def)

lemma load_config_stat_by [simp]: "load_config (stat_by seen os) raw_args path = load_config os raw_args path"
  by (cases path) (simp_all add: load_config_def stat_by_def)

lemma config_stat_stat_by [simp]: "config_stat (stat_by seen os) path = config_stat seen path"
  by (cases path) (simp_all add: config_stat_def stat_by_def)

lemma cache_config_stat_by:
  assumes "config_path raw_args = Inr path" and "config_stat seen path = Inr current"
  shows "cache_config (stat_by seen os) raw_args st = config_locked os raw_args path current st"
  using assms by (simp add: cache_config_def) (simp only: config_locked_def load_config_stat_by)

lemma config_verifier_stat_by:
  assumes "iss (cfg_args cfg) = Some issuer" and "jwks (cfg_args cfg) = Some p" and "os_stat seen p = Inr meta"
  shows "config_verifier lib (stat_by seen os) cfg = verifier_locked lib os issuer p (stamp_of meta) cfg"
  using assms by (simp add: config_verifier_def verifier_locked_def build_verifier_def stat_by_def)

section \<open>What other threads leave alone\<close>

text \<open>A configuration that a call holds stays where it is, and its arguments never change.\<close>

definition extends :: "'k cache_state \<Rightarrow> 'k cache_state \<Rightarrow> bool" where
  "extends st st' \<longleftrightarrow> length (configs st) \<le> length (configs st') \<and>
     (\<forall>cid < length (configs st). cfg_args (configs st' ! cid) = cfg_args (configs st ! cid))"

lemma extends_refl [simp]: "extends st st"
  by (simp add: extends_def)

lemma cache_config_extends:
  assumes "cache_config os raw_args st = Some (r, st')"
  shows "extends st st'"
  using assms
proof (cases rule: cache_config_cases)
  case (load path args stmp cid)
  then show ?thesis by (auto simp: extends_def cache_store_def nth_append Let_def)
qed simp_all

lemma config_verifier_args: "config_verifier lib os cfg = (r, cfg') \<Longrightarrow> cfg_args cfg' = cfg_args cfg"
  by (erule config_verifier_cases) simp_all

lemma extends_update:
  assumes "cfg_args cfg = cfg_args (configs st ! cid)"
  shows "extends st (st\<lparr>configs := (configs st)[cid := cfg]\<rparr>)"
  using assms by (cases "cid < length (configs st)") (auto simp: extends_def nth_list_update list_update_beyond)

section \<open>The invariant of a process\<close>

definition holds_config :: "history \<Rightarrow> 'k cache_state \<Rightarrow> 'k frame \<Rightarrow> nat \<Rightarrow> bool" where
  "holds_config hist st f cid \<longleftrightarrow> cid < length (configs st) \<and>
     denoted_args hist (fr_os1 f) (fr_args f) (cfg_args (configs st ! cid))"

definition admitted :: "'k frame \<Rightarrow> pam_args \<Rightarrow> bytes \<Rightarrow> bytes \<Rightarrow> bool" where
  "admitted f args user tok \<longleftrightarrow> \<not> rhost_denied (fr_pam f) args \<and> pam_user (fr_pam f) = Inr user \<and>
     fst (obtain_token (fr_pam f)) = Inr tok"

text \<open>What a call that has a verifier, or returned success, knows.\<close>

definition justified :: "('j, 'k) jwt_lib \<Rightarrow> history \<Rightarrow> 'k frame \<Rightarrow> bytes \<Rightarrow> bytes \<Rightarrow> 'k jwt_verifier \<Rightarrow> bool" where
  "justified lib hist f user tok v \<longleftrightarrow> (\<exists>args. denoted_args hist (fr_os1 f) (fr_args f) args \<and>
     admitted f args user tok \<and> current_verifier lib hist (fr_os2 f) args v)"

lemma justified_return [simp]:
  "justified lib hist (f\<lparr>fr_pc := pc, fr_clock := clock\<rparr>) = justified lib hist f"
  by (simp add: justified_def admitted_def fun_eq_iff)

fun pc_ok :: "('j, 'k) jwt_lib \<Rightarrow> history \<Rightarrow> 'k cache_state \<Rightarrow> 'k frame \<Rightarrow> 'k pc \<Rightarrow> bool" where
  "pc_ok lib hist st f Entered \<longleftrightarrow> True"
| "pc_ok lib hist st f (CacheLock path current) \<longleftrightarrow>
     config_path (fr_args f) = Inr path \<and> config_stat (fr_os1 f) path = Inr current"
| "pc_ok lib hist st f (Configured cid) \<longleftrightarrow> holds_config hist st f cid"
| "pc_ok lib hist st f (HasToken cid user tok) \<longleftrightarrow>
     holds_config hist st f cid \<and> admitted f (cfg_args (configs st ! cid)) user tok"
| "pc_ok lib hist st f (VerifierLock cid user tok issuer p s) \<longleftrightarrow>
     holds_config hist st f cid \<and> admitted f (cfg_args (configs st ! cid)) user tok \<and>
     iss (cfg_args (configs st ! cid)) = Some issuer \<and> jwks (cfg_args (configs st ! cid)) = Some p \<and>
     (\<exists>meta. os_stat (fr_os2 f) p = Inr meta \<and> s = stamp_of meta)"
| "pc_ok lib hist st f (Checking user tok r) \<longleftrightarrow>
     r \<noteq> Panic \<and> (\<forall>v. r = Ret (Inr v) \<longrightarrow> justified lib hist f user tok v)"
| "pc_ok lib hist st f (Returned rc) \<longleftrightarrow>
     rc \<noteq> Panic \<and> (rc = Ret PAM_SUCCESS \<longrightarrow>
       (\<exists>user tok v. justified lib hist f user tok v \<and> verify lib (fr_clock f) v tok = Inr user))"

definition process_inv :: "('j, 'k) jwt_lib \<Rightarrow> history \<Rightarrow> 'k process \<Rightarrow> bool" where
  "process_inv lib hist s \<longleftrightarrow> cache_inv lib hist (ps_cache s) \<and>
     (\<forall>t f. ps_threads s t = Some f \<longrightarrow> pc_ok lib hist (ps_cache s) f (fr_pc f))"

text \<open>The steps of other threads do not disturb a call.\<close>

lemma pc_ok_extends:
  assumes "pc_ok lib hist st f pc" and "extends st st'"
  shows "pc_ok lib hist st' f pc"
  using assms by (cases pc) (auto simp: holds_config_def extends_def)

lemma user_and_token_Inr:
  "fst (user_and_token pam args) = Inr (user, tok) \<Longrightarrow>
     \<not> rhost_denied pam args \<and> pam_user pam = Inr user \<and> fst (obtain_token pam) = Inr tok"
  by (auto simp: user_and_token_def Let_def result_simps split: if_splits sum.splits prod.splits)

lemma user_and_token_Inl: "fst (user_and_token pam args) = Inl rc \<Longrightarrow> rc \<noteq> PAM_SUCCESS"
  using obtain_token_Inl [of pam]
  by (auto simp: user_and_token_def Let_def result_simps account_exists_def pam_codes
      split: if_splits sum.splits prod.splits)

lemma config_locked_inv:
  assumes "cache_inv lib hist st" and "os_honest hist os" and "config_path raw_args = Inr path"
    and "config_stat seen path = Inr current"
  obtains r st' where "config_locked os raw_args path current st = Some (Ret r, st')" "cache_inv lib hist st'"
    "extends st st'"
    "\<And>cid. r = Inr cid \<Longrightarrow> cid < length (configs st') \<and>
       denoted_args hist (stat_by seen os) raw_args (cfg_args (configs st' ! cid))"
proof -
  have h: "os_honest hist (stat_by seen os)" using assms(2) by simp
  obtain r st' where c: "cache_config (stat_by seen os) raw_args st = Some (Ret r, st')"
    using cache_config_returns [OF h] by blast
  show thesis
  proof (rule that)
    show "config_locked os raw_args path current st = Some (Ret r, st')"
      using c by (simp add: cache_config_stat_by [OF assms(3,4)])
    show "cache_inv lib hist st'" by (rule cache_config_inv [OF assms(1) h c])
    show "extends st st'" by (rule cache_config_extends [OF c])
    show "cid < length (configs st') \<and> denoted_args hist (stat_by seen os) raw_args (cfg_args (configs st' ! cid))"
      if "r = Inr cid" for cid
      by (rule cache_config_Inr [OF assms(1) h c [unfolded that]])
  qed
qed

lemma verifier_locked_inv:
  assumes "cache_inv lib hist st" and "os_honest hist os" and "cid < length (configs st)"
    and "iss (cfg_args (configs st ! cid)) = Some issuer" and "jwks (cfg_args (configs st ! cid)) = Some p"
    and "os_stat seen p = Inr meta"
  obtains r cfg where "verifier_locked lib os issuer p (stamp_of meta) (configs st ! cid) = (Ret r, cfg)"
    "cache_inv lib hist (st\<lparr>configs := (configs st)[cid := cfg]\<rparr>)"
    "extends st (st\<lparr>configs := (configs st)[cid := cfg]\<rparr>)"
    "\<And>v. r = Inr v \<Longrightarrow> current_verifier lib hist (stat_by seen os) (cfg_args (configs st ! cid)) v"
proof -
  have h: "os_honest hist (stat_by seen os)" using assms(2) by simp
  obtain r cfg where c: "config_verifier lib (stat_by seen os) (configs st ! cid) = (Ret r, cfg)"
    using cache_verifier_returns [OF h] by (metis prod.collapse)
  then have cv: "cache_verifier lib (stat_by seen os) cid st = (Ret r, st\<lparr>configs := (configs st)[cid := cfg]\<rparr>)"
    by (simp add: cache_verifier_def)
  show thesis
  proof (rule that)
    show "verifier_locked lib os issuer p (stamp_of meta) (configs st ! cid) = (Ret r, cfg)"
      using c by (simp add: config_verifier_stat_by [where cfg = "configs st ! cid", OF assms(4-6)])
    show "cache_inv lib hist (st\<lparr>configs := (configs st)[cid := cfg]\<rparr>)"
      by (rule cache_verifier_inv [OF assms(1) h cv])
    show "extends st (st\<lparr>configs := (configs st)[cid := cfg]\<rparr>)"
      by (rule extends_update [OF config_verifier_args [OF c]])
    show "current_verifier lib hist (stat_by seen os) (cfg_args (configs st ! cid)) v" if "r = Inr v" for v
      by (rule cache_verifier_current [OF assms(1) h assms(3) cv [unfolded that]])
  qed
qed

text \<open>A step of a call returns, brings it closer to its end, and keeps what the call and the cache know.\<close>

lemma frame_step_ok:
  assumes inv: "cache_inv lib hist st" and pc: "pc_ok lib hist st f (fr_pc f)" and honest: "os_honest hist (ev_os e)"
    and "returned_with (fr_pc f) = None"
  shows "\<exists>f' st'. frame_step lib e st f = Some (f', st') \<and> rank (fr_pc f') < rank (fr_pc f) \<and>
    cache_inv lib hist st' \<and> extends st st' \<and> pc_ok lib hist st' f' (fr_pc f')"
proof (cases "fr_pc f")
  case Entered
  then show ?thesis
    using inv by (auto simp: frame_step_def result_simps PAM_SUCCESS_def PAM_SYSTEM_ERR_def split: sum.splits)
next
  case (CacheLock path current)
  with pc config_locked_inv [OF inv honest, of "fr_args f" path "fr_os1 f" current]
  obtain r st' where "config_locked (ev_os e) (fr_args f) path current st = Some (Ret r, st')"
    "cache_inv lib hist st'" "extends st st'"
    "\<And>cid. r = Inr cid \<Longrightarrow> cid < length (configs st') \<and>
       denoted_args hist (stat_by (fr_os1 f) (ev_os e)) (fr_args f) (cfg_args (configs st' ! cid))"
    by auto
  with CacheLock show ?thesis
    by (cases r) (simp_all add: frame_step_def holds_config_def pam_codes)
next
  case (Configured cid)
  obtain r authtok where ut: "user_and_token (fr_pam f) (cfg_args (configs st ! cid)) = (r, authtok)" by force
  with user_and_token_Inr [of "fr_pam f" "cfg_args (configs st ! cid)"]
    user_and_token_Inl [of "fr_pam f" "cfg_args (configs st ! cid)"] Configured pc inv
  show ?thesis
    by (cases r) (auto simp: frame_step_def holds_config_def admitted_def)
next
  case (HasToken cid user tok)
  with pc inv show ?thesis
    by (auto simp: frame_step_def holds_config_def admitted_def Let_def split: option.splits sum.splits)
next
  case (VerifierLock cid user tok issuer p s)
  with pc obtain meta where meta: "os_stat (fr_os2 f) p = Inr meta" "s = stamp_of meta" by auto
  from VerifierLock pc have held: "cid < length (configs st)" "iss (cfg_args (configs st ! cid)) = Some issuer"
    "jwks (cfg_args (configs st ! cid)) = Some p"
    "denoted_args hist (fr_os1 f) (fr_args f) (cfg_args (configs st ! cid))"
    "admitted f (cfg_args (configs st ! cid)) user tok"
    by (auto simp: holds_config_def)
  from verifier_locked_inv [OF inv honest held(1-3) meta(1)]
  obtain r cfg where "verifier_locked lib (ev_os e) issuer p s (configs st ! cid) = (Ret r, cfg)"
    "cache_inv lib hist (st\<lparr>configs := (configs st)[cid := cfg]\<rparr>)"
    "extends st (st\<lparr>configs := (configs st)[cid := cfg]\<rparr>)"
    "\<And>v. r = Inr v \<Longrightarrow> current_verifier lib hist (stat_by (fr_os2 f) (ev_os e)) (cfg_args (configs st ! cid)) v"
    unfolding meta(2) by blast
  with VerifierLock held(4,5) show ?thesis
    by (auto simp: frame_step_def justified_def admitted_def)
next
  case (Checking user tok r)
  with pc inv show ?thesis
    by (auto simp: frame_step_def check_token_SUCCESS check_token_Panic)
next
  case (Returned rc)
  with assms(4) show ?thesis by simp
qed

lemma process_inv_step:
  assumes "process_inv lib hist s" and "pstep lib hist s s'"
  shows "process_inv lib hist s'"
  using assms(2)
proof cases
  case (call t pam raw_args os)
  with assms(1) show ?thesis by (auto simp: process_inv_def enter_def)
next
  case (run t f e f' st')
  then have "returned_with (fr_pc f) = None" by (cases "fr_pc f") (auto simp: frame_step_def)
  with frame_step_ok [of lib hist "ps_cache s" f e] run assms(1)
  have "cache_inv lib hist st'" "extends (ps_cache s) st'" "pc_ok lib hist st' f' (fr_pc f')"
    by (auto simp: process_inv_def)
  with run(1) assms(1) show ?thesis
    by (auto simp: process_inv_def intro: pc_ok_extends)
next
  case (leave t f)
  with assms(1) show ?thesis by (auto simp: process_inv_def)
qed

lemma process_inv_reachable:
  "rtranclp (pstep lib hist) process_start s \<Longrightarrow> process_inv lib hist s"
proof (induction rule: rtranclp_induct)
  case base
  show ?case by (simp add: process_inv_def process_start_def cache_new_inv)
next
  case (step s s')
  then show ?case by (blast intro: process_inv_step)
qed

section \<open>A call that runs alone\<close>

fun run_alone :: "nat \<Rightarrow> ('j, 'k) jwt_lib \<Rightarrow> u64 option \<Rightarrow> os_view \<Rightarrow> os_view \<Rightarrow> 'k cache_state \<Rightarrow> 'k frame \<Rightarrow>
    ('k frame \<times> 'k cache_state) option" where
  "run_alone 0 lib clock os1 os2 st f = Some (f, st)"
| "run_alone (Suc n) lib clock os1 os2 st f =
     (if returned_with (fr_pc f) \<noteq> None then Some (f, st)
      else Option.bind
        (frame_step lib \<lparr>ev_os = (if rank (fr_pc f) \<ge> 4 then os1 else os2), ev_clock = clock\<rparr> st f)
        (\<lambda>(f, st). run_alone n lib clock os1 os2 st f))"

lemma run_alone_returned [simp]:
  "fr_pc f = Returned rc \<Longrightarrow> run_alone n lib clock os1 os2 st f = Some (f, st)"
  by (cases n) simp_all

lemma run_alone_step:
  "returned_with (fr_pc f) = None \<Longrightarrow>
   frame_step lib \<lparr>ev_os = (if rank (fr_pc f) \<ge> 4 then os1 else os2), ev_clock = clock\<rparr> st f = Some (f', st') \<Longrightarrow>
   run_alone (Suc n) lib clock os1 os2 st f = run_alone n lib clock os1 os2 st' f'"
  by simp

lemma run_alone_checking:
  "fr_pc f = Checking user tok r \<Longrightarrow> run_alone (Suc n) lib clock os1 os2 st f =
     Some (f\<lparr>fr_pc := Returned (check_token lib clock user tok r), fr_clock := clock\<rparr>, st)"
  by (simp add: frame_step_def)

definition result_of :: "('k frame \<times> 'k cache_state) option \<Rightarrow> 'k auth_result option" where
  "result_of r = Option.bind r (\<lambda>(f, st). map_option (\<lambda>rc. \<lparr>auth_rc = rc, auth_authtok = fr_authtok f, auth_cache = st\<rparr>)
     (returned_with (fr_pc f)))"

lemma result_of_Some [simp]:
  "fr_pc f = Returned rc \<Longrightarrow> result_of (Some (f, st)) = Some \<lparr>auth_rc = rc, auth_authtok = fr_authtok f, auth_cache = st\<rparr>"
  by (simp add: result_of_def)

lemma alone_with_token:
  assumes "fr_pc f = HasToken cid user tok"
  shows "result_of (run_alone (Suc (Suc (Suc n))) lib clock os1 os2 st f) =
    (let (r, st') = cache_verifier lib os2 cid st
     in Some \<lparr>auth_rc = check_token lib clock user tok r, auth_authtok = fr_authtok f, auth_cache = st'\<rparr>)"
  using assms
  by (auto simp: frame_step_def run_alone_checking cache_verifier_def config_verifier_def Let_def
      simp del: check_token.simps split: option.splits sum.splits prod.splits)

lemma alone_configured:
  assumes "fr_pc f = Configured cid"
  shows "result_of (run_alone (Suc (Suc (Suc (Suc n)))) lib clock os1 os2 st f) =
    (if rhost_denied (fr_pam f) (cfg_args (configs st ! cid))
     then Some \<lparr>auth_rc = Ret PAM_IGNORE, auth_authtok = None, auth_cache = st\<rparr>
     else case pam_user (fr_pam f) of
       Inl rc \<Rightarrow> Some \<lparr>auth_rc = Ret (if rc = PAM_SUCCESS then PAM_AUTH_ERR else rc),
           auth_authtok = None, auth_cache = st\<rparr>
     | Inr user \<Rightarrow> Some (authenticate_user lib clock os2 (fr_pam f) cid st user))"
proof -
  obtain r authtok where ut: "user_and_token (fr_pam f) (cfg_args (configs st ! cid)) = (r, authtok)" by force
  show ?thesis
  proof (cases r)
    case (Inl rc)
    with ut assms show ?thesis
      by (auto simp: frame_step_def user_and_token_def authenticate_user_def Let_def result_simps
          split: if_splits sum.splits prod.splits)
  next
    case (Inr x)
    obtain user tok where x: "x = (user, tok)" by force
    let ?f = "f\<lparr>fr_authtok := authtok, fr_pc := HasToken cid user tok\<rparr>"
    have "result_of (run_alone (Suc (Suc (Suc (Suc n)))) lib clock os1 os2 st f) =
        result_of (run_alone (Suc (Suc (Suc n))) lib clock os1 os2 st ?f)"
      using assms ut Inr x by (simp add: frame_step_def)
    also have "\<dots> = (let (r, st') = cache_verifier lib os2 cid st
       in Some \<lparr>auth_rc = check_token lib clock user tok r, auth_authtok = authtok, auth_cache = st'\<rparr>)"
      by (subst alone_with_token [of ?f cid user tok]) simp_all
    finally show ?thesis
      using ut Inr x
      by (auto simp: user_and_token_def authenticate_user_def Let_def result_simps
          split: if_splits sum.splits prod.splits)
  qed
qed

lemma alone_authenticates:
  "result_of (run_alone 6 lib clock os1 os2 st (enter pam raw_args os)) = authenticate lib clock os1 os2 pam raw_args st"
proof (cases "and_then (config_path raw_args) (\<lambda>path. and_then (config_stat os1 path) (\<lambda>current. Inr (path, current)))")
  case (Inl err)
  then have "cache_config os1 raw_args st = Some (Ret (Inl err), st)"
    by (auto simp: cache_config_def result_simps split: sum.splits)
  with Inl show ?thesis
    by (simp add: authenticate_def frame_step_def enter_def eval_nat_numeral)
next
  case (Inr x)
  obtain path current where x: "x = (path, current)" by force
  let ?f = "(enter pam raw_args os)\<lparr>fr_pc := CacheLock path current, fr_os1 := os1\<rparr>"
  have c: "cache_config os1 raw_args st = config_locked os1 raw_args path current st"
    using Inr x by (auto simp: cache_config_def result_simps)
  have "run_alone 6 lib clock os1 os2 st (enter pam raw_args os) = run_alone 5 lib clock os1 os2 st ?f"
    using Inr x by (simp add: frame_step_def enter_def eval_nat_numeral)
  also have "result_of \<dots> = authenticate lib clock os1 os2 pam raw_args st"
  proof (cases "config_locked os1 raw_args path current st")
    case None
    with c show ?thesis by (simp add: frame_step_def enter_def eval_nat_numeral authenticate_def result_of_def)
  next
    case (Some rst)
    obtain r st1 where r: "rst = (r, st1)" by force
    consider "r = Panic" | e where "r = Ret (Inl e)" | cid where "r = Ret (Inr cid)"
      by (metis flow.exhaust sum.exhaust)
    then show ?thesis
    proof cases
      case (3 cid)
      let ?g = "?f\<lparr>fr_pc := Configured cid, fr_os1 := stat_by os1 os1\<rparr>"
      have four: "(4 :: nat) = Suc (Suc (Suc (Suc 0)))" and five: "(5 :: nat) = Suc (Suc (Suc (Suc (Suc 0))))"
        by simp_all
      have "run_alone (Suc 4) lib clock os1 os2 st ?f = run_alone 4 lib clock os1 os2 st1 ?g"
        by (rule run_alone_step) (use Some r 3 in \<open>simp_all add: frame_step_def enter_def\<close>)
      then have run: "run_alone 5 lib clock os1 os2 st ?f = run_alone (Suc (Suc (Suc (Suc 0)))) lib clock os1 os2 st1 ?g"
        unfolding four by (simp only: five)
      have pc: "fr_pc ?g = Configured cid" by simp
      show ?thesis
        unfolding run alone_configured [OF pc]
        using Some r 3 c by (simp add: authenticate_def enter_def split: sum.split)
    qed (use Some r c in \<open>simp_all add: frame_step_def enter_def eval_nat_numeral authenticate_def\<close>)
  qed
  finally show ?thesis .
qed

text \<open>Letting one thread of a process run.\<close>

lemma run_alone_reaches:
  assumes "run_alone n lib clock os1 os2 (ps_cache s) f = Some (f', st')" and "ps_threads s t = Some f"
    and "os_honest hist os1" and "os_honest hist os2"
  shows "rtranclp (pstep lib hist) s (s\<lparr>ps_cache := st', ps_threads := (ps_threads s)(t := Some f')\<rparr>)"
  using assms
proof (induction n arbitrary: s f)
  case 0
  then have "f' = f" "st' = ps_cache s" by simp_all
  with 0(2) show ?case by (simp add: fun_upd_idem)
next
  case (Suc n)
  let ?e = "\<lparr>ev_os = (if rank (fr_pc f) \<ge> 4 then os1 else os2), ev_clock = clock\<rparr>"
  show ?case
  proof (cases "returned_with (fr_pc f) = None")
    case False
    with Suc.prems have "f' = f" "st' = ps_cache s" by simp_all
    with Suc.prems(2) show ?thesis by (simp add: fun_upd_idem)
  next
    case True
    with Suc.prems(1) obtain g st1 where g: "frame_step lib ?e (ps_cache s) f = Some (g, st1)"
      "run_alone n lib clock os1 os2 st1 g = Some (f', st')"
      by (auto simp: bind_eq_Some_conv)
    let ?s = "s\<lparr>ps_cache := st1, ps_threads := (ps_threads s)(t := Some g)\<rparr>"
    have "pstep lib hist s ?s"
      using Suc.prems(2-4) g(1) by (intro pstep.run) auto
    moreover have "rtranclp (pstep lib hist) ?s (?s\<lparr>ps_cache := st', ps_threads := (ps_threads ?s)(t := Some f')\<rparr>)"
      by (rule Suc.IH) (use g(2) Suc.prems(3,4) in simp_all)
    moreover have "?s\<lparr>ps_cache := st', ps_threads := (ps_threads ?s)(t := Some f')\<rparr> =
        s\<lparr>ps_cache := st', ps_threads := (ps_threads s)(t := Some f')\<rparr>"
      by simp
    ultimately show ?thesis by (metis converse_rtranclp_into_rtranclp)
  qed
qed

section \<open>Properties\<close>

text \<open>C3: Under every interleaving of calls from any number of threads, \<open>PAM_SUCCESS\<close> still means that the
  configuration the stack arguments denoted when this very call looked applies to the remote host, that
  the verifier was built with its policy from the key file as this call saw it, and that it accepted the
  token for exactly the requested user: no call is answered with another line's configuration, another
  configuration's verifier or another user's token.\<close>

theorem threads_sound:
  assumes "rtranclp (pstep lib hist) process_start s" and "ps_threads s t = Some f"
    and "fr_pc f = Returned rc" and "guard rc = PAM_SUCCESS"
    and "fr_clock f = Some secs" and "u64_val secs \<le> i64_max"
  shows "\<exists>user tok args v. pam_user (fr_pam f) = Inr user \<and> fst (obtain_token (fr_pam f)) = Inr tok \<and>
    denoted_args hist (fr_os1 f) (fr_args f) args \<and> \<not> rhost_denied (fr_pam f) args \<and>
    current_verifier lib hist (fr_os2 f) args v \<and> token_accepted lib (u64_val secs) v tok user"
proof -
  from assms(4) have "rc = Ret PAM_SUCCESS" by (cases rc) (auto simp: guard_def pam_codes)
  with process_inv_reachable [OF assms(1)] assms(2,3) obtain user tok v
    where v: "justified lib hist f user tok v" "verify lib (fr_clock f) v tok = Inr user"
    by (fastforce simp: process_inv_def)
  then have "token_accepted lib (u64_val secs) v tok user"
    by (simp add: assms(5) verify_Inr token_accepted_def check_claims_Inr [OF assms(6)])
  with v(1) show ?thesis by (auto simp: justified_def admitted_def)
qed



text \<open>Two threads with the same stack line: the second has looked at its files, then the first runs to its
  end, then the second finds the configuration and the verifier of the first.\<close>

definition sample_frame :: "bytes frame" where
  "sample_frame = enter sample_pam sample_raw_args sample_os"

abbreviation sample_run :: "nat \<Rightarrow> bytes cache_state \<Rightarrow> bytes frame \<Rightarrow> (bytes frame \<times> bytes cache_state) option" where
  "sample_run n st f \<equiv> run_alone n sample_lib (Some 1002) sample_os sample_os st f"

lemma case_optionE:
  assumes "case x of None \<Rightarrow> False | Some (a, b) \<Rightarrow> P a b"
  obtains a b where "x = Some (a, b)" "P a b"
  using assms by (cases x) auto

lemma sample_interleaving:
  obtains s f where "rtranclp (pstep sample_lib (\<lambda>p s. ''jwks'')) process_start s" "ps_threads s 1 = Some f"
    "fr_pc f = Returned (Ret PAM_SUCCESS)" "fr_clock f = Some 1002" "pam_user (fr_pam f) = Inr ''alice''"
proof -
  let ?step = "pstep sample_lib (\<lambda>p s. ''jwks'')"
  have "case sample_run 1 cache_new sample_frame of None \<Rightarrow> False | Some (g, st) \<Rightarrow>
     (case sample_run 6 st sample_frame of None \<Rightarrow> False | Some (g0, st0) \<Rightarrow>
     (case sample_run 5 st0 g of None \<Rightarrow> False | Some (f, st1) \<Rightarrow>
        returned_with (fr_pc f) = Some (Ret PAM_SUCCESS) \<and> fr_clock f = Some 1002 \<and>
        pam_user (fr_pam f) = Inr ''alice''))"
    by code_simp
  then obtain g st g0 st0 f st1 where runs: "sample_run 1 cache_new sample_frame = Some (g, st)"
    "sample_run 6 st sample_frame = Some (g0, st0)" "sample_run 5 st0 g = Some (f, st1)"
    and f: "returned_with (fr_pc f) = Some (Ret PAM_SUCCESS)" "fr_clock f = Some 1002" "pam_user (fr_pam f) = Inr ''alice''"
    by (elim case_optionE) blast
  define s1 where "s1 = process_start\<lparr>ps_threads := (ps_threads process_start)(1 := Some sample_frame)\<rparr>"
  define s2 where "s2 = s1\<lparr>ps_cache := st, ps_threads := (ps_threads s1)(1 := Some g)\<rparr>"
  define s3 where "s3 = s2\<lparr>ps_threads := (ps_threads s2)(0 := Some sample_frame)\<rparr>"
  define s4 where "s4 = s3\<lparr>ps_cache := st0, ps_threads := (ps_threads s3)(0 := Some g0)\<rparr>"
  define s5 where "s5 = s4\<lparr>ps_cache := st1, ps_threads := (ps_threads s4)(1 := Some f)\<rparr>"
  note s = s5_def s4_def s3_def s2_def s1_def process_start_def
  have p1: "?step process_start s1" unfolding s1_def sample_frame_def by (rule pstep.call) (simp add: process_start_def)
  have p2: "rtranclp ?step s1 s2" unfolding s2_def
    by (rule run_alone_reaches [OF _ _ sample_honest sample_honest]) (use runs in \<open>simp_all add: s del: run_alone.simps One_nat_def\<close>)
  have p3: "?step s2 s3" unfolding s3_def sample_frame_def by (rule pstep.call) (simp add: s)
  have p4: "rtranclp ?step s3 s4" unfolding s4_def
    by (rule run_alone_reaches [OF _ _ sample_honest sample_honest]) (use runs in \<open>simp_all add: s del: run_alone.simps One_nat_def\<close>)
  have p5: "rtranclp ?step s4 s5" unfolding s5_def
    by (rule run_alone_reaches [OF _ _ sample_honest sample_honest]) (use runs in \<open>simp_all add: s del: run_alone.simps One_nat_def\<close>)
  have "rtranclp ?step process_start s5"
    by (rule rtranclp_trans [OF converse_rtranclp_into_rtranclp [where r = ?step, OF p1 p2]
          rtranclp_trans [OF converse_rtranclp_into_rtranclp [where r = ?step, OF p3 p4] p5]])
  moreover have "fr_pc f = Returned (Ret PAM_SUCCESS)" using f(1) by (cases "fr_pc f") simp_all
  ultimately show thesis using f by (intro that [of s5 f]) (simp_all add: s5_def)
qed

theorem threads_sound_witness:
  "\<exists>tok v. token_accepted sample_lib 1002 v tok ''alice''"
proof -
  have secs: "u64_val (1002 :: u64) \<le> i64_max" "u64_val (1002 :: u64) = 1002" by (simp_all add: i64_max_def)
  obtain s f where f: "rtranclp (pstep sample_lib (\<lambda>p s. ''jwks'')) process_start s" "ps_threads s 1 = Some f"
    "fr_pc f = Returned (Ret PAM_SUCCESS)" "fr_clock f = Some 1002" "pam_user (fr_pam f) = Inr ''alice''"
    by (rule sample_interleaving)
  have "guard (Ret PAM_SUCCESS) = PAM_SUCCESS" by (simp add: guard_def)
  from threads_sound [OF f(1-3) this f(4) secs(1)] f(5) secs(2) show ?thesis by auto
qed


end
