(* ===== verification/Sasl_Ffi.thy ===== *)
theory Sasl_Ffi
  imports Policy_Options
begin

text \<open>
  The wrappers of the Cyrus SASL plugin interface, \<open>sasl/src/ffi.rs\<close>, and \<open>guard\<close> of
  \<open>sasl/src/lib.rs\<close>. libsasl2 and the application are outside the repository: \<open>sasl_utils\<close> holds what
  their callbacks return during one call, a null function pointer being \<open>None\<close>. Log lines and error
  texts are in theory \<open>Messages\<close>.
\<close>

section \<open>Constants of \<open>sasl2-sys\<close>\<close>

type_synonym sasl_rc = int

definition SASL_OK :: sasl_rc where "SASL_OK = 0"
definition SASL_CONTINUE :: sasl_rc where "SASL_CONTINUE = 1"
definition SASL_INTERACT :: sasl_rc where "SASL_INTERACT = 2"
definition SASL_FAIL :: sasl_rc where "SASL_FAIL = - 1"
definition SASL_NOMEM :: sasl_rc where "SASL_NOMEM = - 2"
definition SASL_BADPROT :: sasl_rc where "SASL_BADPROT = - 5"
definition SASL_BADPARAM :: sasl_rc where "SASL_BADPARAM = - 7"
definition SASL_BADAUTH :: sasl_rc where "SASL_BADAUTH = - 13"
definition SASL_TOOWEAK :: sasl_rc where "SASL_TOOWEAK = - 15"
definition SASL_ENCRYPT :: sasl_rc where "SASL_ENCRYPT = - 16"
definition SASL_NOUSER :: sasl_rc where "SASL_NOUSER = - 20"
definition SASL_BADVERS :: sasl_rc where "SASL_BADVERS = - 23"
definition SASL_CONFIGERR :: sasl_rc where "SASL_CONFIGERR = - 100"

definition SASL_CB_LIST_END :: nat where "SASL_CB_LIST_END = 0"
definition SASL_CB_USER :: nat where "SASL_CB_USER = 0x4001"
definition SASL_CB_PASS :: nat where "SASL_CB_PASS = 0x4004"

definition SASL_CU_AUTHID :: nat where "SASL_CU_AUTHID = 1"
definition SASL_CU_AUTHZID :: nat where "SASL_CU_AUTHZID = 2"

lemmas sasl_codes =
  SASL_OK_def SASL_CONTINUE_def SASL_INTERACT_def SASL_FAIL_def SASL_NOMEM_def SASL_BADPROT_def
  SASL_BADPARAM_def SASL_BADAUTH_def SASL_TOOWEAK_def SASL_ENCRYPT_def SASL_NOUSER_def
  SASL_BADVERS_def SASL_CONFIGERR_def

section \<open>The service table\<close>

text \<open>A callback has no type until the plugin casts it: for a simple value it answers a code and a C string,
  for the password a code and a counted secret.\<close>

record sasl_proc =
  proc_simple :: "sasl_rc \<times> bytes option"
  proc_secret :: "sasl_rc \<times> bytes option"

record sasl_utils =
  su_getopt :: "(bytes \<Rightarrow> sasl_rc \<times> bytes option) option"
  su_getprop :: "(sasl_rc \<times> 32 word option) option"
  su_getcallback :: "(nat \<Rightarrow> sasl_rc \<times> sasl_proc option) option"
  su_malloc_ok :: bool

definition utils_option :: "sasl_utils \<Rightarrow> getter" where
  "utils_option utils name =
     (case su_getopt utils of
        None \<Rightarrow> Inl GetoptNull
      | Some getopt \<Rightarrow>
          and_then (ok_or InvalidOptionName (cstring_new name)) (\<lambda>name.
          let (rc, v) = getopt name in
          if rc \<noteq> 0 then Inr None else Inr (map_option from_utf8_lossy v)))"

datatype ssf_error = GetpropNull | NoExternalSsf

definition external_ssf :: "sasl_utils \<Rightarrow> ssf_error + 32 word" where
  "external_ssf utils =
     (case su_getprop utils of
        None \<Rightarrow> Inl GetpropNull
      | Some (rc, prop) \<Rightarrow>
          if rc \<noteq> SASL_OK then Inl NoExternalSsf
          else Inr (case prop of None \<Rightarrow> 0 | Some v \<Rightarrow> v))"

section \<open>Prompts\<close>

text \<open>An entry of the \<open>sasl_interact_t\<close> array; \<open>pr_result\<close> is the memory its result pointer points to. The
  slot is a null pointer, or holds a null pointer or an array that ends with \<open>SASL_CB_LIST_END\<close>.\<close>

record sasl_interact =
  pr_id :: nat
  pr_challenge :: bytes
  pr_prompt :: bytes
  pr_defresult :: "bytes option"
  pr_result :: "bytes option"
  pr_len :: "32 word"

type_synonym prompts = "sasl_interact list option option"

fun find_entry :: "nat \<Rightarrow> sasl_interact list \<Rightarrow> sasl_interact option" where
  "find_entry cb [] = None"
| "find_entry cb (entry # entries) =
     (if pr_id entry = SASL_CB_LIST_END then None
      else if pr_id entry = cb then Some entry
      else find_entry cb entries)"

definition prompts_find :: "prompts \<Rightarrow> nat \<Rightarrow> sasl_interact option" where
  "prompts_find slot cb =
     (case slot of Some (Some entries) \<Rightarrow> find_entry cb entries | _ \<Rightarrow> None)"

definition prompts_release :: "prompts \<Rightarrow> prompts" where
  "prompts_release slot = (case slot of Some (Some _) \<Rightarrow> Some None | _ \<Rightarrow> slot)"

definition AUTHZ_NAME :: bytes where "AUTHZ_NAME = ''Authorization Name''"
definition AUTHZ_PROMPT :: bytes where "AUTHZ_PROMPT = ''Please enter an authorization name''"
definition TOKEN_NAME :: bytes where "TOKEN_NAME = ''Access Token''"
definition TOKEN_PROMPT :: bytes where "TOKEN_PROMPT = ''Please enter Access Token (as JWT)''"

definition prompts_request :: "sasl_utils \<Rightarrow> bool \<Rightarrow> bool \<Rightarrow> prompts \<Rightarrow> sasl_rc \<times> prompts" where
  "prompts_request utils want_user want_pass slot =
     (case slot of
        None \<Rightarrow> (SASL_FAIL, slot)
      | Some _ \<Rightarrow>
          if \<not> su_malloc_ok utils then (SASL_NOMEM, slot)
          else
            (let entry = (\<lambda>cb challenge prompt. \<lparr>pr_id = cb, pr_challenge = challenge, pr_prompt = prompt,
                   pr_defresult = None, pr_result = None, pr_len = 0\<rparr>) in
             (SASL_INTERACT,
              Some (Some ((if want_user then [entry SASL_CB_USER AUTHZ_NAME AUTHZ_PROMPT] else []) @
                          (if want_pass then [entry SASL_CB_PASS TOKEN_NAME TOKEN_PROMPT] else []) @
                          [entry SASL_CB_LIST_END [] []])))))"

section \<open>Values from the application\<close>

datatype cb_value = CbVal "bytes option" | NeedPrompt | CbFail sasl_rc

definition get_simple :: "sasl_utils \<Rightarrow> prompts \<Rightarrow> nat \<Rightarrow> cb_value" where
  "get_simple utils slot cb =
     (case prompts_find slot cb of
        Some entry \<Rightarrow>
          (case pr_result entry of
             None \<Rightarrow> CbVal None
           | Some mem \<Rightarrow>
               CbVal (Some (if pr_len entry > 0 then take (unat (pr_len entry)) mem else cstr mem)))
      | None \<Rightarrow>
          (case su_getcallback utils of
             None \<Rightarrow> CbFail SASL_FAIL
           | Some getcallback \<Rightarrow>
               (let (rc, proc) = getcallback cb in
                if rc = SASL_OK then
                  (case proc of
                     None \<Rightarrow> CbFail SASL_FAIL
                   | Some p \<Rightarrow>
                       (let (rc, result) = proc_simple p in
                        if rc \<noteq> SASL_OK then CbFail rc else CbVal (map_option cstr result)))
                else if rc = SASL_FAIL then CbVal None
                else if rc = SASL_INTERACT then NeedPrompt
                else CbFail rc)))"

definition get_password :: "sasl_utils \<Rightarrow> prompts \<Rightarrow> cb_value" where
  "get_password utils slot =
     (case prompts_find slot SASL_CB_PASS of
        Some entry \<Rightarrow>
          (case pr_result entry of
             None \<Rightarrow> CbFail SASL_BADPARAM
           | Some mem \<Rightarrow> CbVal (Some (take (unat (pr_len entry)) mem)))
      | None \<Rightarrow>
          (case su_getcallback utils of
             None \<Rightarrow> CbFail SASL_FAIL
           | Some getcallback \<Rightarrow>
               (let (rc, proc) = getcallback SASL_CB_PASS in
                if rc = SASL_OK then
                  (case proc of
                     None \<Rightarrow> CbFail SASL_FAIL
                   | Some p \<Rightarrow>
                       (let (rc, secret) = proc_secret p in
                        if rc \<noteq> SASL_OK then CbFail rc else CbVal secret))
                else if rc = SASL_INTERACT then NeedPrompt
                else CbFail rc)))"

section \<open>Output\<close>

text \<open>\<open>sasl_out_params_t\<close>: the fields of the plugin, and the names given to \<open>canon_user\<close>, which fills in the
  identities. The pointers of a security layer are opaque.\<close>

record out_params =
  doneflag :: nat
  mech_ssf :: "32 word"
  maxoutbuf :: "32 word"
  encode_context :: "nat option"
  encode :: "nat option"
  decode_context :: "nat option"
  decode :: "nat option"
  param_version :: int
  canon_calls :: "(bytes \<times> nat) list"

definition finish :: "out_params \<Rightarrow> out_params" where
  "finish op = op\<lparr>doneflag := 1, mech_ssf := 0, maxoutbuf := 0, encode_context := None, encode := None,
     decode_context := None, decode := None, param_version := 0\<rparr>"

text \<open>What libsasl2 hands over at the start of an exchange.\<close>

definition fresh_params :: out_params where
  "fresh_params = \<lparr>doneflag = 0, mech_ssf = 0, maxoutbuf = 0, encode_context = None, encode = None,
     decode_context = None, decode = None, param_version = 0, canon_calls = []\<rparr>"

text \<open>\<open>OutBuf\<close>: a pointer and a length, which \<open>publish\<close> cuts to 32 bits. An output slot of the model holds
  the memory the pointer points to, \<open>None\<close> after \<open>clear\<close>; \<open>delivered\<close> is what a framework then reads.\<close>

definition publish :: "bytes \<Rightarrow> bytes \<times> 32 word" where
  "publish data = (data, of_nat (length data))"

definition delivered :: "bytes \<Rightarrow> bytes" where
  "delivered data = (let (mem, len) = publish data in take (unat len) mem)"

lemma delivered_eq [simp]: "length data < 2 ^ 32 \<Longrightarrow> delivered data = data"
  by (simp add: delivered_def publish_def unat_of_nat)

type_synonym canon_user = "bytes \<Rightarrow> nat \<Rightarrow> sasl_rc"

definition canon_apply :: "canon_user \<Rightarrow> bytes \<Rightarrow> nat \<Rightarrow> out_params \<Rightarrow> sasl_rc \<times> out_params" where
  "canon_apply canon name flags op = (canon name flags, op\<lparr>canon_calls := canon_calls op @ [(name, flags)]\<rparr>)"

text \<open>\<open>guard\<close>: a panic becomes \<open>SASL_FAIL\<close>.\<close>

definition sasl_guard :: "sasl_rc flow \<Rightarrow> sasl_rc" where
  "sasl_guard f = catch_unwind_or SASL_FAIL f"

section \<open>The plugin tables\<close>

text \<open>What a plugin tells libsasl2 about its mechanism; flags are sets, their bits are distinct. A callback is
  the entry point a field points to, \<open>None\<close> a null pointer; the spare fields, which are null, are left out.\<close>

definition MECH_NAME :: bytes where "MECH_NAME = ''OAUTHBEARER''"

datatype security_flag = SASL_SEC_NOPLAINTEXT | SASL_SEC_NOANONYMOUS

datatype feature = SASL_FEAT_WANT_CLIENT_FIRST | SASL_FEAT_ALLOWS_PROXY

lemmas sasl_ffi_eval [rust_defs] =
  utils_option_def external_ssf_def prompts_find_def prompts_release_def prompts_request_def
  get_simple_def get_password_def finish_def fresh_params_def canon_apply_def sasl_guard_def

section \<open>Lemmas\<close>

lemma finish_simps [simp]:
  "doneflag (finish op) = 1" "mech_ssf (finish op) = 0" "canon_calls (finish op) = canon_calls op"
  "canon_calls fresh_params = []"
  by (simp_all add: finish_def fresh_params_def)

text \<open>An array the plugin requested asks for what it wanted, and is found again by \<open>find\<close>.\<close>

lemma request_find:
  assumes "prompts_request utils want_user want_pass slot = (SASL_INTERACT, slot')"
  shows "(prompts_find slot' SASL_CB_USER \<noteq> None) = want_user"
    and "(prompts_find slot' SASL_CB_PASS \<noteq> None) = want_pass"
  using assms
  by (auto simp: prompts_request_def prompts_find_def sasl_codes SASL_CB_USER_def SASL_CB_PASS_def
      SASL_CB_LIST_END_def split: option.splits if_splits)

text \<open>A getopt function that knows finitely many options makes an option source.\<close>

lemma utils_option_source:
  assumes "\<forall>getopt. su_getopt utils = Some getopt \<longrightarrow> finite {name. snd (getopt name) \<noteq> None}"
  shows "option_source (utils_option utils)"
proof
  show "finite {name. \<exists>v. utils_option utils name = Inr (Some v)}"
  proof (cases "su_getopt utils")
    case None
    then show ?thesis by (simp add: utils_option_def)
  next
    case (Some getopt)
    have "snd (getopt name) \<noteq> None" if "utils_option utils name = Inr (Some v)" for name v
      using that Some
      by (cases "getopt name") (auto simp: utils_option_def cstring_new_def result_simps split: if_splits)
    then have "{name. \<exists>v. utils_option utils name = Inr (Some v)} \<subseteq> {name. snd (getopt name) \<noteq> None}"
      by blast
    then show ?thesis using assms Some finite_subset by blast
  qed
qed

end
