(* ===== verification/Rfc7628.thy ===== *)
theory Rfc7628
  imports Rust_Str
begin

text \<open>
  The message format of the mechanism, \<open>core/src/rfc7628.rs\<close>: the server parses a client
  response into an optional authorization identity and a bearer token, the client builds it.
  The parser indexes slices, so its result is a \<open>flow\<close>. The lemmas give the grammar the parser
  accepts, its round trip with the builder, and that no input makes it panic.
\<close>

section \<open>Data\<close>

definition KVSEP :: byte where "KVSEP = CHR 0x01"
definition BEARER :: bytes where "BEARER = ''Bearer ''"

record client_response =
  authzid :: "bytes option"
  token :: bytes

datatype rfc7628_error =
  InvalidUtf8 | InvalidGs2Header | InvalidSaslName | MissingAuth | InvalidKeyValue
| MissingTerminator | NotBearer

section \<open>SASL names\<close>

text \<open>The loop of \<open>decode_saslname\<close> on what is left of the input and the output so far.\<close>

fun decode_saslname_loop :: "bytes \<Rightarrow> bytes \<Rightarrow> rfc7628_error + bytes" where
  "decode_saslname_loop [] out = Inr out"
| "decode_saslname_loop (b # rest) out =
     (if b = CHR ''='' then
        if take 2 rest = ''2C'' then decode_saslname_loop (drop 2 rest) (out @ '','')
        else if take 2 rest = ''3D'' then decode_saslname_loop (drop 2 rest) (out @ ''='')
        else Inl InvalidSaslName
      else decode_saslname_loop rest (out @ [b]))"

definition decode_saslname :: "bytes \<Rightarrow> rfc7628_error + bytes" where
  "decode_saslname input =
     and_then (decode_saslname_loop input []) (\<lambda>out. ok_or InvalidUtf8 (from_utf8 out))"

definition encode_char :: "bytes \<Rightarrow> bytes" where
  "encode_char ch = (if ch = '','' then ''=2C'' else if ch = ''='' then ''=3D'' else ch)"

definition encode_saslname :: "bytes \<Rightarrow> bytes" where
  "encode_saslname input = concat (map encode_char (str_chars input))"

section \<open>The parser\<close>

text \<open>The GS2 header before the first separator.\<close>

definition parse_gs2 :: "bytes \<Rightarrow> (rfc7628_error + bytes option) flow" where
  "parse_gs2 gs2 =
     (if gs2 = ''n,,'' then Ret (Inr None)
      else if starts_with ''n,a='' gs2 \<and> ends_with '','' gs2 then
        bind_flow (slice 4 (length gs2 - 1) gs2)
          (\<lambda>enc. Ret (and_then (ok_or InvalidUtf8 (from_utf8 enc))
             (\<lambda>encoded. and_then (decode_saslname encoded) (\<lambda>name. Inr (Some name)))))
      else Ret (Inl InvalidGs2Header))"

text \<open>The loop over the key/value fields; a later \<open>auth\<close> replaces an earlier one.\<close>

fun scan_fields :: "bytes list \<Rightarrow> bytes option \<Rightarrow> rfc7628_error + bytes option" where
  "scan_fields [] auth = Inr auth"
| "scan_fields (field # fs) auth =
     (if field = [] then scan_fields fs auth
      else case split_once (CHR ''='') field of
        None \<Rightarrow> Inl InvalidKeyValue
      | Some (key, value) \<Rightarrow> scan_fields fs (if key = ''auth'' then Some value else auth))"

definition bearer_token :: "bytes \<Rightarrow> (rfc7628_error + bytes) flow" where
  "bearer_token auth =
     (if length auth < length BEARER then Ret (Inl NotBearer)
      else bind_flow (slice 0 (length BEARER) auth) (\<lambda>scheme.
        if \<not> eq_ignore_ascii_case scheme BEARER then Ret (Inl NotBearer)
        else bind_flow (slice (length BEARER) (length auth) auth) (\<lambda>rest.
          Ret (and_then (ok_or InvalidUtf8 (from_utf8 rest))
            (\<lambda>tok. if tok = [] then Inl NotBearer else Inr tok)))))"

definition parse_client_response :: "bytes \<Rightarrow> (rfc7628_error + client_response) flow" where
  "parse_client_response input =
     (case position (\<lambda>b. b = KVSEP) input of
        None \<Rightarrow> Ret (Inl InvalidGs2Header)
      | Some first_sep \<Rightarrow>
          bind_flow (slice 0 first_sep input) (\<lambda>gs2.
          try_flow (parse_gs2 gs2) (\<lambda>name.
          if \<not> ends_with [KVSEP, KVSEP] input then Ret (Inl MissingTerminator)
          else bind_flow (slice (first_sep + 1) (length input - 1) input) (\<lambda>body.
          try_flow (Ret (and_then (scan_fields (split_on (\<lambda>b. b = KVSEP) body) None)
                           (ok_or MissingAuth))) (\<lambda>auth.
          try_flow (bearer_token auth) (\<lambda>tok.
          Ret (Inr \<lparr>authzid = name, token = tok\<rparr>)))))))"

section \<open>The builder\<close>

definition build_gs2 :: "bytes option \<Rightarrow> bytes" where
  "build_gs2 name =
     (case name of
        Some v \<Rightarrow> if v \<noteq> [] then ''n,a='' @ encode_saslname v @ '','' else ''n,,''
      | None \<Rightarrow> ''n,,'')"

definition build_client_response :: "bytes option \<Rightarrow> bytes \<Rightarrow> bytes" where
  "build_client_response name tok =
     build_gs2 name @ [KVSEP] @ ''auth=Bearer '' @ tok @ [KVSEP, KVSEP]"

lemmas rfc7628_eval [rust_defs] =
  KVSEP_def BEARER_def encode_char_def decode_saslname_def encode_saslname_def parse_gs2_def bearer_token_def
  parse_client_response_def build_gs2_def build_client_response_def slice_def

section \<open>SASL names: the decoder inverts the encoder\<close>

lemma decode_loop_plain:
  "CHR ''='' \<notin> set xs \<Longrightarrow> decode_saslname_loop (xs @ rest) out = decode_saslname_loop rest (out @ xs)"
  by (induction xs arbitrary: out) auto

lemma decode_loop_char:
  assumes "\<forall>b \<in> set c. ord b < 0x80 \<longrightarrow> c = [b]"
  shows "decode_saslname_loop (encode_char c @ rest) out = decode_saslname_loop rest (out @ c)"
proof -
  consider "c = '',''" | "c = ''=''" | "c \<noteq> '',''" "CHR ''='' \<notin> set c"
    using assms by fastforce
  then show ?thesis
    by cases (auto simp: encode_char_def decode_loop_plain)
qed

lemma decode_loop_escaped:
  "\<forall>c \<in> set cs. \<forall>b \<in> set c. ord b < 0x80 \<longrightarrow> c = [b] \<Longrightarrow>
   decode_saslname_loop (concat (map encode_char cs)) out = Inr (out @ concat cs)"
  by (induction cs arbitrary: out) (auto simp: decode_loop_char)

lemma str_chars_low: "c \<in> set (str_chars s) \<Longrightarrow> b \<in> set c \<Longrightarrow> ord b < 0x80 \<Longrightarrow> c = [b]"
  by (auto simp: str_chars_def intro: chunk_ascii)

lemma decode_encode_saslname: "valid_utf8 s \<Longrightarrow> decode_saslname (encode_saslname s) = Inr s"
  using decode_loop_escaped [of "str_chars s" "[]"] str_chars_low [of _ s]
  by (simp add: decode_saslname_def encode_saslname_def from_utf8_def)

lemma encode_saslname_bytes:
  assumes "b \<in> set (encode_saslname s)"
  shows "b \<noteq> CHR '','' \<and> (b \<in> set s \<or> b \<in> set ''=2C3D'')"
proof -
  from assms obtain c where c: "c \<in> set (str_chars s)"
    and b: "b \<in> set (encode_char c)"
    by (auto simp: encode_saslname_def)
  have "set c \<subseteq> set s"
    using c by (rule str_chars_subset)
  with b str_chars_low [OF c, of "CHR '',''"] show ?thesis
    by (auto simp: encode_char_def split: if_splits)
qed

lemma encode_saslname_valid:
  assumes "valid_utf8 s"
  shows "valid_utf8 (encode_saslname s)"
proof -
  have "\<forall>c \<in> set (str_chars s). valid_utf8 (encode_char c)"
    using str_chars_valid [OF assms] by (auto simp: encode_char_def utf8_char_valid)
  then have "valid_utf8 (concat (map encode_char cs))" if "set cs \<subseteq> set (str_chars s)" for cs
    using that by (induction cs) auto
  then show ?thesis
    by (simp add: encode_saslname_def)
qed

lemma decode_loop_bytes:
  "decode_saslname_loop xs out = Inr r \<Longrightarrow> set r \<subseteq> set out \<union> set xs \<union> set '',=''"
proof (induction xs out rule: decode_saslname_loop.induct)
  case (2 b rest out)
  have "set (drop 2 rest) \<subseteq> set rest" by (rule set_drop_subset)
  with 2 show ?case by (auto split: if_splits)
qed auto

lemma decode_saslname_Inr:
  "decode_saslname enc = Inr name \<Longrightarrow> valid_utf8 name \<and> set name \<subseteq> set enc \<union> set '',=''"
  using decode_loop_bytes [of enc "[]"]
  by (auto simp: decode_saslname_def from_utf8_def result_simps split: if_splits)

section \<open>The grammar of a client response\<close>

text \<open>
  The declarative side: a message is a GS2 header and fields, each closed by a separator, and one
  more separator. Empty fields are allowed and every other field has an \<open>=\<close>; of the \<open>auth\<close>
  fields the last one counts, and its value is a bearer scheme, in any case, and the token.
\<close>

definition wire_message :: "bytes \<Rightarrow> bytes list \<Rightarrow> bytes" where
  "wire_message gs2 fs = gs2 @ KVSEP # closed_by KVSEP fs @ [KVSEP]"

definition auth_values :: "bytes list \<Rightarrow> bytes list" where
  "auth_values fs = map (drop 5) (filter (starts_with ''auth='') fs)"

definition header_denotes :: "bytes \<Rightarrow> bytes option \<Rightarrow> bool" where
  "header_denotes gs2 name \<longleftrightarrow>
     (gs2 = ''n,,'' \<and> name = None) \<or>
     (\<exists>enc v. gs2 = ''n,a='' @ enc @ '','' \<and> valid_utf8 enc \<and> decode_saslname enc = Inr v \<and>
        name = Some v)"

definition client_message :: "bytes \<Rightarrow> client_response \<Rightarrow> bool" where
  "client_message input r \<longleftrightarrow>
     (\<exists>gs2 fs scheme. input = wire_message gs2 fs \<and> KVSEP \<notin> set gs2 \<and>
        (\<forall>f \<in> set fs. KVSEP \<notin> set f \<and> (f = [] \<or> CHR ''='' \<in> set f)) \<and>
        header_denotes gs2 (authzid r) \<and>
        auth_values fs \<noteq> [] \<and> last (auth_values fs) = scheme @ token r \<and>
        eq_ignore_ascii_case scheme ''Bearer '' \<and> token r \<noteq> [] \<and> valid_utf8 (token r))"

lemma parse_gs2_header [simp]: "header_denotes gs2 name \<longleftrightarrow> parse_gs2 gs2 = Ret (Inr name)"
proof (cases "starts_with ''n,a='' gs2 \<and> ends_with '','' gs2")
  case True
  then obtain r where r: "gs2 = ''n,a='' @ r" by (auto simp: starts_with_iff)
  with True obtain enc where "r = enc @ '',''"
    by (cases r rule: rev_cases) (auto simp: ends_with_iff)
  with r have g: "gs2 = ''n,a='' @ enc @ '',''" by simp
  with True show ?thesis
    by (auto simp: header_denotes_def parse_gs2_def from_utf8_def result_simps)
next
  case False
  then show ?thesis
    by (auto simp: header_denotes_def parse_gs2_def starts_with_iff ends_with_iff)
qed

lemma parse_gs2_no_panic [simp]: "parse_gs2 gs2 \<noteq> Panic"
proof -
  have "4 < length gs2" if "starts_with ''n,a='' gs2" "ends_with '','' gs2"
  proof -
    from that(1) obtain r where r: "gs2 = ''n,a='' @ r" by (auto simp: starts_with_iff)
    with that(2) have "r \<noteq> []" by (auto simp: ends_with_def)
    with r show ?thesis by simp
  qed
  then show ?thesis by (auto simp: parse_gs2_def)
qed

lemma bearer_token_no_panic [simp]: "bearer_token auth \<noteq> Panic"
  by (auto simp: bearer_token_def)

lemma bearer_token_Inr:
  "bearer_token auth = Ret (Inr tok) \<longleftrightarrow>
     (\<exists>scheme. auth = scheme @ tok \<and> eq_ignore_ascii_case scheme ''Bearer '' \<and> tok \<noteq> [] \<and> valid_utf8 tok)"
proof
  assume "bearer_token auth = Ret (Inr tok)"
  then show "\<exists>scheme. auth = scheme @ tok \<and> eq_ignore_ascii_case scheme ''Bearer '' \<and> tok \<noteq> [] \<and> valid_utf8 tok"
    by (intro exI [of _ "take (length BEARER) auth"])
       (auto simp: bearer_token_def from_utf8_def result_simps BEARER_def split: if_splits)
next
  assume "\<exists>scheme. auth = scheme @ tok \<and> eq_ignore_ascii_case scheme ''Bearer '' \<and> tok \<noteq> [] \<and> valid_utf8 tok"
  then obtain scheme where s: "auth = scheme @ tok" "eq_ignore_ascii_case scheme ''Bearer ''"
    "tok \<noteq> []" "valid_utf8 tok" by blast
  from s(2) have "length (to_ascii_lowercase scheme) = length (to_ascii_lowercase ''Bearer '')"
    by (simp add: eq_ignore_ascii_case_def)
  then have "length scheme = length BEARER"
    by (simp add: to_ascii_lowercase_def BEARER_def)
  with s show "bearer_token auth = Ret (Inr tok)"
    by (simp add: bearer_token_def from_utf8_def BEARER_def)
qed

lemma scan_fields_Inr:
  "scan_fields fs auth = Inr r \<longleftrightarrow>
     (\<forall>f \<in> set fs. f = [] \<or> CHR ''='' \<in> set f) \<and>
     r = (if auth_values fs = [] then auth else Some (last (auth_values fs)))"
proof (induction fs auth rule: scan_fields.induct)
  case (2 field fs auth)
  show ?case
  proof (cases "split_once (CHR ''='') field")
    case None
    then have "CHR ''='' \<notin> set field" by (simp add: split_once_None)
    with 2 None show ?thesis
      by (auto simp: auth_values_def starts_with_iff)
  next
    case (Some kv)
    obtain k v where kv: "kv = (k, v)" by force
    have field: "field = k @ CHR ''='' # v" "CHR ''='' \<notin> set k"
      using split_once_Some [of "CHR ''=''" field k v] Some kv by auto
    have "starts_with ''auth='' field \<longleftrightarrow> k = ''auth''"
    proof
      assume "starts_with ''auth='' field"
      then obtain v' where v': "field = ''auth'' @ CHR ''='' # v'" by (auto simp: starts_with_iff)
      have "split_once (CHR ''='') field = Some (''auth'', v')"
        unfolding v' by (rule split_once_hit) simp
      with Some kv show "k = ''auth''" by simp
    qed (simp add: field starts_with_iff)
    with 2 Some kv field show ?thesis by (auto simp: auth_values_def)
  qed
qed (auto simp: auth_values_def)

lemma scan_fields_last_empty [simp]: "scan_fields (fs @ [[]]) auth = scan_fields fs auth"
  by (induction fs auth rule: scan_fields.induct) (auto split: option.splits)

lemma ends_with_wire:
  assumes "KVSEP \<notin> set gs2"
  shows "ends_with [KVSEP, KVSEP] (gs2 @ KVSEP # rest) \<longleftrightarrow>
     (\<exists>fs. (\<forall>f \<in> set fs. KVSEP \<notin> set f) \<and> rest = closed_by KVSEP fs @ [KVSEP])"
proof
  assume "ends_with [KVSEP, KVSEP] (gs2 @ KVSEP # rest)"
  then obtain ys where ys: "gs2 @ KVSEP # rest = ys @ [KVSEP, KVSEP]"
    by (auto simp: ends_with_iff)
  then have ys': "gs2 @ KVSEP # rest = (ys @ [KVSEP]) @ [KVSEP]" by simp
  obtain body where body: "rest = body @ [KVSEP]"
  proof (cases rest rule: rev_cases)
    case Nil
    with ys' have "gs2 = ys @ [KVSEP]" by (simp del: append_assoc)
    with assms show ?thesis by simp
  next
    case (snoc body x)
    with ys' have "(gs2 @ KVSEP # body) @ [x] = (ys @ [KVSEP]) @ [KVSEP]" by simp
    then have "x = KVSEP" by blast
    with snoc show ?thesis by (intro that) simp
  qed
  with ys' have "(gs2 @ KVSEP # body) @ [KVSEP] = (ys @ [KVSEP]) @ [KVSEP]" by simp
  then have eq: "gs2 @ KVSEP # body = ys @ [KVSEP]" by blast
  have "body = [] \<or> last body = KVSEP"
  proof (cases body rule: rev_cases)
    case (snoc b x)
    with eq have "(gs2 @ KVSEP # b) @ [x] = ys @ [KVSEP]" by simp
    then have "x = KVSEP" by blast
    with snoc show ?thesis by simp
  qed simp
  with body closed_by_exists [of body KVSEP]
  show "\<exists>fs. (\<forall>f \<in> set fs. KVSEP \<notin> set f) \<and> rest = closed_by KVSEP fs @ [KVSEP]"
    by auto
next
  assume "\<exists>fs. (\<forall>f \<in> set fs. KVSEP \<notin> set f) \<and> rest = closed_by KVSEP fs @ [KVSEP]"
  then obtain fs where "rest = closed_by KVSEP fs @ [KVSEP]" by blast
  then show "ends_with [KVSEP, KVSEP] (gs2 @ KVSEP # rest)"
    by (cases fs rule: rev_cases) (auto simp: ends_with_iff closed_by_def)
qed

text \<open>The parser on a message in wire form, and on anything else.\<close>

lemma parse_wire_message:
  assumes "KVSEP \<notin> set gs2" and "\<forall>f \<in> set fs. KVSEP \<notin> set f"
  shows "parse_client_response (wire_message gs2 fs) =
     try_flow (parse_gs2 gs2) (\<lambda>name.
     try_flow (Ret (and_then (scan_fields fs None) (ok_or MissingAuth))) (\<lambda>auth.
     try_flow (bearer_token auth) (\<lambda>tok. Ret (Inr \<lparr>authzid = name, token = tok\<rparr>))))"
proof -
  have "ends_with [KVSEP, KVSEP] (wire_message gs2 fs)"
    using ends_with_wire [OF assms(1)] assms(2) by (auto simp: wire_message_def)
  moreover have "split_on (\<lambda>b. b = KVSEP) (closed_by KVSEP fs) = fs @ [[]]"
    using assms(2) by (rule split_on_closed_by)
  ultimately show ?thesis
    using assms(1) by (simp add: parse_client_response_def wire_message_def)
qed

lemma parse_not_wire_message:
  assumes "\<nexists>gs2 fs. KVSEP \<notin> set gs2 \<and> (\<forall>f \<in> set fs. KVSEP \<notin> set f) \<and> input = wire_message gs2 fs"
  shows "\<exists>e. parse_client_response input = Ret (Inl e)"
proof (cases "KVSEP \<in> set input")
  case False
  then have "position (\<lambda>b. b = KVSEP) input = None" by (auto simp: position_None_iff)
  then show ?thesis by (simp add: parse_client_response_def)
next
  case True
  then obtain gs2 rest where input: "input = gs2 @ KVSEP # rest" and gs2: "KVSEP \<notin> set gs2"
    by (meson split_list_first)
  with assms ends_with_wire [OF gs2, of rest] have "\<not> ends_with [KVSEP, KVSEP] input"
    by (auto simp: wire_message_def)
  with input gs2 parse_gs2_no_panic [of gs2] show ?thesis
    by (cases "(parse_gs2 gs2, \<lambda>_ :: bytes option. Panic :: (rfc7628_error + client_response) flow)"
          rule: try_flow.cases) (simp_all add: parse_client_response_def)
qed

lemma parse_no_panic: "parse_client_response input \<noteq> Panic"
proof (cases "\<exists>gs2 fs. KVSEP \<notin> set gs2 \<and> (\<forall>f \<in> set fs. KVSEP \<notin> set f) \<and> input = wire_message gs2 fs")
  case True
  then show ?thesis
    by (auto simp: parse_wire_message result_simps)
next
  case False
  with parse_not_wire_message [of input] show ?thesis by fastforce
qed

lemma parse_client_message_iff:
  "parse_client_response input = Ret (Inr r) \<longleftrightarrow> client_message input r"
proof
  assume p: "parse_client_response input = Ret (Inr r)"
  then obtain gs2 fs where w: "KVSEP \<notin> set gs2" "\<forall>f \<in> set fs. KVSEP \<notin> set f"
    and input: "input = wire_message gs2 fs"
    using parse_not_wire_message [of input] by force
  from p input obtain name auth tok where "parse_gs2 gs2 = Ret (Inr name)"
    "scan_fields fs None = Inr (Some auth)" "bearer_token auth = Ret (Inr tok)"
    "r = \<lparr>authzid = name, token = tok\<rparr>"
    by (auto simp: parse_wire_message [OF w] result_simps)
  moreover from this obtain scheme where "auth = scheme @ tok"
    "eq_ignore_ascii_case scheme ''Bearer ''" "tok \<noteq> []" "valid_utf8 tok"
    by (auto simp: bearer_token_Inr)
  ultimately show "client_message input r"
    using w input unfolding client_message_def scan_fields_Inr parse_gs2_header
    by (intro exI [of _ gs2] exI [of _ fs] exI [of _ scheme]) (auto split: if_splits)
next
  assume "client_message input r"
  then obtain gs2 fs scheme where input: "input = wire_message gs2 fs" and gs2: "KVSEP \<notin> set gs2"
    and fs: "\<forall>f \<in> set fs. KVSEP \<notin> set f" "\<forall>f \<in> set fs. f = [] \<or> CHR ''='' \<in> set f"
    and header: "parse_gs2 gs2 = Ret (Inr (authzid r))"
    and auth: "auth_values fs \<noteq> []" "last (auth_values fs) = scheme @ token r"
      "eq_ignore_ascii_case scheme ''Bearer ''" "token r \<noteq> []" "valid_utf8 (token r)"
    by (auto simp: client_message_def)
  from fs(2) auth have "scan_fields fs None = Inr (Some (scheme @ token r))"
    by (simp add: scan_fields_Inr)
  moreover from auth have "bearer_token (scheme @ token r) = Ret (Inr (token r))"
    by (auto simp: bearer_token_Inr)
  ultimately show "parse_client_response input = Ret (Inr r)"
    by (simp add: input parse_wire_message [OF gs2 fs(1)] header)
qed

lemma parse_build_gs2:
  "(\<And>v. name = Some v \<Longrightarrow> valid_utf8 v) \<Longrightarrow>
   parse_gs2 (build_gs2 name) = Ret (Inr (if name = Some [] then None else name))"
  unfolding parse_gs2_header [symmetric]
  by (cases name)
     (auto simp: header_denotes_def build_gs2_def encode_saslname_valid decode_encode_saslname
       simp del: parse_gs2_header)

lemma KVSEP_other [simp]:
  "KVSEP \<noteq> CHR ''n''" "KVSEP \<noteq> CHR '',''" "KVSEP \<noteq> CHR ''a''" "KVSEP \<noteq> CHR ''=''"
  "KVSEP \<noteq> CHR ''2''" "KVSEP \<noteq> CHR ''3''" "KVSEP \<noteq> CHR ''C''" "KVSEP \<noteq> CHR ''D''"
  by (simp_all add: KVSEP_def)

lemma build_gs2_no_sep: "(\<And>v. name = Some v \<Longrightarrow> KVSEP \<notin> set v) \<Longrightarrow> KVSEP \<notin> set (build_gs2 name)"
  by (cases name) (auto simp: build_gs2_def dest: encode_saslname_bytes)

lemma parse_build:
  assumes "valid_utf8 tok" and "tok \<noteq> []" and "KVSEP \<notin> set tok"
    and "\<And>v. name = Some v \<Longrightarrow> valid_utf8 v \<and> KVSEP \<notin> set v"
  shows "parse_client_response (build_client_response name tok) =
     Ret (Inr \<lparr>authzid = (if name = Some [] then None else name), token = tok\<rparr>)"
proof -
  have build: "build_client_response name tok = wire_message (build_gs2 name) [''auth=Bearer '' @ tok]"
    by (simp add: build_client_response_def wire_message_def)
  have gs2: "KVSEP \<notin> set (build_gs2 name)"
    by (rule build_gs2_no_sep) (simp add: assms(4))
  have "parse_gs2 (build_gs2 name) = Ret (Inr (if name = Some [] then None else name))"
    by (rule parse_build_gs2) (simp add: assms(4))
  moreover have "auth_values [''auth=Bearer '' @ tok] = [''Bearer '' @ tok]"
    by (simp add: auth_values_def starts_with_def)
  then have "scan_fields [''auth=Bearer '' @ tok] None = Inr (Some (''Bearer '' @ tok))"
    unfolding scan_fields_Inr by simp
  moreover have "bearer_token (''Bearer '' @ tok) = Ret (Inr tok)"
    using assms by (auto simp: bearer_token_Inr intro!: exI [of _ "''Bearer ''"])
  moreover have "\<forall>f \<in> set [''auth=Bearer '' @ tok]. KVSEP \<notin> set f"
    using assms(3) by (auto simp: KVSEP_def)
  ultimately show ?thesis
    by (simp add: build parse_wire_message [OF gs2])
qed

section \<open>Properties\<close>

text \<open>The parser is total on bytes: whatever a client sends, no slice index is out of range,
  so \<open>parse_client_response\<close> returns a response or an error and never panics.\<close>

theorem parse_never_panics: "parse_client_response input \<noteq> Panic"
  by (rule parse_no_panic)

text \<open>C7: The parser accepts exactly the messages of the grammar and returns what they denote: the
  authorization identity of the header and the token of the last \<open>auth\<close> field.\<close>

theorem parse_iff_client_message:
  "parse_client_response input = Ret (Inr r) \<longleftrightarrow> client_message input r"
  by (rule parse_client_message_iff)



end
