(* ===== verification/Sasl_Client.thy ===== *)
theory Sasl_Client
  imports Sasl_Ffi Rfc7628
begin

text \<open>
  The client side of the mechanism, \<open>sasl/src/client.rs\<close>: one step asks the application for the
  authorization name and the token, through callbacks or the prompt cycle, and emits the initial
  response; a later step answers the error document of the server. \<open>unreachable!()\<close> is a panic.
\<close>

section \<open>The step\<close>

definition MAX_SERVERIN_LEN :: "32 word" where "MAX_SERVERIN_LEN = 65536"

record client_io =
  cl_output :: bytes
  cl_prompts :: prompts
  cl_out_slot :: "bytes option"
  cl_oparams :: out_params

text \<open>What \<open>client_mech_step\<close> reads from the connection; the rest of \<open>ClientStep\<close> is \<open>client_io\<close>.\<close>

record client_input =
  ci_utils :: sasl_utils
  ci_server_in :: bytes
  ci_is_final :: bool
  ci_ssf_too_weak :: bool
  ci_canon :: "canon_user option"

definition anonymous :: bytes where "anonymous = ''anonymous''"

text \<open>From the harvested values on: canonicalize the identities and build the response.\<close>

definition client_respond :: "canon_user \<Rightarrow> bytes option \<Rightarrow> bytes \<Rightarrow> client_io \<Rightarrow> sasl_rc \<times> client_io" where
  "client_respond canon requested tok io =
     (let (rc, op) = canon_apply canon anonymous SASL_CU_AUTHID (cl_oparams io);
          io = io\<lparr>cl_oparams := op\<rparr>
      in if rc \<noteq> SASL_OK then (rc, io)
      else
        case (case requested of None \<Rightarrow> Some anonymous | Some name \<Rightarrow> cstring_new name) of
          None \<Rightarrow> (SASL_BADPARAM, io)
        | Some name \<Rightarrow>
            (let (rc, op) = canon_apply canon name SASL_CU_AUTHZID (cl_oparams io);
                 io = io\<lparr>cl_oparams := op\<rparr>
             in if rc \<noteq> SASL_OK then (rc, io)
             else
               (let output = build_client_response requested tok in
                (SASL_CONTINUE, io\<lparr>cl_output := output, cl_out_slot := Some output\<rparr>))))"

text \<open>The values of the application, checked in the order of the source.\<close>

definition client_values :: "cb_value \<Rightarrow> cb_value \<Rightarrow> canon_user option \<Rightarrow>
    (sasl_rc + canon_user \<times> bytes option \<times> bytes) flow" where
  "client_values user pass canon =
     try_flow (case user of CbVal v \<Rightarrow> Ret (Inr v) | CbFail rc \<Rightarrow> Ret (Inl rc) | NeedPrompt \<Rightarrow> Panic) (\<lambda>name.
     try_flow (case pass of
         CbVal (Some v) \<Rightarrow> Ret (Inr v)
       | CbVal None \<Rightarrow> Ret (Inl SASL_BADPARAM)
       | CbFail rc \<Rightarrow> Ret (Inl rc)
       | NeedPrompt \<Rightarrow> Panic) (\<lambda>tok_bytes.
     try_flow (Ret (ok_or SASL_BADPARAM (from_utf8 tok_bytes))) (\<lambda>tok.
     try_flow (Ret (ok_or SASL_FAIL canon)) (\<lambda>canon.
     try_flow (Ret (case non_empty name of
         None \<Rightarrow> Inr None
       | Some v \<Rightarrow> map_sum id Some (ok_or SASL_BADPARAM (from_utf8 v)))) (\<lambda>requested.
     Ret (Inr (canon, requested, tok)))))))"

definition client_run :: "client_input \<Rightarrow> client_io \<Rightarrow> sasl_rc flow \<times> client_io" where
  "client_run ci io =
     (if MAX_SERVERIN_LEN < of_nat (length (ci_server_in ci)) then (Ret SASL_BADPROT, io)
      else if ci_is_final ci then
        (Ret SASL_OK, io\<lparr>cl_output := [CHR 0x01], cl_out_slot := Some [CHR 0x01],
           cl_oparams := finish (cl_oparams io)\<rparr>)
      else
        let io = io\<lparr>cl_out_slot := None\<rparr> in
        if ci_ssf_too_weak ci then (Ret SASL_TOOWEAK, io)
        else
          let user = get_simple (ci_utils ci) (cl_prompts io) SASL_CB_USER;
              pass = get_password (ci_utils ci) (cl_prompts io);
              io = io\<lparr>cl_prompts := prompts_release (cl_prompts io)\<rparr>;
              want_user = (user = NeedPrompt);
              want_pass = (pass = NeedPrompt)
          in if want_user \<or> want_pass then
               (let (rc, slot) = prompts_request (ci_utils ci) want_user want_pass (cl_prompts io)
                in (Ret rc, io\<lparr>cl_prompts := slot\<rparr>))
             else
               (case client_values user pass (ci_canon ci) of
                  Panic \<Rightarrow> (Panic, io)
                | Ret (Inl rc) \<Rightarrow> (Ret rc, io)
                | Ret (Inr (canon, requested, tok)) \<Rightarrow>
                    (let (rc, io) = client_respond canon requested tok io in (Ret rc, io))))"

section \<open>Entry points\<close>

record client_params =
  cp_utils :: "sasl_utils option"
  cp_canon_user :: "canon_user option"
  cp_min_ssf :: "32 word"
  cp_external_ssf :: "32 word"

definition client_mech_new :: "bool \<Rightarrow> sasl_rc \<times> bytes option" where
  "client_mech_new conn_context_given =
     (if \<not> conn_context_given then (SASL_BADPARAM, None) else (SASL_OK, Some []))"

text \<open>A null pointer is \<open>None\<close>. A null \<open>server_in\<close> is read as empty input; whether the step is the final one
  depends on the length alone.\<close>

definition client_mech_step :: "bool \<Rightarrow> client_params option \<Rightarrow> bytes option \<Rightarrow> 32 word \<Rightarrow> bool \<Rightarrow> bool \<Rightarrow>
    client_io \<Rightarrow> sasl_rc \<times> client_io" where
  "client_mech_step context_given c_params server_in server_in_len out_given oparams_given io =
     (case c_params of
        None \<Rightarrow> (SASL_BADPARAM, io)
      | Some params \<Rightarrow>
          if \<not> context_given then (SASL_BADPARAM, io)
          else case (cp_utils params, out_given, oparams_given) of
            (Some utils, True, True) \<Rightarrow>
              (let input = (case server_in of
                     Some mem \<Rightarrow> if server_in_len = 0 then [] else take (unat server_in_len) mem
                   | None \<Rightarrow> []);
                   (r, io') = client_run
                     \<lparr>ci_utils = utils, ci_server_in = input, ci_is_final = (server_in_len \<noteq> 0),
                      ci_ssf_too_weak = (cp_external_ssf params < cp_min_ssf params),
                      ci_canon = cp_canon_user params\<rparr> io
               in (sasl_guard r, io'))
          | _ \<Rightarrow> (SASL_BADPARAM, io))"

datatype client_entry = Client_mech_new | Client_mech_step | Client_mech_dispose

record client_plug =
  clp_mech_name :: bytes
  clp_max_ssf :: nat
  clp_security_flags :: "security_flag set"
  clp_features :: "feature set"
  clp_required_prompts :: "nat list option"
  clp_glob_context :: "nat option"
  clp_mech_new :: "client_entry option"
  clp_mech_step :: "client_entry option"
  clp_mech_dispose :: "client_entry option"
  clp_mech_free :: "client_entry option"
  clp_idle :: "client_entry option"

definition make_client_plugin :: client_plug where
  "make_client_plugin =
     \<lparr>clp_mech_name = MECH_NAME, clp_max_ssf = 0,
      clp_security_flags = {SASL_SEC_NOPLAINTEXT, SASL_SEC_NOANONYMOUS},
      clp_features = {SASL_FEAT_WANT_CLIENT_FIRST, SASL_FEAT_ALLOWS_PROXY},
      clp_required_prompts = None, clp_glob_context = None, clp_mech_new = Some Client_mech_new,
      clp_mech_step = Some Client_mech_step, clp_mech_dispose = Some Client_mech_dispose, clp_mech_free = None, clp_idle = None\<rparr>"

definition SASL_CLIENT_PLUG_VERSION :: int where "SASL_CLIENT_PLUG_VERSION = 4"

text \<open>The table, its version and the number of plugins, where the call sets them.\<close>

definition sasl_client_plug_init :: "sasl_utils option \<Rightarrow> int \<Rightarrow> bool \<Rightarrow> sasl_rc \<times> (int \<times> client_plug \<times> nat) option" where
  "sasl_client_plug_init utils maxvers outputs_given =
     (if \<not> outputs_given then (SASL_BADPARAM, None)
      else case utils of
        None \<Rightarrow> (SASL_BADPARAM, None)
      | Some utils \<Rightarrow>
          if maxvers < SASL_CLIENT_PLUG_VERSION then (SASL_BADVERS, None)
          else (SASL_OK, Some (SASL_CLIENT_PLUG_VERSION, make_client_plugin, 1)))"

lemmas sasl_client_eval [rust_defs] =
  MAX_SERVERIN_LEN_def anonymous_def client_respond_def client_values_def client_run_def
  client_mech_new_def client_mech_step_def sasl_client_plug_init_def


section \<open>What a step does\<close>

lemma client_values_panic:
  "client_values user pass canon = Panic \<Longrightarrow> user = NeedPrompt \<or> pass = NeedPrompt"
  by (cases user; cases pass) (auto simp: client_values_def result_simps split: option.splits)

text \<open>The values a step works with, once no prompt is needed.\<close>

definition requested_name :: "bytes option \<Rightarrow> bytes option" where
  "requested_name name = (if name = Some [] then None else name)"

lemma client_values_Inr:
  "client_values user pass canon = Ret (Inr (c, requested, tok)) \<longleftrightarrow>
     (\<exists>name. user = CbVal name \<and> requested = requested_name name \<and>
        (case requested of None \<Rightarrow> True | Some n \<Rightarrow> valid_utf8 n)) \<and>
     pass = CbVal (Some tok) \<and> valid_utf8 tok \<and> canon = Some c"
  by (cases user; cases pass; cases canon)
    (auto simp: client_values_def result_simps non_empty_def requested_name_def from_utf8_def split: option.splits if_splits sum.splits)


text \<open>The names a client gives to \<open>canon_user\<close>.\<close>

definition client_names :: "bytes option \<Rightarrow> (bytes \<times> nat) list" where
  "client_names requested =
     [(anonymous, SASL_CU_AUTHID),
      (case requested of None \<Rightarrow> anonymous | Some n \<Rightarrow> n, SASL_CU_AUTHZID)]"

lemma client_respond_output:
  assumes "cl_out_slot io = None" and "client_respond canon requested tok io = (rc, io')"
  shows "(cl_out_slot io' = Some out \<longleftrightarrow>
     (\<forall>n. requested = Some n \<longrightarrow> CHR 0x00 \<notin> set n) \<and>
     list_all (\<lambda>(n, f). canon n f = SASL_OK) (client_names requested) \<and>
     out = build_client_response requested tok) \<and> (cl_out_slot io' \<noteq> None \<longrightarrow> rc = SASL_CONTINUE)"
  using assms
  by (auto simp: client_respond_def client_names_def canon_apply_def cstring_new_def Let_def sasl_codes
      split: option.splits if_splits)

lemma client_run_no_panic: "fst (client_run ci io) \<noteq> Panic"
  by (auto simp: client_run_def Let_def dest: client_values_panic
      split: flow.splits sum.splits prod.splits)

text \<open>A step that is not the final one and that the framework allows.\<close>

definition client_may_start :: "client_input \<Rightarrow> bool" where
  "client_may_start ci \<longleftrightarrow> \<not> MAX_SERVERIN_LEN < of_nat (length (ci_server_in ci)) \<and>
     \<not> ci_is_final ci \<and> \<not> ci_ssf_too_weak ci"

definition app_user :: "client_input \<Rightarrow> client_io \<Rightarrow> cb_value" where
  "app_user ci io = get_simple (ci_utils ci) (cl_prompts io) SASL_CB_USER"

definition app_token :: "client_input \<Rightarrow> client_io \<Rightarrow> cb_value" where
  "app_token ci io = get_password (ci_utils ci) (cl_prompts io)"

section \<open>Properties\<close>

lemma client_run_start:
  assumes "client_may_start ci" and "app_user ci io \<noteq> NeedPrompt" and "app_token ci io \<noteq> NeedPrompt"
  shows "client_run ci io =
    (let io1 = io\<lparr>cl_out_slot := None, cl_prompts := prompts_release (cl_prompts io)\<rparr>
     in case client_values (app_user ci io) (app_token ci io) (ci_canon ci) of
          Panic \<Rightarrow> (Panic, io1)
        | Ret (Inl rc) \<Rightarrow> (Ret rc, io1)
        | Ret (Inr (canon, requested, tok)) \<Rightarrow>
            (let (rc, io') = client_respond canon requested tok io1 in (Ret rc, io')))"
  using assms
  by (simp add: client_run_def client_may_start_def app_user_def app_token_def Let_def
      split: flow.split sum.split)

lemma client_run_prompt:
  assumes "client_may_start ci" and "app_user ci io = NeedPrompt \<or> app_token ci io = NeedPrompt"
  shows "client_run ci io =
    (let (rc, slot) = prompts_request (ci_utils ci) (app_user ci io = NeedPrompt) (app_token ci io = NeedPrompt)
           (prompts_release (cl_prompts io))
     in (Ret rc, io\<lparr>cl_out_slot := None, cl_prompts := slot\<rparr>))"
  using assms by (simp add: client_run_def client_may_start_def app_user_def app_token_def Let_def)

definition client_sends :: "client_input \<Rightarrow> client_io \<Rightarrow> bytes option \<Rightarrow> bytes \<Rightarrow> bool" where
  "client_sends ci io requested tok \<longleftrightarrow>
     (\<exists>name c. app_user ci io = CbVal name \<and> requested = requested_name name \<and>
        app_token ci io = CbVal (Some tok) \<and> valid_utf8 tok \<and> ci_canon ci = Some c \<and>
        (\<forall>n. requested = Some n \<longrightarrow> valid_utf8 n \<and> CHR 0x00 \<notin> set n) \<and>
        list_all (\<lambda>(n, f). c n f = SASL_OK) (client_names requested))"

lemma client_output:
  assumes "client_may_start ci" and "client_run ci io = (r, io')"
  shows "(cl_out_slot io' = Some out \<longleftrightarrow>
    (\<exists>requested tok. client_sends ci io requested tok \<and> out = build_client_response requested tok)) \<and>
    (cl_out_slot io' \<noteq> None \<longrightarrow> r = Ret SASL_CONTINUE)"
proof (cases "app_user ci io = NeedPrompt \<or> app_token ci io = NeedPrompt")
  case True
  with client_run_prompt [OF assms(1) True] assms(2) show ?thesis
    by (auto simp: client_sends_def split: prod.splits)
next
  case False
  let ?io = "io\<lparr>cl_out_slot := None, cl_prompts := prompts_release (cl_prompts io)\<rparr>"
  let ?v = "client_values (app_user ci io) (app_token ci io) (ci_canon ci)"
  have run: "client_run ci io = (case ?v of Panic \<Rightarrow> (Panic, ?io) | Ret (Inl rc) \<Rightarrow> (Ret rc, ?io)
      | Ret (Inr (canon, requested, tok)) \<Rightarrow>
          (let (rc, io) = client_respond canon requested tok ?io in (Ret rc, io)))"
    using client_run_start [OF assms(1)] False by (simp add: Let_def)
  show ?thesis
  proof (cases "\<exists>c requested tok. ?v = Ret (Inr (c, requested, tok))")
    case True
    then obtain c requested tok where v: "?v = Ret (Inr (c, requested, tok))" by blast
    obtain rc io1 where resp: "client_respond c requested tok ?io = (rc, io1)" by force
    from v [unfolded client_values_Inr] obtain name where vals: "app_user ci io = CbVal name"
      "requested = requested_name name" "app_token ci io = CbVal (Some tok)" "valid_utf8 tok"
      "ci_canon ci = Some c" and utf8: "case requested of None \<Rightarrow> True | Some n \<Rightarrow> valid_utf8 n"
      by blast
    from utf8 have "\<forall>n. requested = Some n \<longrightarrow> valid_utf8 n" by auto
    with client_respond_output [OF _ resp, of out] run v resp assms(2) vals show ?thesis
      by (auto simp: client_sends_def)
  next
    case none: False
    then have "\<not> client_sends ci io requested tok" for requested tok
      by (auto simp: client_sends_def client_values_Inr split: option.splits)
    moreover have "cl_out_slot io' = None"
      using run assms(2) none by (auto split: flow.splits sum.splits)
    ultimately show ?thesis by simp
  qed
qed


lemma client_sends_run:
  assumes "client_may_start ci" and "client_sends ci io requested tok"
  shows "fst (client_run ci io) = Ret SASL_CONTINUE \<and>
    cl_out_slot (snd (client_run ci io)) = Some (build_client_response requested tok)"
proof -
  obtain r io' where run: "client_run ci io = (r, io')" by force
  with client_output [OF assms(1) run, of "build_client_response requested tok"] assms(2)
  show ?thesis
    by (auto simp: run)
qed

text \<open>C21: A step publishes an initial response exactly when the application gave a token and, at will, a
  name, both valid UTF-8 and the name without NUL, and the framework canonicalized the placeholder and
  the name; the response is then the RFC 7628 message for exactly these values.\<close>

theorem client_output_iff:
  assumes "client_may_start ci"
  shows "cl_out_slot (snd (client_run ci io)) = Some out \<longleftrightarrow>
    (\<exists>requested tok. client_sends ci io requested tok \<and> out = build_client_response requested tok)"
proof -
  obtain r io' where run: "client_run ci io = (r, io')" by force
  from client_output [OF assms run, of out] run show ?thesis by simp
qed

definition sample_client_utils :: "bytes option \<Rightarrow> sasl_utils" where
  "sample_client_utils tok =
     \<lparr>su_getopt = None, su_getprop = None,
      su_getcallback = Some (\<lambda>cb. if cb = SASL_CB_USER then (SASL_FAIL, None)
        else case tok of None \<Rightarrow> (SASL_INTERACT, None)
        | Some t \<Rightarrow> (SASL_OK, Some \<lparr>proc_simple = (SASL_FAIL, None), proc_secret = (SASL_OK, Some t)\<rparr>)),
      su_malloc_ok = True\<rparr>"

definition sample_client :: "bytes option \<Rightarrow> client_input" where
  "sample_client tok =
     \<lparr>ci_utils = sample_client_utils tok, ci_server_in = [], ci_is_final = False, ci_ssf_too_weak = False,
      ci_canon = Some (\<lambda>n f. SASL_OK)\<rparr>"

definition fresh_client :: client_io where
  "fresh_client = \<lparr>cl_output = [], cl_prompts = Some None, cl_out_slot = None,
     cl_oparams = fresh_params\<rparr>"

lemma sample_client_starts: "client_may_start (sample_client tok)"
  by (simp add: client_may_start_def sample_client_def)

lemma sample_client_values:
  "app_user (sample_client tok) fresh_client = CbVal None"
  "app_token (sample_client (Some t)) fresh_client = CbVal (Some t)"
  "app_token (sample_client None) fresh_client = NeedPrompt"
  by (simp_all add: app_user_def app_token_def sample_client_def sample_client_utils_def fresh_client_def
      get_simple_def get_password_def prompts_find_def sasl_codes SASL_CB_USER_def SASL_CB_PASS_def)

theorem client_output_iff_witness:
  "cl_out_slot (snd (client_run (sample_client (Some ''aaa.bbb.ccc'')) fresh_client)) =
     Some (build_client_response None ''aaa.bbb.ccc'')"
proof -
  have "valid_utf8 ''aaa.bbb.ccc''" by code_simp
  then have "client_sends (sample_client (Some ''aaa.bbb.ccc'')) fresh_client None ''aaa.bbb.ccc''"
    by (simp add: client_sends_def sample_client_values requested_name_def client_names_def)
      (simp add: sample_client_def)
  with client_output_iff [OF sample_client_starts] show ?thesis by blast
qed

text \<open>An application that answers every prompt of an array.\<close>

definition answered :: "(nat \<Rightarrow> bytes option \<times> 32 word) \<Rightarrow> sasl_interact list \<Rightarrow> prompts" where
  "answered answer entries =
     Some (Some (map (\<lambda>e. e\<lparr>pr_result := fst (answer (pr_id e)), pr_len := snd (answer (pr_id e))\<rparr>) entries))"

lemma get_simple_found: "prompts_find slot cb \<noteq> None \<Longrightarrow> get_simple utils slot cb \<noteq> NeedPrompt"
  by (auto simp: get_simple_def split: option.splits)

lemma get_password_found: "prompts_find slot SASL_CB_PASS \<noteq> None \<Longrightarrow> get_password utils slot \<noteq> NeedPrompt"
  by (auto simp: get_password_def split: option.splits)

lemma get_simple_not_found:
  "prompts_find slot cb = None \<Longrightarrow> prompts_find slot' cb = None \<Longrightarrow> get_simple utils slot cb = get_simple utils slot' cb"
  by (simp add: get_simple_def)

lemma get_password_not_found:
  "prompts_find slot SASL_CB_PASS = None \<Longrightarrow> prompts_find slot' SASL_CB_PASS = None \<Longrightarrow>
   get_password utils slot = get_password utils slot'"
  by (simp add: get_password_def)

lemma find_answered: "(prompts_find (answered answer entries) cb = None) = (find_entry cb entries = None)"
proof -
  have "(find_entry cb (map (\<lambda>e. e\<lparr>pr_result := f e, pr_len := g e\<rparr>) entries) = None) =
      (find_entry cb entries = None)" for f g
    by (induction entries) auto
  then show ?thesis by (simp add: answered_def prompts_find_def)
qed

text \<open>The prompt cycle ends after one round: a first step that needs the application's input asks for
  exactly what is missing, and once the application has answered, with any answers, the next step
  needs no prompt.\<close>

theorem prompt_cycle_ends:
  assumes "client_may_start ci" and "cl_prompts io = Some None" and "su_malloc_ok (ci_utils ci)"
    and "app_user ci io = NeedPrompt \<or> app_token ci io = NeedPrompt"
  shows "\<exists>entries. client_run ci io =
      (Ret SASL_INTERACT, io\<lparr>cl_out_slot := None, cl_prompts := Some (Some entries)\<rparr>) \<and>
    app_user ci (io\<lparr>cl_prompts := answered answer entries\<rparr>) \<noteq> NeedPrompt \<and>
    app_token ci (io\<lparr>cl_prompts := answered answer entries\<rparr>) \<noteq> NeedPrompt"
proof -
  let ?wu = "app_user ci io = NeedPrompt" and ?wp = "app_token ci io = NeedPrompt"
  obtain entries where req: "prompts_request (ci_utils ci) ?wu ?wp (Some None) = (SASL_INTERACT, Some (Some entries))"
    using assms(3) by (auto simp: prompts_request_def Let_def)
  from client_run_prompt [OF assms(1,4)] req assms(2)
  have run: "client_run ci io = (Ret SASL_INTERACT, io\<lparr>cl_out_slot := None, cl_prompts := Some (Some entries)\<rparr>)"
    by (simp add: prompts_release_def)
  have found: "(find_entry SASL_CB_USER entries \<noteq> None) = ?wu" "(find_entry SASL_CB_PASS entries \<noteq> None) = ?wp"
    using request_find [OF req] by (simp_all add: prompts_find_def)
  have none: "prompts_find (cl_prompts io) cb = None" for cb
    by (simp add: assms(2) prompts_find_def)
  have "app_user ci (io\<lparr>cl_prompts := answered answer entries\<rparr>) \<noteq> NeedPrompt"
  proof (cases ?wu)
    case True
    with found(1) have "prompts_find (answered answer entries) SASL_CB_USER \<noteq> None"
      by (simp add: find_answered)
    from get_simple_found [OF this] show ?thesis by (simp add: app_user_def)
  next
    case False
    with found(1) get_simple_not_found [OF none, of "answered answer entries" SASL_CB_USER "ci_utils ci"]
    show ?thesis by (simp add: app_user_def find_answered)
  qed
  moreover have "app_token ci (io\<lparr>cl_prompts := answered answer entries\<rparr>) \<noteq> NeedPrompt"
  proof (cases ?wp)
    case True
    with found(2) have "prompts_find (answered answer entries) SASL_CB_PASS \<noteq> None"
      by (simp add: find_answered)
    from get_password_found [OF this] show ?thesis by (simp add: app_token_def)
  next
    case False
    with found(2) get_password_not_found [OF none, of "answered answer entries" "ci_utils ci"]
    show ?thesis by (simp add: app_token_def find_answered)
  qed
  ultimately show ?thesis using run by blast
qed


theorem prompt_cycle_ends_witness:
  "fst (client_run (sample_client None) fresh_client) = Ret SASL_INTERACT"
proof -
  have "cl_prompts fresh_client = Some None" "su_malloc_ok (ci_utils (sample_client None))"
    by (simp_all add: fresh_client_def sample_client_def sample_client_utils_def)
  from prompt_cycle_ends [OF sample_client_starts this, of "\<lambda>cb. (Some ''t'', 1)"]
  show ?thesis by (auto simp: sample_client_values)
qed

text \<open>The client never panics: its \<open>unreachable!()\<close> arms are not reached, whatever the application and
  the server answer.\<close>

theorem client_never_panics: "fst (client_run ci io) \<noteq> Panic"
  by (rule client_run_no_panic)

end
