(* ===== verification/Sasl_Server.thy ===== *)
theory Sasl_Server
  imports Sasl_Ffi Rfc7628 Jwt_Verifier
begin

text \<open>
  The server side of the mechanism: \<open>ServerConfig::from_sasl\<close> of \<open>sasl/src/config.rs\<close> and the step
  function with its entry points of \<open>sasl/src/server.rs\<close>. A connection is a \<open>server_io\<close>: the context
  that owns the output, the output slot and the output parameters that libsasl2 reads after a step.
\<close>

section \<open>Configuration\<close>

record 'k server_config =
  tls_required :: bool
  sc_verifier :: "'k jwt_verifier"

datatype server_config_error =
  OptionError option_error
| NoTrustedIssuerConfigured
| NoJwksConfigured
| FailedToReadJwksFile bytes
| VerifierError oauth_error

definition policy_of_options :: "policy_options \<Rightarrow> bytes \<Rightarrow> jwt_policy" where
  "policy_of_options opts issuer =
     \<lparr>uid_attr = opt_uid_attr opts, grace = opt_grace opts, trusted_issuer = issuer,
      trusted_audiences = opt_trusted_audiences opts,
      trusted_authorized_parties = opt_trusted_authorized_parties opts,
      required_scopes = opt_required_scopes opts, disallowed_usernames = opt_disallowed_usernames opts,
      allowed_algorithms = opt_allowed_algorithms opts,
      disallowed_algorithms = opt_disallowed_algorithms opts\<rparr>"

text \<open>\<open>read_file\<close> is \<open>fs::read_to_string\<close> on the bytes of a file; \<open>None\<close>: reading the options never ends.\<close>

definition from_sasl :: "('j, 'k) jwt_lib \<Rightarrow> (bytes \<Rightarrow> bytes + bytes) \<Rightarrow> sasl_utils \<Rightarrow>
    (server_config_error + 'k server_config) option" where
  "from_sasl lib read_file utils =
     try_opt (map_option (map_err OptionError) (read (utils_option utils))) (\<lambda>opts.
     try_opt (Some (map_err OptionError (utils_option utils ''oauthbearer_no_tls''))) (\<lambda>no_tls_text.
     let no_tls = no_tls_text = Some ''1'' in
     try_opt (Some (ok_or NoTrustedIssuerConfigured (opt_trusted_issuer opts))) (\<lambda>issuer.
     try_opt (Some (ok_or NoJwksConfigured (opt_jwks_path opts))) (\<lambda>jwks_filename.
     try_opt (Some (map_err FailedToReadJwksFile
         (and_then (read_file jwks_filename)
           (\<lambda>raw. ok_or ''stream did not contain valid UTF-8'' (from_utf8 raw))))) (\<lambda>jwks_json.
     try_opt (Some (map_err VerifierError
         (from_jwks_json lib (policy_of_options opts issuer) jwks_json))) (\<lambda>v.
     Some (Inr \<lparr>tls_required = \<not> no_tls, sc_verifier = v\<rparr>)))))))"

section \<open>The step function\<close>

definition MAX_CLIENTIN_LEN :: nat where "MAX_CLIENTIN_LEN = 65536"

definition INVALID_TOKEN_JSON :: bytes where
  "INVALID_TOKEN_JSON =
     ''{'' @ [CHR 0x22] @ ''status'' @ [CHR 0x22] @ '':'' @ [CHR 0x22] @ ''invalid_token'' @ [CHR 0x22] @ ''}''"

record server_io =
  server_out :: "bytes option"
  out_slot :: "bytes option"
  oparams :: out_params

text \<open>From the verified identity on: hand it, and the requested one, to \<open>canon_user\<close>.\<close>

definition server_canon :: "canon_user \<Rightarrow> bytes \<Rightarrow> bytes option \<Rightarrow> server_io \<Rightarrow> sasl_rc \<times> server_io" where
  "server_canon canon authcid requested io =
     (case Option.bind requested (\<lambda>v. if v \<noteq> [] then Some v else None) of
        Some name \<Rightarrow>
          (case cstring_new name of
             None \<Rightarrow> (SASL_BADPROT, io)
           | Some name \<Rightarrow>
               (let (rc, op) = canon_apply canon name SASL_CU_AUTHZID (oparams io);
                    (rc, op) = (if rc \<noteq> SASL_OK then (rc, op) else canon_apply canon authcid SASL_CU_AUTHID op)
                in if rc \<noteq> SASL_OK then (rc, io\<lparr>oparams := op\<rparr>)
                   else (SASL_OK, io\<lparr>oparams := finish op\<rparr>)))
      | None \<Rightarrow>
          (let (rc, op) = canon_apply canon authcid (or SASL_CU_AUTHID SASL_CU_AUTHZID) (oparams io)
           in if rc \<noteq> SASL_OK then (rc, io\<lparr>oparams := op\<rparr>)
              else (SASL_OK, io\<lparr>oparams := finish op\<rparr>)))"

text \<open>The check before any input is looked at: \<open>Some\<close> code if it fails.\<close>

definition tls_error :: "sasl_utils \<Rightarrow> 'k server_config \<Rightarrow> sasl_rc option" where
  "tls_error utils config =
     (if tls_required config then
        (case external_ssf utils of
           Inl e \<Rightarrow> Some SASL_BADPARAM
         | Inr ssf \<Rightarrow> if ssf < 256 then Some SASL_ENCRYPT else None)
      else None)"

definition server_step :: "('j, 'k) jwt_lib \<Rightarrow> u64 option \<Rightarrow> sasl_utils \<Rightarrow> 'k server_config \<Rightarrow> bytes \<Rightarrow>
    canon_user option \<Rightarrow> server_io \<Rightarrow> sasl_rc flow \<times> server_io" where
  "server_step lib clock utils config input canon io =
     (let io = io\<lparr>out_slot := None\<rparr> in
      case tls_error utils config of
        Some rc \<Rightarrow> (Ret rc, io)
      | None \<Rightarrow>
          if length input > MAX_CLIENTIN_LEN then (Ret SASL_BADPROT, io)
          else if input = [CHR 0x01] then (Ret SASL_BADAUTH, io\<lparr>oparams := finish (oparams io)\<rparr>)
          else case parse_client_response input of
            Panic \<Rightarrow> (Panic, io)
          | Ret (Inl e) \<Rightarrow> (Ret SASL_BADPROT, io)
          | Ret (Inr response) \<Rightarrow>
              (case verify lib clock (sc_verifier config) (token response) of
                 Inl e \<Rightarrow>
                   (let json = cstring_new INVALID_TOKEN_JSON in
                    (Ret SASL_CONTINUE, io\<lparr>server_out := json, out_slot := json\<rparr>))
               | Inr authcid \<Rightarrow>
                   (case canon of
                      None \<Rightarrow> (Ret SASL_FAIL, io)
                    | Some canon \<Rightarrow>
                        (case cstring_new authcid of
                           None \<Rightarrow> (Ret SASL_NOUSER, io)
                         | Some authcid \<Rightarrow>
                             (let (rc, io) = server_canon canon authcid (authzid response) io in (Ret rc, io))))))"

section \<open>Entry points\<close>

text \<open>A null pointer is \<open>None\<close>. \<open>out\<close> says that both output pointers are set.\<close>

record server_params =
  sp_utils :: "sasl_utils option"
  sp_canon_user :: "canon_user option"

definition server_mech_new :: "'k server_config option \<Rightarrow> bool \<Rightarrow> bool \<Rightarrow> sasl_rc \<times> 'k server_config option" where
  "server_mech_new glob_context params_given conn_context_given =
     (if \<not> params_given \<or> \<not> conn_context_given \<or> glob_context = None then (SASL_BADPARAM, None)
      else (SASL_OK, glob_context))"

definition server_mech_step :: "('j, 'k) jwt_lib \<Rightarrow> u64 option \<Rightarrow> 'k server_config option \<Rightarrow>
    server_params option \<Rightarrow> bytes option \<Rightarrow> 32 word \<Rightarrow> bool \<Rightarrow> bool \<Rightarrow> server_io \<Rightarrow> sasl_rc \<times> server_io" where
  "server_mech_step lib clock conn_context params client_in client_in_len out oparams_given io =
     (case (conn_context, params) of
        (Some config, Some params) \<Rightarrow>
          (case (sp_utils params, out, oparams_given) of
             (Some utils, True, True) \<Rightarrow>
               if client_in = None \<and> client_in_len \<noteq> 0 then (SASL_BADPARAM, io)
               else
                 (let input = (case client_in of
                        Some mem \<Rightarrow> if client_in_len = 0 then [] else take (unat client_in_len) mem
                      | None \<Rightarrow> []);
                      (r, io') = server_step lib clock utils config input (sp_canon_user params) io
                  in (sasl_guard r, io'))
           | _ \<Rightarrow> (SASL_BADPARAM, io))
      | _ \<Rightarrow> (SASL_BADPARAM, io))"

text \<open>Loading the plugin: the configuration becomes the global context of the mechanism.\<close>

definition SASL_SERVER_PLUG_VERSION :: int where "SASL_SERVER_PLUG_VERSION = 4"

definition sasl_server_plug_init :: "('j, 'k) jwt_lib \<Rightarrow> (bytes \<Rightarrow> bytes + bytes) \<Rightarrow> sasl_utils option \<Rightarrow> int \<Rightarrow>
    bool \<Rightarrow> (sasl_rc \<times> 'k server_config option) option" where
  "sasl_server_plug_init lib read_file utils maxvers outputs_given =
     (if \<not> outputs_given then Some (SASL_BADPARAM, None)
      else case utils of
        None \<Rightarrow> Some (SASL_BADPARAM, None)
      | Some utils \<Rightarrow>
          if maxvers < SASL_SERVER_PLUG_VERSION then Some (SASL_BADVERS, None)
          else map_option (\<lambda>r. case r of
                 Inl e \<Rightarrow> (SASL_CONFIGERR, None)
               | Inr config \<Rightarrow> (SASL_OK, Some config)) (from_sasl lib read_file utils))"

lemmas sasl_server_eval [rust_defs] =
  policy_of_options_def from_sasl_def MAX_CLIENTIN_LEN_def INVALID_TOKEN_JSON_def server_canon_def
  tls_error_def server_step_def server_mech_new_def server_mech_step_def sasl_server_plug_init_def

section \<open>The identities of a finished exchange\<close>

definition canon_names :: "bytes \<Rightarrow> bytes option \<Rightarrow> (bytes \<times> nat) list" where
  "canon_names uid requested =
     (if requested \<in> {None, Some []} then [(uid, or SASL_CU_AUTHID SASL_CU_AUTHZID)]
      else [(the requested, SASL_CU_AUTHZID), (uid, SASL_CU_AUTHID)])"

definition no_nul :: "bytes option \<Rightarrow> bool" where
  "no_nul requested \<longleftrightarrow> (case requested of None \<Rightarrow> True | Some n \<Rightarrow> CHR 0x00 \<notin> set n)"

lemma server_canon_OK:
  "server_canon canon uid requested io = (SASL_OK, io') \<longleftrightarrow>
     no_nul requested \<and> list_all (\<lambda>(n, f). canon n f = SASL_OK) (canon_names uid requested) \<and>
     io' = io\<lparr>oparams := (finish (oparams io))\<lparr>canon_calls := canon_calls (oparams io) @ canon_names uid requested\<rparr>\<rparr>"
  by (auto simp: server_canon_def canon_names_def no_nul_def canon_apply_def cstring_new_def finish_def
      sasl_codes Let_def split: option.splits if_splits)

lemma server_canon_rc:
  "fst (server_canon canon uid requested io) \<in> {SASL_OK, SASL_BADPROT} \<union> {canon n f |n f. True}"
  by (auto simp: server_canon_def canon_apply_def Let_def split: option.splits)

lemma server_canon_slots [simp]:
  "out_slot (snd (server_canon canon uid requested io)) = out_slot io"
  "server_out (snd (server_canon canon uid requested io)) = server_out io"
  by (auto simp: server_canon_def Let_def split: option.splits prod.splits)

lemma verify_uid_nul: "verify lib clock v tok = Inr uid \<Longrightarrow> CHR 0x00 \<notin> set uid"
  using uid_ok_bytes check_claims_uid_ok by (fastforce simp: verify_Inr)

lemma tls_error_None:
  "tls_error utils config = None \<longleftrightarrow>
     \<not> tls_required config \<or> (\<exists>ssf. external_ssf utils = Inr ssf \<and> 256 \<le> ssf)"
  by (auto simp: tls_error_def not_less split: sum.splits)

lemma client_message_not_01: "\<not> client_message [CHR 0x01] r"
proof
  assume "client_message [CHR 0x01] r"
  then have "parse_client_response [CHR 0x01] = Ret (Inr r)" by (simp add: parse_client_message_iff)
  moreover have "parse_client_response [CHR 0x01] = Ret (Inl InvalidGs2Header)" by code_simp
  ultimately show False by simp
qed

text \<open>The ways through a step.\<close>

lemma tls_error_Some: "tls_error utils config = Some rc \<Longrightarrow> rc \<in> {SASL_BADPARAM, SASL_ENCRYPT}"
  by (auto simp: tls_error_def split: sum.splits if_splits)

lemma server_step_cases:
  assumes "server_step lib clock utils config input canon io = (r, io')"
  obtains (failed) rc where "rc \<in> {SASL_BADPARAM, SASL_ENCRYPT, SASL_BADPROT, SASL_FAIL}"
      "r = Ret rc" "io' = io\<lparr>out_slot := None\<rparr>"
      "\<And>resp e. tls_error utils config = None \<Longrightarrow> length input \<le> MAX_CLIENTIN_LEN \<Longrightarrow>
         client_message input resp \<Longrightarrow>
         verify lib clock (sc_verifier config) (token resp) \<noteq> Inl e \<and> canon = None"
  | (acknowledged) "input = [CHR 0x01]" "tls_error utils config = None" "r = Ret SASL_BADAUTH"
      "io' = io\<lparr>out_slot := None, oparams := finish (oparams io)\<rparr>"
  | (rejected) resp e where "tls_error utils config = None" "length input \<le> MAX_CLIENTIN_LEN"
      "client_message input resp" "verify lib clock (sc_verifier config) (token resp) = Inl e"
      "r = Ret SASL_CONTINUE"
      "io' = io\<lparr>server_out := Some INVALID_TOKEN_JSON, out_slot := Some INVALID_TOKEN_JSON\<rparr>"
  | (verified) resp uid c rc where "tls_error utils config = None" "length input \<le> MAX_CLIENTIN_LEN"
      "client_message input resp" "verify lib clock (sc_verifier config) (token resp) = Inr uid"
      "canon = Some c" "server_canon c uid (authzid resp) (io\<lparr>out_slot := None\<rparr>) = (rc, io')" "r = Ret rc"
proof -
  note def = assms [unfolded server_step_def Let_def]
  consider rc where "tls_error utils config = Some rc"
    | "tls_error utils config = None" "MAX_CLIENTIN_LEN < length input"
    | "tls_error utils config = None" "length input \<le> MAX_CLIENTIN_LEN" "input = [CHR 0x01]"
    | "tls_error utils config = None" "length input \<le> MAX_CLIENTIN_LEN" "input \<noteq> [CHR 0x01]"
    by (meson not_None_eq not_less)
  then show thesis
  proof cases
    case (1 rc)
    with def tls_error_Some [OF 1] show thesis by (intro failed [of rc]) auto
  next
    case 2
    with def show thesis by (intro failed [of SASL_BADPROT]) auto
  next
    case 3
    with def show thesis by (intro acknowledged) auto
  next
    case 4
    show thesis
    proof (cases "parse_client_response input")
      case Panic
      then show thesis using parse_no_panic by blast
    next
      case (Ret x)
      show thesis
      proof (cases x)
        case (Inl e)
        then have "\<not> client_message input resp" for resp
          using Ret by (simp flip: parse_client_message_iff)
        with 4 Ret Inl def show thesis by (intro failed [of SASL_BADPROT]) auto
      next
        case (Inr resp)
        then have msg: "client_message input resp" "\<And>resp'. client_message input resp' \<Longrightarrow> resp' = resp"
          using Ret by (simp_all flip: parse_client_message_iff)
        show thesis
        proof (cases "verify lib clock (sc_verifier config) (token resp)")
          case (Inl e)
          have "cstring_new INVALID_TOKEN_JSON = Some INVALID_TOKEN_JSON" by code_simp
          with 4 Ret Inr Inl msg(1) def show thesis by (intro rejected [of resp e]) auto
        next
          case uid: (Inr uid)
          show thesis
          proof (cases canon)
            case None
            have "r = Ret SASL_FAIL" "io' = io\<lparr>out_slot := None\<rparr>"
              using def 4 Ret Inr uid None by simp_all
            moreover have "verify lib clock (sc_verifier config) (token resp') \<noteq> Inl e \<and> canon = None"
              if "client_message input resp'" for resp' e
              using msg(2) [OF that] uid None by simp
            ultimately show thesis by (intro failed [of SASL_FAIL]) simp_all
          next
            case (Some c)
            obtain rc io1 where sc: "server_canon c uid (authzid resp) (io\<lparr>out_slot := None\<rparr>) = (rc, io1)" by force
            from verify_uid_nul [OF uid] have "cstring_new uid = Some uid" by (simp add: cstring_new_def)
            with 4 Ret Inr uid msg(1) Some sc def show thesis
              by (intro verified [of resp uid c rc]) auto
          qed
        qed
      qed
    qed
  qed
qed

lemma server_step_verified:
  assumes "tls_error utils config = None" "length input \<le> MAX_CLIENTIN_LEN" "client_message input resp"
    and "verify lib clock (sc_verifier config) (token resp) = Inr uid"
  shows "server_step lib clock utils config input (Some c) io =
    (let (rc, io') = server_canon c uid (authzid resp) (io\<lparr>out_slot := None\<rparr>) in (Ret rc, io'))"
proof -
  from verify_uid_nul [OF assms(4)] have "cstring_new uid = Some uid" by (simp add: cstring_new_def)
  moreover from assms(3) client_message_not_01 have "input \<noteq> [CHR 0x01]" by auto
  moreover from assms(3) have "parse_client_response input = Ret (Inr resp)" by (simp add: parse_client_message_iff)
  ultimately show ?thesis using assms by (simp add: server_step_def)
qed

lemma server_step_OK:
  "server_step lib clock utils config input canon io = (Ret SASL_OK, io') \<longleftrightarrow>
   tls_error utils config = None \<and> length input \<le> MAX_CLIENTIN_LEN \<and>
   (\<exists>r uid c. client_message input r \<and> verify lib clock (sc_verifier config) (token r) = Inr uid \<and>
      canon = Some c \<and> server_canon c uid (authzid r) (io\<lparr>out_slot := None\<rparr>) = (SASL_OK, io'))"
  (is "?l \<longleftrightarrow> ?r")
proof
  assume ?l
  then show ?r
  proof (cases rule: server_step_cases)
    case (verified resp uid c rc)
    then show ?thesis by auto
  qed (auto simp: sasl_codes)
next
  assume ?r
  then show ?l by (auto simp: server_step_verified)
qed

text \<open>What a step publishes, and what its context then owns.\<close>

lemma server_step_outputs:
  assumes "server_step lib clock utils config input canon io = (r, io')"
  shows "out_slot io' = None \<and> server_out io' = server_out io \<or>
    out_slot io' = Some INVALID_TOKEN_JSON \<and> server_out io' = Some INVALID_TOKEN_JSON"
  using assms
proof (cases rule: server_step_cases)
  case (verified resp uid c rc)
  with server_canon_slots [of c uid "authzid resp" "io\<lparr>out_slot := None\<rparr>"] show ?thesis by simp
qed simp_all

lemma server_step_no_panic: "fst (server_step lib clock utils config input canon io) \<noteq> Panic"
proof -
  obtain r io' where step: "server_step lib clock utils config input canon io = (r, io')" by force
  then have "r \<noteq> Panic" by (cases rule: server_step_cases) auto
  with step show ?thesis by simp
qed

lemma server_step_not_NOUSER:
  assumes "server_step lib clock utils config input canon io = (Ret SASL_NOUSER, io')"
  shows "\<exists>c n f. canon = Some c \<and> c n f = SASL_NOUSER"
  using assms
proof (cases rule: server_step_cases)
  case (verified resp uid c rc)
  with server_canon_rc [of c uid "authzid resp" "io\<lparr>out_slot := None\<rparr>"]
  show ?thesis by (auto simp: sasl_codes)
qed (auto simp: sasl_codes)

section \<open>Properties\<close>

text \<open>C4: The server finishes an exchange with success exactly when the connection is protected as
  configured, the input is a client message of at most 64 KiB, its token is accepted now by the
  verifier, and the framework canonicalizes first the requested identity, if one is named, and then
  the verified one. The identities it is given are these and no others.\<close>

theorem server_ok_iff:
  assumes "u64_val secs \<le> i64_max"
  shows "server_step lib (Some secs) utils config input canon io = (Ret SASL_OK, io') \<longleftrightarrow>
    (\<not> tls_required config \<or> (\<exists>ssf. external_ssf utils = Inr ssf \<and> 256 \<le> ssf)) \<and>
    length input \<le> 65536 \<and>
    (\<exists>r uid c. client_message input r \<and>
       token_accepted lib (u64_val secs) (sc_verifier config) (token r) uid \<and>
       canon = Some c \<and> no_nul (authzid r) \<and>
       list_all (\<lambda>(n, f). c n f = SASL_OK) (canon_names uid (authzid r)) \<and>
       io' = io\<lparr>out_slot := None, oparams := (finish (oparams io))\<lparr>
         canon_calls := canon_calls (oparams io) @ canon_names uid (authzid r)\<rparr>\<rparr>)"
  by (auto simp: server_step_OK tls_error_None server_canon_OK verify_Inr token_accepted_def
      check_claims_Inr [OF assms] MAX_CLIENTIN_LEN_def)


text \<open>A protected connection with the sample verifier, and a message for the sample token.\<close>

definition sample_utils :: sasl_utils where
  "sample_utils = \<lparr>su_getopt = Some (\<lambda>name. (- 1, None)), su_getprop = Some (SASL_OK, Some 256),
     su_getcallback = None, su_malloc_ok = True\<rparr>"

definition sample_server :: "bytes server_config" where
  "sample_server = \<lparr>tls_required = True, sc_verifier = sample_verifier\<rparr>"

definition fresh_io :: server_io where
  "fresh_io = \<lparr>server_out = None, out_slot = None, oparams = fresh_params\<rparr>"

definition sample_message :: bytes where
  "sample_message = build_client_response (Some ''bob'') sample_token"

lemma sample_server_step:
  "server_step sample_lib (Some 1002) sample_utils sample_server sample_message (Some (\<lambda>n f. SASL_OK)) fresh_io =
     (Ret SASL_OK, fresh_io\<lparr>oparams := (finish fresh_params)\<lparr>canon_calls := [(''bob'', SASL_CU_AUTHZID), (''alice'', SASL_CU_AUTHID)]\<rparr>\<rparr>)"
proof -
  have "parse_client_response sample_message = Ret (Inr \<lparr>authzid = Some ''bob'', token = sample_token\<rparr>)"
    by code_simp
  then have "client_message sample_message \<lparr>authzid = Some ''bob'', token = sample_token\<rparr>"
    by (simp add: parse_client_message_iff)
  moreover have "length sample_message < 100" "tls_error sample_utils sample_server = None" by code_simp+
  moreover have "server_canon (\<lambda>n f. SASL_OK) ''alice'' (Some ''bob'') (fresh_io\<lparr>out_slot := None\<rparr>) =
      (SASL_OK, fresh_io\<lparr>oparams := (finish fresh_params)\<lparr>canon_calls := [(''bob'', SASL_CU_AUTHZID), (''alice'', SASL_CU_AUTHID)]\<rparr>\<rparr>)"
    by code_simp
  ultimately show ?thesis
    using sample_verify by (subst server_step_verified) (auto simp: MAX_CLIENTIN_LEN_def sample_server_def)
qed

theorem server_ok_iff_witness:
  "\<exists>r uid. client_message sample_message r \<and> token_accepted sample_lib 1002 sample_verifier (token r) uid \<and>
     canon_names uid (authzid r) = [(''bob'', SASL_CU_AUTHZID), (''alice'', SASL_CU_AUTHID)]"
proof -
  have "u64_val (1002 :: u64) \<le> i64_max" "u64_val (1002 :: u64) = 1002" by (simp_all add: i64_max_def)
  with server_ok_iff [of 1002 sample_lib sample_utils sample_server sample_message
      "Some (\<lambda>n f. SASL_OK)" fresh_io] sample_server_step
  obtain r uid where "client_message sample_message r" "token_accepted sample_lib 1002 (sc_verifier sample_server) (token r) uid"
    "fresh_io\<lparr>oparams := (finish fresh_params)\<lparr>canon_calls := [(''bob'', SASL_CU_AUTHZID), (''alice'', SASL_CU_AUTHID)]\<rparr>\<rparr> =
     fresh_io\<lparr>out_slot := None, oparams := (finish (oparams fresh_io))\<lparr>
         canon_calls := canon_calls (oparams fresh_io) @ canon_names uid (authzid r)\<rparr>\<rparr>"
    by metis
  then show ?thesis
    by (intro exI [of _ r] exI [of _ uid]) (simp add: sample_server_def fresh_io_def finish_def fresh_params_def)
qed

text \<open>Every input of a step is answered without a panic, and no verified user name is ever refused
  as malformed: \<open>SASL_NOUSER\<close>, the answer to a name with a NUL byte, can only come from the
  framework's \<open>canon_user\<close>.\<close>

theorem server_step_total:
  "fst (server_step lib clock utils config input canon io) \<noteq> Panic \<and>
   (fst (server_step lib clock utils config input canon io) \<noteq> Ret SASL_NOUSER \<or>
    (\<exists>c n f. canon = Some c \<and> c n f = SASL_NOUSER))"
  using server_step_not_NOUSER [of lib clock utils config input canon io]
    server_step_no_panic [of lib clock utils config input canon io]
  by (cases "server_step lib clock utils config input canon io") auto

section \<open>Sessions\<close>

text \<open>A connection is a sequence of steps, each with what the framework and the clock answer at that time.\<close>

record server_input =
  si_clock :: "u64 option"
  si_utils :: sasl_utils
  si_data :: bytes
  si_canon :: "canon_user option"

record server_reply =
  rp_rc :: "sasl_rc flow"
  rp_data :: "bytes option"
  rp_token_rejected :: bool

definition token_rejected :: "('j, 'k) jwt_lib \<Rightarrow> 'k server_config \<Rightarrow> server_input \<Rightarrow> bool" where
  "token_rejected lib config si \<longleftrightarrow>
     tls_error (si_utils si) config = None \<and> length (si_data si) \<le> MAX_CLIENTIN_LEN \<and>
     (\<exists>r e. client_message (si_data si) r \<and>
        verify lib (si_clock si) (sc_verifier config) (token r) = Inl e)"

definition session_step :: "('j, 'k) jwt_lib \<Rightarrow> 'k server_config \<Rightarrow> server_io \<Rightarrow> server_input \<Rightarrow>
    server_io \<times> server_reply" where
  "session_step lib config io si =
     (let (rc, io') = server_step lib (si_clock si) (si_utils si) config (si_data si) (si_canon si) io
      in (io', \<lparr>rp_rc = rc, rp_data = out_slot io', rp_token_rejected = token_rejected lib config si\<rparr>))"

definition session_inv :: "server_io \<Rightarrow> bool" where
  "session_inv io \<longleftrightarrow> server_out io \<in> {None, Some INVALID_TOKEN_JSON}"

definition reply_ok :: "server_reply \<Rightarrow> bool" where
  "reply_ok r \<longleftrightarrow>
     rp_rc r \<noteq> Panic \<and>
     rp_data r = (if rp_token_rejected r then Some INVALID_TOKEN_JSON else None) \<and>
     (rp_token_rejected r \<longrightarrow> rp_rc r = Ret SASL_CONTINUE)"


interpretation session: machine "session_step lib config" "\<lambda>si. True" session_inv reply_ok
  for lib config
proof
  fix io and si :: server_input
  assume inv: "session_inv io"
  obtain r io' where step: "server_step lib (si_clock si) (si_utils si) config (si_data si) (si_canon si) io = (r, io')"
    by force
  then have "session_inv io' \<and>
    reply_ok \<lparr>rp_rc = r, rp_data = out_slot io', rp_token_rejected = token_rejected lib config si\<rparr>"
  proof (cases rule: server_step_cases)
    case (failed rc)
    then have "\<not> token_rejected lib config si" by (auto simp: token_rejected_def)
    with failed inv show ?thesis by (simp add: session_inv_def reply_ok_def)
  next
    case acknowledged
    then have "\<not> token_rejected lib config si" by (auto simp: token_rejected_def client_message_not_01)
    with acknowledged inv show ?thesis by (simp add: session_inv_def reply_ok_def)
  next
    case (rejected resp e)
    then have "token_rejected lib config si" by (auto simp: token_rejected_def)
    with rejected show ?thesis by (simp add: session_inv_def reply_ok_def)
  next
    case (verified resp uid c rc)
    then have "\<not> token_rejected lib config si"
      by (auto simp: token_rejected_def simp flip: parse_client_message_iff)
    moreover have "out_slot io' = None" "server_out io' = server_out io"
      using server_canon_slots [of c uid "authzid resp" "io\<lparr>out_slot := None\<rparr>"] verified(6) by simp_all
    ultimately show ?thesis using verified inv by (simp add: session_inv_def reply_ok_def)
  qed
  with step show "session_inv (fst (session_step lib config io si))"
    and "reply_ok (snd (session_step lib config io si))"
    by (simp_all add: session_step_def)
qed

text \<open>C14: In every session the server publishes nothing but the fixed error document, and exactly in the
  steps whose token it rejects, which answer \<open>SASL_CONTINUE\<close>; no reason for the rejection reaches the
  client.\<close>

theorem server_sends_only_error:
  assumes "reply \<in> set (snd (run_machine (session_step lib config) fresh_io inputs))"
  shows "rp_data reply = (if rp_token_rejected reply then Some INVALID_TOKEN_JSON else None) \<and>
    (rp_rc reply = Ret SASL_CONTINUE \<or> \<not> rp_token_rejected reply)"
proof -
  have "session_inv fresh_io" by (simp add: session_inv_def fresh_io_def)
  from session.run_out [OF this _ assms] show ?thesis by (auto simp: reply_ok_def)
qed


theorem server_sends_only_error_witness:
  "rp_data (snd (session_step sample_lib sample_server fresh_io
     \<lparr>si_clock = None, si_utils = sample_utils, si_data = sample_message, si_canon = None\<rparr>)) = Some INVALID_TOKEN_JSON"
proof -
  let ?si = "\<lparr>si_clock = None, si_utils = sample_utils, si_data = sample_message, si_canon = None\<rparr>"
  have "parse_client_response sample_message = Ret (Inr \<lparr>authzid = Some ''bob'', token = sample_token\<rparr>)"
    "verify sample_lib None sample_verifier sample_token = Inl (ConfigError TimeBeforeEpoch)"
    "length sample_message < 100" "tls_error sample_utils sample_server = None"
    by code_simp+
  then have "token_rejected sample_lib sample_server ?si"
    by (auto simp: token_rejected_def MAX_CLIENTIN_LEN_def sample_server_def parse_client_message_iff [symmetric])
  then have "rp_token_rejected (snd (session_step sample_lib sample_server fresh_io ?si))"
    by (simp add: session_step_def split: prod.splits)
  with server_sends_only_error [of "snd (session_step sample_lib sample_server fresh_io ?si)"
      sample_lib sample_server "[?si]"]
  show ?thesis by (auto split: prod.splits)
qed

section \<open>Configuration\<close>

lemma from_sasl_Inr:
  "from_sasl lib read_file utils = Some (Inr config) \<longleftrightarrow>
   (\<exists>opts issuer path raw no_tls. options_of (utils_option utils) opts \<and>
      opt_trusted_issuer opts = Some issuer \<and> opt_jwks_path opts = Some path \<and>
      utils_option utils ''oauthbearer_no_tls'' = Inr no_tls \<and>
      tls_required config = (no_tls \<noteq> Some ''1'') \<and> read_file path = Inr raw \<and> valid_utf8 raw \<and>
      from_jwks_json lib (policy_of_options opts issuer) raw = Inr (sc_verifier config))"
proof -
  have raw: "and_then (read_file path) (\<lambda>raw. ok_or e (from_utf8 raw)) = Inr raw \<longleftrightarrow>
      read_file path = Inr raw \<and> valid_utf8 raw" for path raw e
    by (auto simp: result_simps from_utf8_def split: if_splits)
  have opts: "map_option (map_err OptionError) (read (utils_option utils)) = Some (Inr opts) \<longleftrightarrow>
      options_of (utils_option utils) opts" for opts
    by (auto simp: result_simps simp flip: read_eq)
  show ?thesis
    unfolding from_sasl_def Let_def try_opt_eq_Inr opts option.inject raw map_err_eq_Inr ok_or_eq_Inr
    by (cases config) auto
qed


lemma from_sasl_returns:
  assumes "\<forall>getopt. su_getopt utils = Some getopt \<longrightarrow> finite {name. snd (getopt name) \<noteq> None}"
  shows "\<exists>r. from_sasl lib read_file utils = Some r"
  unfolding from_sasl_def Let_def
  using option_source.read_returns [OF utils_option_source [OF assms]]
  by (intro try_opt_returns) auto

text \<open>Loading the server plugin returns with every framework whose configuration sets finitely many
  options.\<close>

theorem server_init_returns:
  assumes "\<forall>getopt. su_getopt utils = Some getopt \<longrightarrow> finite {name. snd (getopt name) \<noteq> None}"
  shows "sasl_server_plug_init lib read_file (Some utils) maxvers outputs_given \<noteq> None"
  using from_sasl_returns [OF assms, of lib read_file] by (auto simp: sasl_server_plug_init_def)

theorem server_init_returns_witness:
  "sasl_server_plug_init sample_lib (\<lambda>p. Inr ''jwks'') (Some sample_utils) 4 True \<noteq> None"
  by (rule server_init_returns) (simp add: sample_utils_def)

end
