(* ===== verification/Sasl_Exchange.thy ===== *)
theory Sasl_Exchange
  imports Sasl_Client Sasl_Server
begin

text \<open>
  The two mechanisms against each other: the exchange of RFC 7628 as the framework drives it. Each side
  makes a step of its own step function on what the other side published, as much of it as its 32 bit length says; the clock,
  the callbacks and the canonicalization may answer differently in every step.
\<close>

section \<open>The exchange\<close>

datatype phase = AtClient | AtServer bytes | Challenged bytes | Finished sasl_rc

record exchange =
  x_phase :: phase
  x_client :: client_io
  x_server :: server_io

definition exchange_start :: "client_io \<Rightarrow> exchange" where
  "exchange_start c = \<lparr>x_phase = AtClient, x_client = c, x_server = fresh_io\<rparr>"

text \<open>\<open>send\<close>: the initial response. \<open>answer\<close>: the server is done, with success or an error. \<open>challenge\<close>: the
  server published an error document, which \<open>acknowledge\<close> answers.\<close>

inductive xstep :: "('j, 'k) jwt_lib \<Rightarrow> 'k server_config \<Rightarrow> exchange \<Rightarrow> exchange \<Rightarrow> bool"
  for lib config where
  send: "client_may_start ci \<Longrightarrow> client_run ci c = (r, c') \<Longrightarrow> cl_out_slot c' = Some out \<Longrightarrow>
    xstep lib config \<lparr>x_phase = AtClient, x_client = c, x_server = s\<rparr>
      \<lparr>x_phase = AtServer (delivered out), x_client = c', x_server = s\<rparr>"
| answer: "server_step lib clock utils config m canon s = (Ret rc, s') \<Longrightarrow> out_slot s' = None \<Longrightarrow>
    xstep lib config \<lparr>x_phase = AtServer m, x_client = c, x_server = s\<rparr>
      \<lparr>x_phase = Finished rc, x_client = c, x_server = s'\<rparr>"
| challenge: "server_step lib clock utils config m canon s = (Ret rc, s') \<Longrightarrow> out_slot s' = Some d \<Longrightarrow>
    xstep lib config \<lparr>x_phase = AtServer m, x_client = c, x_server = s\<rparr>
      \<lparr>x_phase = Challenged (delivered d), x_client = c, x_server = s'\<rparr>"
| acknowledge: "ci_server_in ci = d \<Longrightarrow> ci_is_final ci \<Longrightarrow> client_run ci c = (Ret SASL_OK, c') \<Longrightarrow>
    cl_out_slot c' = Some out \<Longrightarrow>
    xstep lib config \<lparr>x_phase = Challenged d, x_client = c, x_server = s\<rparr>
      \<lparr>x_phase = AtServer (delivered out), x_client = c', x_server = s\<rparr>"

inductive_cases xstepE: "xstep lib config x y"

inductive_simps xstep_finished [simp]:
  "xstep lib config \<lparr>x_phase = Finished rc, x_client = c, x_server = s\<rparr> y"

section \<open>Where an exchange can be\<close>

text \<open>After \<open>n\<close> steps from the start with client \<open>c0\<close>.\<close>

fun phase_inv :: "('j, 'k) jwt_lib \<Rightarrow> 'k server_config \<Rightarrow> client_io \<Rightarrow> nat \<Rightarrow> exchange \<Rightarrow> bool" where
  "phase_inv lib config c0 n x =
     (case x_phase x of
        AtClient \<Rightarrow> n = 0 \<and> x = exchange_start c0
      | AtServer m \<Rightarrow>
          (n = 1 \<and> x_server x = fresh_io \<and>
             (\<exists>ci requested tok. client_may_start ci \<and> client_sends ci c0 requested tok \<and>
                m = delivered (build_client_response requested tok))) \<or>
          (n = 3 \<and> m = [CHR 0x01])
      | Challenged d \<Rightarrow> n = 2 \<and> d = INVALID_TOKEN_JSON
      | Finished rc \<Rightarrow> n \<in> {2, 4} \<and>
          (rc = SASL_OK \<longrightarrow>
             (\<exists>ci requested tok resp clock uid. client_may_start ci \<and> client_sends ci c0 requested tok \<and>
                client_message (delivered (build_client_response requested tok)) resp \<and>
                verify lib clock (sc_verifier config) (token resp) = Inr uid \<and>
                canon_calls (oparams (x_server x)) = canon_names uid (authzid resp) \<and>
                doneflag (oparams (x_server x)) = 1)))"

lemma client_final_output:
  assumes "ci_is_final ci" and "client_run ci c = (Ret SASL_OK, c')" and "cl_out_slot c' = Some out"
  shows "out = [CHR 0x01]"
  using assms by (auto simp: client_run_def sasl_codes split: if_splits)

lemma delivered_document [simp]: "delivered INVALID_TOKEN_JSON = INVALID_TOKEN_JSON"
  by code_simp

lemma delivered_acknowledgement [simp]: "delivered [CHR 0x01] = [CHR 0x01]"
  by code_simp

lemma server_01_OK: "server_step lib clock utils config [CHR 0x01] canon s \<noteq> (Ret SASL_OK, s')"
  by (auto simp: server_step_OK client_message_not_01)

lemma server_01_out: "server_step lib clock utils config [CHR 0x01] canon s = (r, s') \<Longrightarrow> out_slot s' = None"
  by (erule server_step_cases) (auto simp: client_message_not_01)

lemma phase_inv_step:
  assumes "phase_inv lib config c0 n x" and "xstep lib config x y"
  shows "phase_inv lib config c0 (Suc n) y"
  using assms(2,1)
proof (cases rule: xstep.cases)
  case (send ci c r c' out s)
  with assms(1) have c: "n = 0" "c = c0" "s = fresh_io" by (auto simp: exchange_start_def)
  with client_output [OF send(3,4), of out] send(5)
  obtain requested tok where "client_sends ci c0 requested tok" "out = build_client_response requested tok"
    by auto
  with send c show ?thesis by auto
next
  case (answer clock utils m canon s rc s' c)
  show ?thesis
  proof (cases "n = 3")
    case True
    with assms(1) answer have "m = [CHR 0x01]" by auto
    with answer True show ?thesis by (auto simp: server_01_OK)
  next
    case False
    with assms(1) answer obtain ci requested tok where m: "n = 1" "s = fresh_io" "client_may_start ci"
      "client_sends ci c0 requested tok" "m = delivered (build_client_response requested tok)"
      by auto
    have "\<exists>resp clock uid. client_message m resp \<and> verify lib clock (sc_verifier config) (token resp) = Inr uid \<and>
        canon_calls (oparams s') = canon_names uid (authzid resp) \<and> doneflag (oparams s') = 1" if "rc = SASL_OK"
      using answer(3) that m(2) by (auto simp: server_step_OK server_canon_OK fresh_io_def) blast
    with m answer(2) show ?thesis by simp blast
  qed
next
  case (challenge clock utils m canon s rc s' d c)
  then have "m \<noteq> [CHR 0x01]" using server_01_out by fastforce
  with assms(1) challenge have "n = 1" by auto
  with challenge server_step_outputs show ?thesis by fastforce
next
  case (acknowledge ci d c c' out s)
  then have "out = [CHR 0x01]" using client_final_output by blast
  with assms(1) acknowledge show ?thesis by auto
qed

lemma phase_inv_run:
  "(xstep lib config ^^ n) (exchange_start c0) x \<Longrightarrow> phase_inv lib config c0 n x"
proof (induction n arbitrary: x)
  case 0
  then have "x = exchange_start c0" by simp
  then show ?case by (simp add: exchange_start_def)
next
  case (Suc n)
  from Suc.prems obtain y where "(xstep lib config ^^ n) (exchange_start c0) y" "xstep lib config y x"
    by (auto elim: relpowp_Suc_E)
  with Suc.IH phase_inv_step show ?case by blast
qed

section \<open>Runs\<close>

text \<open>What a client sends over a clean token is read back by the server as it was given.\<close>

definition clean :: "bytes option \<Rightarrow> bytes \<Rightarrow> bool" where
  "clean requested tok \<longleftrightarrow> tok \<noteq> [] \<and> KVSEP \<notin> set tok \<and>
     (case requested of None \<Rightarrow> True | Some v \<Rightarrow> KVSEP \<notin> set v)"

lemma client_sends_message:
  assumes "client_sends ci c requested tok" and "clean requested tok"
  shows "client_message (build_client_response requested tok) \<lparr>authzid = requested, token = tok\<rparr>"
proof -
  from assms have "requested \<noteq> Some []" "valid_utf8 tok" "tok \<noteq> []" "KVSEP \<notin> set tok"
    and "\<And>v. requested = Some v \<Longrightarrow> valid_utf8 v \<and> KVSEP \<notin> set v"
    by (auto simp: client_sends_def clean_def requested_name_def split: if_splits)
  with parse_build [of tok requested] show ?thesis by (simp flip: parse_client_message_iff)
qed

lemma client_sends_no_nul: "client_sends ci c requested tok \<Longrightarrow> no_nul requested"
  by (auto simp: client_sends_def no_nul_def split: option.splits)

lemma exchange_send:
  assumes "client_may_start ci" and "client_sends ci c0 requested tok"
  shows "\<exists>c. xstep lib config (exchange_start c0)
    \<lparr>x_phase = AtServer (delivered (build_client_response requested tok)), x_client = c, x_server = fresh_io\<rparr>"
proof -
  obtain r c where run: "client_run ci c0 = (r, c)" by force
  with client_sends_run [OF assms] have "cl_out_slot c = Some (build_client_response requested tok)" by simp
  from xstep.send [OF assms(1) run this] show ?thesis by (auto simp: exchange_start_def)
qed

lemma exchange_acknowledge:
  "\<exists>c'. xstep lib config \<lparr>x_phase = Challenged INVALID_TOKEN_JSON, x_client = c, x_server = s\<rparr>
     \<lparr>x_phase = AtServer [CHR 0x01], x_client = c', x_server = s\<rparr> \<and> doneflag (cl_oparams c') = 1"
proof -
  let ?c' = "c\<lparr>cl_output := [CHR 0x01], cl_out_slot := Some [CHR 0x01], cl_oparams := finish (cl_oparams c)\<rparr>"
  define ci where "ci = \<lparr>ci_utils = \<lparr>su_getopt = None, su_getprop = None, su_getcallback = None, su_malloc_ok = True\<rparr>,
    ci_server_in = INVALID_TOKEN_JSON, ci_is_final = True, ci_ssf_too_weak = False, ci_canon = None\<rparr>"
  have "length INVALID_TOKEN_JSON = 26" by (simp add: INVALID_TOKEN_JSON_def)
  then have "client_run ci c = (Ret SASL_OK, ?c')"
    by (simp add: ci_def client_run_def MAX_SERVERIN_LEN_def)
  then have "xstep lib config \<lparr>x_phase = Challenged INVALID_TOKEN_JSON, x_client = c, x_server = s\<rparr>
      \<lparr>x_phase = AtServer [CHR 0x01], x_client = ?c', x_server = s\<rparr>"
    using xstep.acknowledge [of ci INVALID_TOKEN_JSON c ?c' "[CHR 0x01]" lib config s] by (simp add: ci_def)
  then show ?thesis by (intro exI [of _ ?c']) (simp add: finish_def)
qed

lemma exchange_give_up:
  assumes "tls_error utils config = None"
  shows "xstep lib config \<lparr>x_phase = AtServer [CHR 0x01], x_client = c, x_server = s\<rparr>
    \<lparr>x_phase = Finished SASL_BADAUTH, x_client = c,
     x_server = s\<lparr>out_slot := None, oparams := finish (oparams s)\<rparr>\<rparr>"
  using assms by (intro xstep.answer [of lib None utils config _ None]) (simp_all add: server_step_def MAX_CLIENTIN_LEN_def)

lemma server_step_rejected:
  assumes "tls_error utils config = None" "length input \<le> MAX_CLIENTIN_LEN" "client_message input resp"
    and "verify lib clock (sc_verifier config) (token resp) = Inl e"
  shows "server_step lib clock utils config input canon io = (Ret SASL_CONTINUE,
    io\<lparr>server_out := Some INVALID_TOKEN_JSON, out_slot := Some INVALID_TOKEN_JSON\<rparr>)"
proof -
  from assms(3) client_message_not_01 have "input \<noteq> [CHR 0x01]" by auto
  moreover from assms(3) have "parse_client_response input = Ret (Inr resp)" by (simp add: parse_client_message_iff)
  moreover have "cstring_new INVALID_TOKEN_JSON = Some INVALID_TOKEN_JSON" by code_simp
  ultimately show ?thesis using assms by (simp add: server_step_def Let_def)
qed

lemma completes_run:
  assumes "client_may_start ci" and "client_sends ci c0 requested tok" and "clean requested tok"
    and "length (build_client_response requested tok) \<le> 65536" and "tls_error utils config = None"
    and "verify lib clock (sc_verifier config) tok = Inr uid"
    and "list_all (\<lambda>(n, f). canon n f = SASL_OK) (canon_names uid requested)"
  shows "\<exists>x. (xstep lib config ^^ 2) (exchange_start c0) x \<and> x_phase x = Finished SASL_OK \<and>
    oparams (x_server x) = (finish fresh_params)\<lparr>canon_calls := canon_names uid requested\<rparr>"
proof -
  let ?m = "build_client_response requested tok"
  let ?s = "fresh_io\<lparr>out_slot := None, oparams := (finish fresh_params)\<lparr>canon_calls := canon_names uid requested\<rparr>\<rparr>"
  obtain c where send: "xstep lib config (exchange_start c0) \<lparr>x_phase = AtServer ?m, x_client = c, x_server = fresh_io\<rparr>"
    using exchange_send [OF assms(1,2), of lib config] assms(4) by auto
  have "server_canon canon uid requested (fresh_io\<lparr>out_slot := None\<rparr>) = (SASL_OK, ?s)"
    using client_sends_no_nul [OF assms(2)] assms(7) by (simp add: server_canon_OK fresh_io_def)
  then have "server_step lib clock utils config ?m (Some canon) fresh_io = (Ret SASL_OK, ?s)"
    using assms(4-6) client_sends_message [OF assms(2,3)]
    by (subst server_step_verified) (auto simp: MAX_CLIENTIN_LEN_def)
  from xstep.answer [OF this]
  have "xstep lib config \<lparr>x_phase = AtServer ?m, x_client = c, x_server = fresh_io\<rparr>
      \<lparr>x_phase = Finished SASL_OK, x_client = c, x_server = ?s\<rparr>" by simp
  with send show ?thesis
    by (intro exI [of _ "\<lparr>x_phase = Finished SASL_OK, x_client = c, x_server = ?s\<rparr>"]) (auto simp: numeral_2_eq_2)
qed

lemma rejected_run:
  assumes "client_may_start ci" and "client_sends ci c0 requested tok" and "clean requested tok"
    and "length (build_client_response requested tok) \<le> 65536" and "tls_error utils config = None"
    and "verify lib clock (sc_verifier config) tok = Inl e"
  shows "\<exists>x. (xstep lib config ^^ 4) (exchange_start c0) x \<and> x_phase x = Finished SASL_BADAUTH \<and>
    doneflag (cl_oparams (x_client x)) = 1 \<and> oparams (x_server x) = (finish fresh_params)\<lparr>canon_calls := []\<rparr>"
proof -
  let ?m = "build_client_response requested tok"
  let ?s = "fresh_io\<lparr>server_out := Some INVALID_TOKEN_JSON, out_slot := Some INVALID_TOKEN_JSON\<rparr>"
  let ?s' = "?s\<lparr>out_slot := None, oparams := finish (oparams ?s)\<rparr>"
  obtain c where send: "xstep lib config (exchange_start c0) \<lparr>x_phase = AtServer ?m, x_client = c, x_server = fresh_io\<rparr>"
    using exchange_send [OF assms(1,2), of lib config] assms(4) by auto
  have "server_step lib clock utils config ?m None fresh_io = (Ret SASL_CONTINUE, ?s)"
    by (rule server_step_rejected [OF assms(5) _ client_sends_message [OF assms(2,3)]])
      (use assms(4,6) in \<open>auto simp: MAX_CLIENTIN_LEN_def\<close>)
  from xstep.challenge [OF this]
  have challenge: "xstep lib config \<lparr>x_phase = AtServer ?m, x_client = c, x_server = fresh_io\<rparr>
      \<lparr>x_phase = Challenged INVALID_TOKEN_JSON, x_client = c, x_server = ?s\<rparr>" by simp
  obtain c' where ack: "xstep lib config \<lparr>x_phase = Challenged INVALID_TOKEN_JSON, x_client = c, x_server = ?s\<rparr>
      \<lparr>x_phase = AtServer [CHR 0x01], x_client = c', x_server = ?s\<rparr>" "doneflag (cl_oparams c') = 1"
    using exchange_acknowledge by blast
  from exchange_give_up [OF assms(5), of lib c' ?s] send challenge ack
  have "(xstep lib config ^^ 4) (exchange_start c0)
      \<lparr>x_phase = Finished SASL_BADAUTH, x_client = c', x_server = ?s'\<rparr>"
    by (auto simp: eval_nat_numeral)
  with ack(2) show ?thesis
    by (intro exI [of _ "\<lparr>x_phase = Finished SASL_BADAUTH, x_client = c', x_server = ?s'\<rparr>"])
      (simp add: fresh_io_def finish_def)
qed

section \<open>Properties\<close>


text \<open>C8: When an exchange ends with success, the client had sent the response for values its application
  gave, the server's verifier accepted the token that response denotes, and the identities handed to the
  framework are the verified one and the one the response asks for.\<close>

theorem exchange_sound:
  assumes "rtranclp (xstep lib config) (exchange_start c0) x" and "x_phase x = Finished SASL_OK"
  shows "\<exists>ci requested tok resp clock uid. client_sends ci c0 requested tok \<and>
    client_message (delivered (build_client_response requested tok)) resp \<and>
    verify lib clock (sc_verifier config) (token resp) = Inr uid \<and>
    canon_calls (oparams (x_server x)) = canon_names uid (authzid resp)"
proof -
  from assms(1) obtain n where "(xstep lib config ^^ n) (exchange_start c0) x"
    by (auto simp: rtranclp_power)
  from phase_inv_run [OF this] assms(2) show ?thesis by simp blast
qed

text \<open>C24: Client and server agree on a clean token, one without separator bytes: an exchange over a protected
  connection whose token the verifier accepts can finish in two steps, and the server then holds exactly
  the verified identity and the one the application asked for.\<close>

theorem exchange_completes:
  assumes "client_may_start ci" and "client_sends ci c0 requested tok" and "clean requested tok"
    and "length (build_client_response requested tok) \<le> 65536" and "tls_error utils config = None"
    and "verify lib clock (sc_verifier config) tok = Inr uid"
    and "list_all (\<lambda>(n, f). canon n f = SASL_OK) (canon_names uid requested)"
  shows "\<exists>x. (xstep lib config ^^ 2) (exchange_start c0) x \<and> x_phase x = Finished SASL_OK \<and>
    oparams (x_server x) = (finish fresh_params)\<lparr>canon_calls := canon_names uid requested\<rparr>"
  using assms by (rule completes_run)

text \<open>C25: The rejection round trip of RFC 7628: when the verifier rejects the token, the server can challenge
  with the error document, the client answers it with the single separator byte and is done, and the
  server ends the exchange with \<open>SASL_BADAUTH\<close>, having handed no identity to the framework.\<close>

theorem exchange_rejected:
  assumes "client_may_start ci" and "client_sends ci c0 requested tok" and "clean requested tok"
    and "length (build_client_response requested tok) \<le> 65536" and "tls_error utils config = None"
    and "verify lib clock (sc_verifier config) tok = Inl e"
  shows "\<exists>x. (xstep lib config ^^ 4) (exchange_start c0) x \<and> x_phase x = Finished SASL_BADAUTH \<and>
    doneflag (cl_oparams (x_client x)) = 1 \<and> oparams (x_server x) = (finish fresh_params)\<lparr>canon_calls := []\<rparr>"
  using assms by (rule rejected_run)

text \<open>The sample token, sent for the sample verifier.\<close>

lemma sample_server_verifier: "sc_verifier sample_server = sample_verifier"
  by (simp add: sample_server_def)

lemma sample_exchange:
  "client_may_start (sample_client (Some sample_token))"
  "client_sends (sample_client (Some sample_token)) fresh_client None sample_token"
  "clean None sample_token" "length (build_client_response None sample_token) \<le> 65536"
  "tls_error sample_utils sample_server = None"
  "verify sample_lib (Some 1002) (sc_verifier sample_server) sample_token = Inr ''alice''"
  "verify sample_lib None (sc_verifier sample_server) sample_token = Inl (ConfigError TimeBeforeEpoch)"
proof -
  have "valid_utf8 sample_token" by code_simp
  then show "client_sends (sample_client (Some sample_token)) fresh_client None sample_token"
    by (simp add: client_sends_def sample_client_values requested_name_def client_names_def)
      (simp add: sample_client_def)
  show "clean None sample_token" by code_simp
  have "length (build_client_response None sample_token) < 100" by code_simp
  then show "length (build_client_response None sample_token) \<le> 65536" by simp
  show "tls_error sample_utils sample_server = None" by code_simp
  show "verify sample_lib None (sc_verifier sample_server) sample_token = Inl (ConfigError TimeBeforeEpoch)"
    by code_simp
qed (simp_all add: sample_client_starts sample_server_def sample_verify)

theorem exchange_completes_witness:
  "\<exists>x. (xstep sample_lib sample_server ^^ 2) (exchange_start fresh_client) x \<and> x_phase x = Finished SASL_OK"
  using exchange_completes [OF sample_exchange(1-6), of "\<lambda>n f. SASL_OK"] by (auto simp: canon_names_def)

theorem exchange_rejected_witness:
  "\<exists>x. (xstep sample_lib sample_server ^^ 4) (exchange_start fresh_client) x \<and> x_phase x = Finished SASL_BADAUTH"
  using exchange_rejected [OF sample_exchange(1-5,7)] by blast


theorem exchange_sound_witness:
  "\<exists>requested tok resp clock uid. client_message (delivered (build_client_response requested tok)) resp \<and>
     verify sample_lib clock sample_verifier (token resp) = Inr uid"
proof -
  obtain x where "(xstep sample_lib sample_server ^^ 2) (exchange_start fresh_client) x" "x_phase x = Finished SASL_OK"
    using completes_run [OF sample_exchange(1-6), of "\<lambda>n f. SASL_OK"] by (auto simp: canon_names_def)
  moreover from this(1) have "rtranclp (xstep sample_lib sample_server) (exchange_start fresh_client) x"
    by (rule relpowp_imp_rtranclp)
  ultimately show ?thesis
    using exchange_sound [of sample_lib sample_server fresh_client x] sample_server_verifier by metis
qed

end
