(* ===== verification/Server_Memory.thy ===== *)
theory Server_Memory
  imports Store Sasl_Server
begin

text \<open>
  The server plugin over explicit memory, \<open>sasl/src/server.rs\<close> from \<open>ServerContext\<close> on: the configuration
  that \<open>sasl_server_plug_init\<close> leaks into the plugin table, the contexts that \<open>server_mech_new\<close> hands to
  the framework as raw pointers and that hold a raw pointer to the configuration, the output that a
  step publishes by its address, and the callbacks that take all of it back. What a step computes is
  \<open>server_step\<close>; here it is run on what the pointers point to.
\<close>

section \<open>Blocks and operations\<close>

datatype 'k server_block =
  ConfigBlock "'k server_config"
| ContextBlock addr "addr option"
| CStringBlock bytes

type_synonym 'k server_store = "'k server_block store"

text \<open>Reading through a pointer of a given type.\<close>

definition config_at :: "'k server_store \<Rightarrow> addr \<Rightarrow> 'k server_config option" where
  "config_at h a = (case block h a of Some (ConfigBlock c) \<Rightarrow> Some c | _ \<Rightarrow> None)"

definition context_at :: "'k server_store \<Rightarrow> addr \<Rightarrow> (addr \<times> addr option) option" where
  "context_at h a = (case block h a of Some (ContextBlock g out) \<Rightarrow> Some (g, out) | _ \<Rightarrow> None)"

definition cstring_at :: "'k server_store \<Rightarrow> addr option \<Rightarrow> bytes option" where
  "cstring_at h a = (case Option.bind a (block h) of Some (CStringBlock t) \<Rightarrow> Some t | _ \<Rightarrow> None)"

text \<open>Dropping an \<open>Option<CString>\<close>.\<close>

definition drop_cstring :: "addr option \<Rightarrow> 'k server_store \<Rightarrow> 'k server_store option" where
  "drop_cstring a h =
     (case a of None \<Rightarrow> Some h | Some p \<Rightarrow> if cstring_at h a = None then None else free p h)"

text \<open>The plugin table, which \<open>sasl_server_plug_init\<close> hands out on success: \<open>Box::into_raw(config)\<close> makes the
  configuration the global context.\<close>

datatype server_entry = Server_mech_new | Server_mech_step | Server_mech_dispose | Server_mech_free

record server_plug =
  spl_mech_name :: bytes
  spl_max_ssf :: nat
  spl_security_flags :: "security_flag set"
  spl_features :: "feature set"
  spl_glob_context :: addr
  spl_mech_new :: "server_entry option"
  spl_mech_step :: "server_entry option"
  spl_mech_dispose :: "server_entry option"
  spl_mech_free :: "server_entry option"
  spl_setpass :: "server_entry option"
  spl_user_query :: "server_entry option"
  spl_idle :: "server_entry option"
  spl_mech_avail :: "server_entry option"

definition make_server_plugin :: "'k server_config \<Rightarrow> 'k server_store \<Rightarrow> server_plug \<times> 'k server_store" where
  "make_server_plugin config h =
     (let (g, h) = alloc (ConfigBlock config) h in
      (\<lparr>spl_mech_name = MECH_NAME, spl_max_ssf = 0,
        spl_security_flags = {SASL_SEC_NOPLAINTEXT, SASL_SEC_NOANONYMOUS},
        spl_features = {SASL_FEAT_WANT_CLIENT_FIRST, SASL_FEAT_ALLOWS_PROXY},
        spl_glob_context = g, spl_mech_new = Some Server_mech_new, spl_mech_step = Some Server_mech_step,
        spl_mech_dispose = Some Server_mech_dispose, spl_mech_free = Some Server_mech_free,
        spl_setpass = None, spl_user_query = None, spl_idle = None, spl_mech_avail = None\<rparr>, h))"

definition mech_new_at :: "addr option \<Rightarrow> bool \<Rightarrow> bool \<Rightarrow> 'k server_store \<Rightarrow>
    sasl_rc \<times> addr option \<times> 'k server_store" where
  "mech_new_at glob_context params_given conn_context_given h =
     (case glob_context of
        Some g \<Rightarrow>
          if \<not> params_given \<or> \<not> conn_context_given then (SASL_BADPARAM, None, h)
          else (let (a, h') = alloc (ContextBlock g None) h in (SASL_OK, Some a, h'))
      | None \<Rightarrow> (SASL_BADPARAM, None, h))"

text \<open>What the framework holds of a connection: the output pointer and the output parameters.\<close>

record conn =
  cn_out :: "addr option"
  cn_oparams :: out_params

text \<open>The step: \<open>ctx.server_out = CString::new(json).ok()\<close> builds the new string, then drops the old one;
  the address of the new one is published.\<close>

definition mech_step_at :: "('j, 'k) jwt_lib \<Rightarrow> server_input \<Rightarrow> addr \<Rightarrow> conn \<Rightarrow> 'k server_store \<Rightarrow>
    (sasl_rc \<times> conn \<times> 'k server_store) option" where
  "mech_step_at lib si ctx c h =
     (case context_at h ctx of
        None \<Rightarrow> None
      | Some (g, old) \<Rightarrow>
          (case config_at h g of
             None \<Rightarrow> None
           | Some config \<Rightarrow>
               (let (rc, io) = server_step lib (si_clock si) (si_utils si) config (si_data si) (si_canon si)
                      \<lparr>server_out = cstring_at h old, out_slot = cstring_at h (cn_out c), oparams = cn_oparams c\<rparr>
                in case out_slot io of
                     None \<Rightarrow> Some (sasl_guard rc, \<lparr>cn_out = None, cn_oparams = oparams io\<rparr>, h)
                   | Some text \<Rightarrow>
                       (let (a, h1) = alloc (CStringBlock text) h in
                        Option.bind (put ctx (ContextBlock g (Some a)) h1) (\<lambda>h2.
                        map_option (\<lambda>h3. (sasl_guard rc, \<lparr>cn_out = Some a, cn_oparams = oparams io\<rparr>, h3))
                          (drop_cstring old h2))))))"

text \<open>\<open>Box::from_raw\<close> and \<open>drop\<close>: the box, then the fields.\<close>

definition mech_dispose_at :: "addr option \<Rightarrow> 'k server_store \<Rightarrow> 'k server_store option" where
  "mech_dispose_at conn_context h =
     (case conn_context of
        None \<Rightarrow> Some h
      | Some ctx \<Rightarrow>
          (case context_at h ctx of
             None \<Rightarrow> None
           | Some (g, out) \<Rightarrow> Option.bind (free ctx h) (drop_cstring out)))"

definition mech_free_at :: "addr option \<Rightarrow> 'k server_store \<Rightarrow> 'k server_store option" where
  "mech_free_at glob_context h =
     (case glob_context of
        None \<Rightarrow> Some h
      | Some g \<Rightarrow> if config_at h g = None then None else free g h)"

lemmas server_memory_eval [rust_defs] =
  config_at_def context_at_def cstring_at_def drop_cstring_def make_server_plugin_def mech_new_at_def
  mech_step_at_def mech_dispose_at_def mech_free_at_def

section \<open>The framework\<close>

text \<open>The calls of libsasl2, and what it may call when: it loads the plugin once, steps and disposes only
  connections it opened and has not disposed, and unloads the plugin after the last of them.\<close>

record 'k plugin =
  pl_store :: "'k server_store"
  pl_glob :: "addr option"
  pl_conns :: "addr \<Rightarrow> conn option"

datatype 'k fw_call = Load "'k server_config" | New | Step addr server_input | Dispose addr | Unload

definition plugin_new :: "'k plugin" where
  "plugin_new = \<lparr>pl_store = store_new, pl_glob = None, pl_conns = (\<lambda>_. None)\<rparr>"

definition fresh_conn :: conn where
  "fresh_conn = \<lparr>cn_out = None, cn_oparams = fresh_params\<rparr>"

fun permitted :: "'k fw_call \<Rightarrow> 'k plugin \<Rightarrow> bool" where
  "permitted (Load config) s \<longleftrightarrow> pl_glob s = None"
| "permitted New s \<longleftrightarrow> True"
| "permitted (Step a si) s \<longleftrightarrow> pl_conns s a \<noteq> None"
| "permitted (Dispose a) s \<longleftrightarrow> pl_conns s a \<noteq> None"
| "permitted Unload s \<longleftrightarrow> (\<forall>a. pl_conns s a = None)"

fun call :: "('j, 'k) jwt_lib \<Rightarrow> 'k fw_call \<Rightarrow> 'k plugin \<Rightarrow> 'k plugin option" where
  "call lib (Load config) s =
     (let (plug, h) = make_server_plugin config (pl_store s)
      in Some (s\<lparr>pl_store := h, pl_glob := Some (spl_glob_context plug)\<rparr>))"
| "call lib New s =
     (let (rc, ctx, h) = mech_new_at (pl_glob s) True True (pl_store s)
      in Some (s\<lparr>pl_store := h, pl_conns := (case ctx of None \<Rightarrow> pl_conns s | Some a \<Rightarrow> (pl_conns s)(a \<mapsto> fresh_conn))\<rparr>))"
| "call lib (Step a si) s =
     Option.bind (pl_conns s a) (\<lambda>c.
     map_option (\<lambda>(rc, c', h). s\<lparr>pl_store := h, pl_conns := (pl_conns s)(a \<mapsto> c')\<rparr>)
       (mech_step_at lib si a c (pl_store s)))"
| "call lib (Dispose a) s =
     map_option (\<lambda>h. s\<lparr>pl_store := h, pl_conns := (pl_conns s)(a := None)\<rparr>) (mech_dispose_at (Some a) (pl_store s))"
| "call lib Unload s =
     map_option (\<lambda>h. s\<lparr>pl_store := h, pl_glob := None\<rparr>) (mech_free_at (pl_glob s) (pl_store s))"

inductive fw_reach :: "('j, 'k) jwt_lib \<Rightarrow> 'k plugin \<Rightarrow> bool" for lib where
  start: "fw_reach lib plugin_new"
| call: "fw_reach lib s \<Longrightarrow> permitted cl s \<Longrightarrow> call lib cl s = Some s' \<Longrightarrow> fw_reach lib s'"

section \<open>Ownership\<close>

text \<open>Every block has its owner: the plugin table the configuration, the framework the contexts, a context
  its string; a published pointer is null or that of the string of its context.\<close>

definition owned :: "'k plugin \<Rightarrow> bool" where
  "owned s \<longleftrightarrow> store_wf (pl_store s) \<and>
     (\<forall>a c. block (pl_store s) a = Some (ConfigBlock c) \<longrightarrow> pl_glob s = Some a) \<and>
     (\<forall>g. pl_glob s = Some g \<longrightarrow> (\<exists>c. block (pl_store s) g = Some (ConfigBlock c))) \<and>
     (\<forall>a. pl_conns s a \<noteq> None \<longleftrightarrow> (\<exists>g out. block (pl_store s) a = Some (ContextBlock g out))) \<and>
     (\<forall>a g out. block (pl_store s) a = Some (ContextBlock g out) \<longrightarrow> pl_glob s = Some g \<and>
        (\<forall>x. out = Some x \<longrightarrow> block (pl_store s) x = Some (CStringBlock INVALID_TOKEN_JSON))) \<and>
     (\<forall>x t. block (pl_store s) x = Some (CStringBlock t) \<longrightarrow>
        (\<exists>a g. block (pl_store s) a = Some (ContextBlock g (Some x)))) \<and>
     (\<forall>x a g b g'. block (pl_store s) a = Some (ContextBlock g (Some x)) \<longrightarrow>
        block (pl_store s) b = Some (ContextBlock g' (Some x)) \<longrightarrow> a = b) \<and>
     (\<forall>a c x. pl_conns s a = Some c \<longrightarrow> cn_out c = Some x \<longrightarrow>
        (\<exists>g. block (pl_store s) a = Some (ContextBlock g (Some x))))"

lemma owned_new: "owned plugin_new"
  by (simp add: owned_def plugin_new_def)

lemma ownedD:
  assumes "owned s"
  shows "store_wf (pl_store s)"
    and "block (pl_store s) a = Some (ConfigBlock c) \<Longrightarrow> pl_glob s = Some a"
    and "pl_glob s = Some g \<Longrightarrow> \<exists>c. block (pl_store s) g = Some (ConfigBlock c)"
    and "pl_conns s a \<noteq> None \<longleftrightarrow> (\<exists>g out. block (pl_store s) a = Some (ContextBlock g out))"
    and "block (pl_store s) a = Some (ContextBlock g out) \<Longrightarrow> pl_glob s = Some g"
    and "block (pl_store s) a = Some (ContextBlock g (Some x)) \<Longrightarrow>
      block (pl_store s) x = Some (CStringBlock INVALID_TOKEN_JSON)"
    and "block (pl_store s) x = Some (CStringBlock t) \<Longrightarrow>
      \<exists>a g. block (pl_store s) a = Some (ContextBlock g (Some x))"
    and "block (pl_store s) a = Some (ContextBlock g (Some x)) \<Longrightarrow>
      block (pl_store s) b = Some (ContextBlock g' (Some x)) \<Longrightarrow> a = b"
    and "pl_conns s a = Some c' \<Longrightarrow> cn_out c' = Some x \<Longrightarrow>
      \<exists>g. block (pl_store s) a = Some (ContextBlock g (Some x))"
  using assms unfolding owned_def by blast+

lemma sel:
  "pl_store (s\<lparr>pl_store := h, pl_conns := m\<rparr>) = h" "pl_conns (s\<lparr>pl_store := h, pl_conns := m\<rparr>) = m"
  "pl_glob (s\<lparr>pl_store := h, pl_conns := m\<rparr>) = pl_glob s"
  by simp_all

text \<open>A change of one context, at \<open>a\<close>, to \<open>new\<close>: its old string goes, its new one comes.\<close>

lemma owned_focus:
  assumes s: "owned s" and glob: "pl_glob s = Some g" and wf: "store_wf h"
    and conf: "\<And>b d. block h b = Some (ConfigBlock d) \<longleftrightarrow> block (pl_store s) b = Some (ConfigBlock d)"
    and ctx: "\<And>b g' out. block h b = Some (ContextBlock g' out) \<longleftrightarrow>
      (if b = a then new = Some (g', out) else block (pl_store s) b = Some (ContextBlock g' out))"
    and str: "\<And>x t. block h x = Some (CStringBlock t) \<longleftrightarrow>
      (if new = Some (g, Some x) then t = INVALID_TOKEN_JSON
       else block (pl_store s) a \<noteq> Some (ContextBlock g (Some x)) \<and> block (pl_store s) x = Some (CStringBlock t))"
    and new: "\<And>g' out. new = Some (g', out) \<Longrightarrow> g' = g"
      "\<And>x. new = Some (g, Some x) \<Longrightarrow> block (pl_store s) x = None"
    and conns: "\<And>b. b \<noteq> a \<Longrightarrow> m b = pl_conns s b" "m a \<noteq> None \<longleftrightarrow> new \<noteq> None"
      "\<And>c x. m a = Some c \<Longrightarrow> cn_out c = Some x \<Longrightarrow> new = Some (g, Some x)"
  shows "owned (s\<lparr>pl_store := h, pl_conns := m\<rparr>)"
  unfolding owned_def sel
proof (intro conjI allI impI)
  show "store_wf h" by (rule wf)
next
  fix b d assume "block h b = Some (ConfigBlock d)"
  then show "pl_glob s = Some b" using ownedD(2) [OF s] conf by blast
next
  fix g' assume "pl_glob s = Some g'"
  then show "\<exists>d. block h g' = Some (ConfigBlock d)" using ownedD(3) [OF s] conf by blast
next
  fix b show "(m b \<noteq> None) = (\<exists>g' out. block h b = Some (ContextBlock g' out))"
    using ownedD(4) [OF s, of b] conns(1,2) by (cases "b = a") (auto simp: ctx)
next
  fix b g' out assume "block h b = Some (ContextBlock g' out)"
  then show "pl_glob s = Some g'"
    using ownedD(5) [OF s, of b g' out] glob new(1) by (auto simp: ctx split: if_splits)
next
  fix b g' out x assume b: "block h b = Some (ContextBlock g' out)" "out = Some x"
  show "block h x = Some (CStringBlock INVALID_TOKEN_JSON)"
  proof (cases "b = a")
    case True
    with b new(1) show ?thesis by (auto simp: ctx str)
  next
    case False
    with b have "block (pl_store s) b = Some (ContextBlock g' (Some x))" by (simp add: ctx)
    moreover from this ownedD(6,8) [OF s] False
    have "block (pl_store s) x = Some (CStringBlock INVALID_TOKEN_JSON)"
      "block (pl_store s) a \<noteq> Some (ContextBlock g (Some x))" by blast+
    ultimately show ?thesis using new(2) [of x] by (simp add: str)
  qed
next
  fix x t assume x: "block h x = Some (CStringBlock t)"
  show "\<exists>b g'. block h b = Some (ContextBlock g' (Some x))"
  proof (cases "new = Some (g, Some x)")
    case True
    then have "block h a = Some (ContextBlock g (Some x))" by (simp add: ctx)
    then show ?thesis by blast
  next
    case False
    with x have "block (pl_store s) x = Some (CStringBlock t)"
      "block (pl_store s) a \<noteq> Some (ContextBlock g (Some x))" by (simp_all add: str)
    moreover from this ownedD(7) [OF s] obtain b g' where "block (pl_store s) b = Some (ContextBlock g' (Some x))"
      by blast
    moreover from this ownedD(5) [OF s] glob have "g' = g" by fastforce
    ultimately have "block h b = Some (ContextBlock g (Some x))" by (auto simp: ctx)
    then show ?thesis by blast
  qed
next
  fix x b g1 d g2
  assume bd: "block h b = Some (ContextBlock g1 (Some x))" "block h d = Some (ContextBlock g2 (Some x))"
  have new': "new = Some (g', out) \<longleftrightarrow> g' = g \<and> new = Some (g, out)" for g' out
    using new(1) by blast
  show "b = d"
  proof (cases "new = Some (g, Some x)")
    case True
    then have "block (pl_store s) e \<noteq> Some (ContextBlock g3 (Some x))" for e g3
      using new(2) ownedD(6) [OF s, of e g3 x] by auto
    with bd show ?thesis by (simp add: ctx split: if_splits)
  next
    case False
    then have "new \<noteq> Some (g3, Some x)" for g3 using new' by metis
    with bd have "block (pl_store s) b = Some (ContextBlock g1 (Some x))"
      "block (pl_store s) d = Some (ContextBlock g2 (Some x))"
      by (auto simp: ctx split: if_splits)
    then show ?thesis by (rule ownedD(8) [OF s])
  qed
next
  fix b d x assume "m b = Some d" "cn_out d = Some x"
  then show "\<exists>g'. block h b = Some (ContextBlock g' (Some x))"
    using ownedD(9) [OF s, of b d x] conns(1,3) by (cases "b = a") (auto simp: ctx)
qed

lemma context_at_Some: "context_at h a = Some (g, out) \<longleftrightarrow> block h a = Some (ContextBlock g out)"
  by (auto simp: context_at_def split: option.splits server_block.splits)

lemma config_at_Some: "config_at h a = Some c \<longleftrightarrow> block h a = Some (ConfigBlock c)"
  by (auto simp: config_at_def split: option.splits server_block.splits)

lemma cstring_at_Some: "cstring_at h p = Some t \<longleftrightarrow> (\<exists>a. p = Some a \<and> block h a = Some (CStringBlock t))"
  by (cases p) (auto simp: cstring_at_def split: option.splits server_block.splits)

lemma owned_quiet:
  assumes s: "owned s" and "pl_conns s a \<noteq> None" and "cn_out c = None"
  shows "owned (s\<lparr>pl_conns := (pl_conns s)(a \<mapsto> c)\<rparr>)"
proof -
  have upd: "pl_store (s\<lparr>pl_conns := m\<rparr>) = pl_store s" "pl_glob (s\<lparr>pl_conns := m\<rparr>) = pl_glob s"
    "pl_conns (s\<lparr>pl_conns := m\<rparr>) = m" for m
    by simp_all
  have dom: "((pl_conns s)(a \<mapsto> c)) b \<noteq> None \<longleftrightarrow> pl_conns s b \<noteq> None" for b
    using assms(2) by simp
  have out: "\<exists>g. block (pl_store s) b = Some (ContextBlock g (Some x))"
    if "((pl_conns s)(a \<mapsto> c)) b = Some d" "cn_out d = Some x" for b d x
    using that assms(3) ownedD(9) [OF s, of b d x] by (auto split: if_splits)
  from s [unfolded owned_def] show ?thesis
    unfolding owned_def upd dom
    by (elim conjE; intro conjI) (assumption | intro allI impI, rule out, assumption+)+
qed

lemma owned_conn:
  assumes s: "owned s" and "pl_conns s a = Some c"
  obtains g old config where "block (pl_store s) a = Some (ContextBlock g old)" "pl_glob s = Some g"
    "block (pl_store s) g = Some (ConfigBlock config)"
    "\<And>x. old = Some x \<Longrightarrow> block (pl_store s) x = Some (CStringBlock INVALID_TOKEN_JSON)"
proof -
  from assms(2) ownedD(4) [OF s, of a] obtain g old where a: "block (pl_store s) a = Some (ContextBlock g old)"
    by auto
  moreover from ownedD(5) [OF s a] have g: "pl_glob s = Some g" .
  moreover from ownedD(3) [OF s g] obtain config where "block (pl_store s) g = Some (ConfigBlock config)" by blast
  moreover from ownedD(6) [OF s] a have "old = Some x \<Longrightarrow> block (pl_store s) x = Some (CStringBlock INVALID_TOKEN_JSON)" for x
    by blast
  ultimately show thesis using that by blast
qed

text \<open>Replacing the string of a context: what \<open>mech_step_at\<close> does to memory when it publishes.\<close>

lemma swap_string:
  assumes s: "owned s" and a: "block (pl_store s) a = Some (ContextBlock g old)" and glob: "pl_glob s = Some g"
    and old: "\<And>x. old = Some x \<Longrightarrow> block (pl_store s) x = Some (CStringBlock INVALID_TOKEN_JSON)"
    and al: "alloc (CStringBlock INVALID_TOKEN_JSON) (pl_store s) = (n, h1)"
  shows "\<exists>h2 h3. put a (ContextBlock g (Some n)) h1 = Some h2 \<and> drop_cstring old h2 = Some h3 \<and>
    block h3 a = Some (ContextBlock g (Some n)) \<and> block h3 n = Some (CStringBlock INVALID_TOKEN_JSON) \<and>
    (\<forall>x. x \<noteq> a \<longrightarrow> x \<noteq> n \<longrightarrow> old \<noteq> Some x \<longrightarrow> block h3 x = block (pl_store s) x) \<and>
    block (pl_store s) n = None \<and>
    (\<forall>c. cn_out c = Some n \<longrightarrow> owned (s\<lparr>pl_store := h3, pl_conns := (pl_conns s)(a \<mapsto> c)\<rparr>))"
proof -
  note wf = ownedD(1) [OF s]
  from a have "block (pl_store s) a \<noteq> None" by simp
  from mem.alloc_put [OF wf this al, of "ContextBlock g (Some n)"]
  obtain h2 where h2: "put a (ContextBlock g (Some n)) h1 = Some h2" "store_wf h2" "n \<noteq> a"
    "block (pl_store s) n = None"
    "\<And>x. block h2 x = (if x = a then Some (ContextBlock g (Some n))
       else if x = n then Some (CStringBlock INVALID_TOKEN_JSON) else block (pl_store s) x)"
    by auto
  have "\<exists>h3. drop_cstring old h2 = Some h3 \<and> store_wf h3 \<and>
    (\<forall>x. block h3 x = (if old = Some x then None else block h2 x))"
  proof (cases old)
    case None
    with h2(2) show ?thesis by (simp add: drop_cstring_def)
  next
    case (Some x)
    from old [OF Some] a h2(3-5) have x: "block h2 x = Some (CStringBlock INVALID_TOKEN_JSON)" by auto
    with mem.free_get [OF h2(2), of x] Some show ?thesis
      by (auto simp: drop_cstring_def cstring_at_def)
  qed
  then obtain h3 where h3: "drop_cstring old h2 = Some h3" "store_wf h3"
    "\<And>x. block h3 x = (if old = Some x then None else block h2 x)" by blast
  have na: "old \<noteq> Some a" "old \<noteq> Some n" using old a h2(4) by fastforce+
  have "owned (s\<lparr>pl_store := h3, pl_conns := (pl_conns s)(a \<mapsto> c)\<rparr>)" if "cn_out c = Some n" for c
    by (rule owned_focus [OF s glob h3(2), where a = a and new = "Some (g, Some n)"])
      (use a old na h2(3,4) that in \<open>auto simp: h3(3) h2(5)\<close>)
  with h2 h3 na show ?thesis by auto
qed

text \<open>Loading, opening, disposing and unloading.\<close>

lemma owned_load:
  assumes s: "owned s" and "pl_glob s = None"
  shows "\<exists>s'. call lib (Load config) s = Some s' \<and> owned s'"
proof -
  obtain g h where al: "alloc (ConfigBlock config) (pl_store s) = (g, h)" by force
  note wf = ownedD(1) [OF s]
  from mem.alloc_fresh [OF wf al] mem.alloc_get [OF wf al]
  have h: "block (pl_store s) g = None" "store_wf h"
    "\<And>x. block h x = (if x = g then Some (ConfigBlock config) else block (pl_store s) x)" by auto
  have "block (pl_store s) a = None" for a
    using ownedD(2,5,7) [OF s] assms(2)
    by (cases "block (pl_store s) a"; cases "the (block (pl_store s) a)") fastforce+
  moreover from this have "pl_conns s a = None" for a using ownedD(4) [OF s, of a] by simp
  ultimately have "owned (s\<lparr>pl_store := h, pl_glob := Some g\<rparr>)"
    using h by (auto simp: owned_def)
  with al show ?thesis by (simp add: make_server_plugin_def)
qed

lemma owned_open:
  assumes s: "owned s"
  shows "\<exists>s'. call lib New s = Some s' \<and> owned s'"
proof (cases "pl_glob s")
  case None
  then have "call lib New s = Some s" by (cases s) (simp add: mech_new_at_def)
  with s show ?thesis by simp
next
  case (Some g)
  obtain a h where al: "alloc (ContextBlock g None) (pl_store s) = (a, h)" by force
  note wf = ownedD(1) [OF s]
  from mem.alloc_fresh [OF wf al] mem.alloc_get [OF wf al]
  have h: "block (pl_store s) a = None" "store_wf h"
    "\<And>x. block h x = (if x = a then Some (ContextBlock g None) else block (pl_store s) x)" by auto
  have "pl_conns s a = None" using ownedD(4) [OF s, of a] h(1) by simp
  have "owned (s\<lparr>pl_store := h, pl_conns := (pl_conns s)(a \<mapsto> fresh_conn)\<rparr>)"
    by (rule owned_focus [OF s Some h(2), where a = a and new = "Some (g, None)"])
      (use h(1) in \<open>auto simp: h(3) fresh_conn_def\<close>)
  with al Some show ?thesis by (simp add: mech_new_at_def)
qed

section \<open>The step refines the step of the model without memory\<close>

definition view :: "'k plugin \<Rightarrow> addr \<Rightarrow> server_io option" where
  "view s a =
     (case (pl_conns s a, context_at (pl_store s) a) of
        (Some c, Some (g, out)) \<Rightarrow> Some \<lparr>server_out = cstring_at (pl_store s) out,
          out_slot = cstring_at (pl_store s) (cn_out c), oparams = cn_oparams c\<rparr>
      | _ \<Rightarrow> None)"

lemma view_frame:
  assumes s: "owned s" and a: "block (pl_store s) a = Some (ContextBlock g old)" and b: "b \<noteq> a"
    and n: "block (pl_store s) n = None"
    and old: "\<And>x. old = Some x \<Longrightarrow> block (pl_store s) x = Some (CStringBlock INVALID_TOKEN_JSON)"
    and h: "\<And>x. x \<noteq> a \<Longrightarrow> x \<noteq> n \<Longrightarrow> old \<noteq> Some x \<Longrightarrow> block h x = block (pl_store s) x"
  shows "view (s\<lparr>pl_store := h, pl_conns := (pl_conns s)(a \<mapsto> c)\<rparr>) b = view s b"
proof (cases "pl_conns s b")
  case None
  with b show ?thesis by (simp add: view_def)
next
  case (Some d)
  from owned_conn [OF s Some] obtain g' out where ctx: "block (pl_store s) b = Some (ContextBlock g' out)"
    and str: "\<And>x. out = Some x \<Longrightarrow> block (pl_store s) x = Some (CStringBlock INVALID_TOKEN_JSON)"
    by blast
  have "b \<noteq> n" "old \<noteq> Some b" using ctx n old by fastforce+
  then have hb: "block h b = block (pl_store s) b" using h b by blast
  have hx: "block h x = block (pl_store s) x" if "out = Some x" for x
  proof (rule h)
    show "x \<noteq> a" "x \<noteq> n" using str [OF that] a n by auto
    show "old \<noteq> Some x" using ctx a that b ownedD(8) [OF s, of a g x b g'] by auto
  qed
  have "cn_out d = None \<or> cn_out d = out"
    using ownedD(9) [OF s Some] ctx by (cases "cn_out d") auto
  with Some ctx hb hx b show ?thesis
    by (cases out) (auto simp: view_def context_at_def cstring_at_def)
qed

lemma owned_step:
  assumes s: "owned s" and c: "pl_conns s a = Some c"
  shows "\<exists>g config s' io rc io'. pl_glob s = Some g \<and> config_at (pl_store s) g = Some config \<and>
    call lib (Step a si) s = Some s' \<and> owned s' \<and> pl_glob s' = pl_glob s \<and>
    view s a = Some io \<and> view s' a = Some io' \<and>
    server_step lib (si_clock si) (si_utils si) config (si_data si) (si_canon si) io = (rc, io') \<and>
    (\<forall>b. b \<noteq> a \<longrightarrow> view s' b = view s b)"
proof -
  from owned_conn [OF s c] obtain g old config where a: "block (pl_store s) a = Some (ContextBlock g old)"
    and g: "pl_glob s = Some g" "block (pl_store s) g = Some (ConfigBlock config)"
    and old: "\<And>x. old = Some x \<Longrightarrow> block (pl_store s) x = Some (CStringBlock INVALID_TOKEN_JSON)"
    by blast
  let ?io = "\<lparr>server_out = cstring_at (pl_store s) old, out_slot = cstring_at (pl_store s) (cn_out c),
    oparams = cn_oparams c\<rparr>"
  from a have ctx: "context_at (pl_store s) a = Some (g, old)" by (simp add: context_at_Some)
  from g have cfg: "config_at (pl_store s) g = Some config" by (simp add: config_at_Some)
  from c ctx have view: "view s a = Some ?io" by (simp add: view_def)
  obtain rc io' where step: "server_step lib (si_clock si) (si_utils si) config (si_data si) (si_canon si) ?io = (rc, io')"
    by force
  from server_step_outputs [OF step] show ?thesis
  proof
    assume out: "out_slot io' = None \<and> server_out io' = server_out ?io"
    let ?s = "s\<lparr>pl_conns := (pl_conns s)(a \<mapsto> \<lparr>cn_out = None, cn_oparams = oparams io'\<rparr>)\<rparr>"
    have "call lib (Step a si) s = Some ?s"
      using c ctx cfg step out by (cases s) (simp add: mech_step_at_def)
    moreover have "owned ?s" by (rule owned_quiet [OF s]) (simp_all add: c)
    moreover have "view ?s a = Some io'"
      using ctx out by (cases io') (simp add: view_def cstring_at_def)
    moreover have "\<forall>b. b \<noteq> a \<longrightarrow> view ?s b = view s b"
      by (auto simp: view_def cong: option.case_cong)
    ultimately show ?thesis using g cfg view step by auto
  next
    assume out: "out_slot io' = Some INVALID_TOKEN_JSON \<and> server_out io' = Some INVALID_TOKEN_JSON"
    obtain n h1 where al: "alloc (CStringBlock INVALID_TOKEN_JSON) (pl_store s) = (n, h1)" by force
    from swap_string [OF s a g(1) old al] obtain h2 h3 where
      h: "put a (ContextBlock g (Some n)) h1 = Some h2" "drop_cstring old h2 = Some h3"
        "block h3 a = Some (ContextBlock g (Some n))" "block h3 n = Some (CStringBlock INVALID_TOKEN_JSON)"
      and frame: "\<And>x. x \<noteq> a \<Longrightarrow> x \<noteq> n \<Longrightarrow> old \<noteq> Some x \<Longrightarrow> block h3 x = block (pl_store s) x"
        "block (pl_store s) n = None"
      and own: "\<And>c. cn_out c = Some n \<Longrightarrow> owned (s\<lparr>pl_store := h3, pl_conns := (pl_conns s)(a \<mapsto> c)\<rparr>)"
      by blast
    let ?s = "s\<lparr>pl_store := h3, pl_conns := (pl_conns s)(a \<mapsto> \<lparr>cn_out = Some n, cn_oparams = oparams io'\<rparr>)\<rparr>"
    have "call lib (Step a si) s = Some ?s"
      using c ctx cfg step out al h(1,2) by (simp add: mech_step_at_def)
    moreover have "owned ?s" by (rule own) simp
    moreover from h(3,4) have "context_at h3 a = Some (g, Some n)" "cstring_at h3 (Some n) = Some INVALID_TOKEN_JSON"
      by (simp_all add: context_at_Some cstring_at_Some)
    then have "view ?s a = Some io'" using out by (cases io') (simp add: view_def)
    moreover have "\<forall>b. b \<noteq> a \<longrightarrow> view ?s b = view s b"
      using view_frame [OF s a _ frame(2) old frame(1)] by blast
    ultimately show ?thesis using g cfg view step by auto
  qed
qed

lemma owned_dispose:
  assumes s: "owned s" and c: "pl_conns s a = Some c"
  shows "\<exists>s'. call lib (Dispose a) s = Some s' \<and> owned s'"
proof -
  note wf = ownedD(1) [OF s]
  from owned_conn [OF s c] obtain g old where a: "block (pl_store s) a = Some (ContextBlock g old)"
    and g: "pl_glob s = Some g"
    and old: "\<And>x. old = Some x \<Longrightarrow> block (pl_store s) x = Some (CStringBlock INVALID_TOKEN_JSON)"
    by blast
  have na: "old \<noteq> Some a" using a old by fastforce
  have "\<exists>h. Option.bind (free a (pl_store s)) (drop_cstring old) = Some h \<and> store_wf h \<and>
    (\<forall>x. block h x = (if x = a \<or> old = Some x then None else block (pl_store s) x))"
  proof (cases old)
    case None
    with mem.free_get [OF wf, of a] a show ?thesis by (auto simp: drop_cstring_def)
  next
    case (Some x)
    with na have ax: "a \<noteq> x" by auto
    from mem.free_two [OF wf, of a x] a old [OF Some] ax obtain h1 h2 where
      h: "free a (pl_store s) = Some h1" "free x h1 = Some h2" "store_wf h2"
        "\<And>y. block h1 y = (if y = a then None else block (pl_store s) y)"
        "\<And>y. block h2 y = (if y = a \<or> y = x then None else block (pl_store s) y)"
      by auto
    from h(4) [of x] ax old [OF Some] have "cstring_at h1 (Some x) = Some INVALID_TOKEN_JSON"
      by (simp add: cstring_at_Some)
    with h Some show ?thesis by (auto simp: drop_cstring_def)
  qed
  then obtain h where h: "Option.bind (free a (pl_store s)) (drop_cstring old) = Some h" "store_wf h"
    "\<And>x. block h x = (if x = a \<or> old = Some x then None else block (pl_store s) x)" by blast
  have "owned (s\<lparr>pl_store := h, pl_conns := (pl_conns s)(a := None)\<rparr>)"
    by (rule owned_focus [OF s g h(2), where a = a and new = None])
      (use a old in \<open>auto simp: h(3)\<close>)
  moreover from a have "context_at (pl_store s) a = Some (g, old)" by (simp add: context_at_Some)
  ultimately show ?thesis using h(1) by (simp add: mech_dispose_at_def)
qed

lemma owned_alone:
  assumes s: "owned s" and "\<forall>a. pl_conns s a = None"
  shows "block (pl_store s) a = (if pl_glob s = Some a then map_option ConfigBlock (config_at (pl_store s) a) else None)"
proof -
  have ctx: "block (pl_store s) b \<noteq> Some (ContextBlock g out)" for b g out
    using ownedD(4) [OF s, of b] assms(2) by auto
  then have "block (pl_store s) b \<noteq> Some (CStringBlock t)" for b t
    using ownedD(7) [OF s] by blast
  with ctx ownedD(2) [OF s, of a] show ?thesis
    by (auto simp: config_at_def split: option.splits server_block.splits)
qed

lemma owned_unload:
  assumes s: "owned s" and none: "\<forall>a. pl_conns s a = None"
  shows "\<exists>s'. call lib Unload s = Some s' \<and> owned s'"
proof (cases "pl_glob s")
  case None
  then have "call lib Unload s = Some s" by (cases s) (simp add: mech_free_at_def)
  with s show ?thesis by blast
next
  case (Some g)
  note wf = ownedD(1) [OF s]
  from ownedD(3) [OF s Some] obtain config where g: "block (pl_store s) g = Some (ConfigBlock config)" by blast
  with mem.free_get [OF wf, of g] obtain h where h: "free g (pl_store s) = Some h" "store_wf h"
    "\<And>x. block h x = (if x = g then None else block (pl_store s) x)" by auto
  have "block h x = None" for x
    using owned_alone [OF s none, of x] Some by (simp add: h(3))
  with h(2) none have "owned (s\<lparr>pl_store := h, pl_glob := None\<rparr>)" by (simp add: owned_def)
  with h(1) Some g show ?thesis by (simp add: mech_free_at_def config_at_def)
qed

lemma owned_call:
  assumes "owned s" and "permitted cl s"
  shows "\<exists>s'. call lib cl s = Some s' \<and> owned s'"
  using assms(2)
proof (cases rule: permitted.elims(2))
  case (1 config)
  with assms show ?thesis using owned_load by auto
next
  case 2
  with assms show ?thesis using owned_open by auto
next
  case (3 a si)
  then obtain c where "pl_conns s a = Some c" by auto
  from owned_step [OF assms(1) this, of lib si] 3 show ?thesis by blast
next
  case (4 a)
  then obtain c where "pl_conns s a = Some c" by auto
  from owned_dispose [OF assms(1) this, of lib] 4 show ?thesis by blast
next
  case 5
  with assms show ?thesis using owned_unload by auto
qed

lemma reach_owned: "fw_reach lib s \<Longrightarrow> owned s"
proof (induction rule: fw_reach.induct)
  case start
  show ?case by (rule owned_new)
next
  case (call s cl s')
  with owned_call [of s cl lib] show ?case by auto
qed

section \<open>Properties\<close>



text \<open>A loaded plugin with one open connection, and the same after closing all.\<close>

definition sample_loaded :: "bytes plugin" where
  "sample_loaded = \<lparr>pl_store = snd (alloc (ConfigBlock sample_server) store_new), pl_glob = Some 0,
     pl_conns = (\<lambda>_. None)\<rparr>"

definition sample_opened :: "bytes plugin" where
  "sample_opened = \<lparr>pl_store = snd (alloc (ContextBlock 0 None) (pl_store sample_loaded)), pl_glob = Some 0,
     pl_conns = (\<lambda>_. None)(1 \<mapsto> fresh_conn)\<rparr>"

lemma sample_loaded_reach: "fw_reach sample_lib sample_loaded"
proof (rule fw_reach.call [OF fw_reach.start, of "Load sample_server"])
  show "permitted (Load sample_server) plugin_new" by (simp add: plugin_new_def)
  show "call sample_lib (Load sample_server) plugin_new = Some sample_loaded"
    by (simp add: plugin_new_def sample_loaded_def make_server_plugin_def alloc_def store_new_def)
qed

lemma sample_opened_reach: "fw_reach sample_lib sample_opened"
proof (rule fw_reach.call [OF sample_loaded_reach, of New])
  show "call sample_lib New sample_loaded = Some sample_opened"
    by (simp add: sample_loaded_def sample_opened_def mech_new_at_def alloc_def store_new_def)
qed simp

text \<open>Closing everything again.\<close>

lemma sample_disposed:
  "\<exists>s1. call sample_lib (Dispose 1) sample_opened = Some s1 \<and> fw_reach sample_lib s1 \<and>
     permitted Unload s1 \<and> pl_conns s1 = (\<lambda>_. None)"
proof -
  obtain s1 where s1: "call sample_lib (Dispose 1) sample_opened = Some s1"
    using owned_call [OF reach_owned [OF sample_opened_reach], of "Dispose 1"] by (auto simp: sample_opened_def)
  then have none: "pl_conns s1 = (\<lambda>_. None)" by (auto simp: sample_opened_def)
  have "fw_reach sample_lib s1"
    by (rule fw_reach.call [OF sample_opened_reach _ s1]) (simp add: sample_opened_def)
  with s1 none show ?thesis by auto
qed



end
