(* ===== verification/Client_Memory.thy ===== *)
theory Client_Memory
  imports Store Sasl_Client
begin

text \<open>
  The client plugin over explicit memory, \<open>sasl/src/client.rs\<close> and the \<open>Prompts\<close> of \<open>sasl/src/ffi.rs\<close>: the
  context that the framework holds as a raw pointer, the output buffer it owns and whose address a step
  publishes, and the prompt array, which the plugin allocates with the SASL allocator, the application
  fills in, and the plugin releases in the next step.
\<close>

section \<open>Blocks and operations\<close>

text \<open>A \<open>ClientContext\<close> holds its \<open>Vec\<close>, that is the address of the buffer; an empty one has none.\<close>

datatype client_block = ClientBlock "addr option" | OutputBlock bytes | PromptBlock "sasl_interact list"

type_synonym client_store = "client_block store"

type_synonym prompt_slot = "addr option option"

text \<open>Reading the array the slot points to.\<close>

definition prompts_at :: "client_store \<Rightarrow> prompt_slot \<Rightarrow> prompts option" where
  "prompts_at h slot =
     (case slot of
        None \<Rightarrow> Some None
      | Some None \<Rightarrow> Some (Some None)
      | Some (Some p) \<Rightarrow> (case block h p of Some (PromptBlock es) \<Rightarrow> Some (Some (Some es)) | _ \<Rightarrow> None))"

text \<open>\<open>utils.free\<close> may be null: then nothing is freed.\<close>

definition release_at :: "bool \<Rightarrow> prompt_slot \<Rightarrow> client_store \<Rightarrow> (prompt_slot \<times> client_store) option" where
  "release_at free_given slot h =
     (case slot of
        Some (Some p) \<Rightarrow> if free_given then map_option (\<lambda>h. (Some None, h)) (free p h) else Some (Some None, h)
      | _ \<Rightarrow> Some (slot, h))"

text \<open>\<open>prompts_request\<close> decides the code and writes the entries; here they go to a block.\<close>

definition request_at :: "sasl_utils \<Rightarrow> bool \<Rightarrow> bool \<Rightarrow> prompt_slot \<Rightarrow> client_store \<Rightarrow>
    sasl_rc \<times> prompt_slot \<times> client_store" where
  "request_at utils want_user want_pass slot h =
     (case slot of
        None \<Rightarrow> (SASL_FAIL, slot, h)
      | Some _ \<Rightarrow>
          (case prompts_request utils want_user want_pass (Some None) of
             (rc, Some (Some es)) \<Rightarrow> (let (p, h) = alloc (PromptBlock es) h in (rc, Some (Some p), h))
           | (rc, _) \<Rightarrow> (rc, slot, h)))"

definition buffer_of :: "client_store \<Rightarrow> addr \<Rightarrow> addr option option" where
  "buffer_of h ctx = (case block h ctx of Some (ClientBlock b) \<Rightarrow> Some b | _ \<Rightarrow> None)"

text \<open>\<open>ctx.output.clear()\<close> and \<open>ctx.output.push(b)\<close>: in place, unless the vector has no buffer yet.\<close>

definition clear_push_at :: "addr \<Rightarrow> byte \<Rightarrow> client_store \<Rightarrow> (addr \<times> client_store) option" where
  "clear_push_at ctx b h =
     (case buffer_of h ctx of
        None \<Rightarrow> None
      | Some (Some a) \<Rightarrow> map_option (\<lambda>h. (a, h)) (put a (OutputBlock [b]) h)
      | Some None \<Rightarrow>
          (let (a, h) = alloc (OutputBlock [b]) h in map_option (\<lambda>h. (a, h)) (put ctx (ClientBlock (Some a)) h)))"

text \<open>\<open>ctx.output = output\<close>: the new vector moves in, the old one is dropped.\<close>

definition assign_at :: "addr \<Rightarrow> bytes \<Rightarrow> client_store \<Rightarrow> (addr \<times> client_store) option" where
  "assign_at ctx output h =
     (case buffer_of h ctx of
        None \<Rightarrow> None
      | Some old \<Rightarrow>
          (let (a, h) = alloc (OutputBlock output) h in
           Option.bind (put ctx (ClientBlock (Some a)) h) (\<lambda>h.
           map_option (\<lambda>h. (a, h)) (case old of None \<Rightarrow> Some h | Some p \<Rightarrow> free p h))))"

section \<open>The step\<close>

record client_mem =
  cm_store :: client_store
  cm_slot :: prompt_slot
  cm_out :: "addr option"
  cm_oparams :: out_params

definition client_respond_at :: "canon_user \<Rightarrow> bytes option \<Rightarrow> bytes \<Rightarrow> addr \<Rightarrow> client_mem \<Rightarrow>
    (sasl_rc flow \<times> client_mem) option" where
  "client_respond_at canon requested tok ctx st =
     (let (rc, io) = client_respond canon requested tok
            \<lparr>cl_output = [], cl_prompts = None, cl_out_slot = None, cl_oparams = cm_oparams st\<rparr>;
          st = st\<lparr>cm_oparams := cl_oparams io\<rparr>
      in case cl_out_slot io of
           None \<Rightarrow> Some (Ret rc, st)
         | Some output \<Rightarrow>
             map_option (\<lambda>(a, h). (Ret rc, st\<lparr>cm_store := h, cm_out := Some a\<rparr>)) (assign_at ctx output (cm_store st)))"

definition client_run_at :: "bool \<Rightarrow> client_input \<Rightarrow> addr \<Rightarrow> client_mem \<Rightarrow> (sasl_rc flow \<times> client_mem) option" where
  "client_run_at free_given ci ctx st =
     (if MAX_SERVERIN_LEN < of_nat (length (ci_server_in ci)) then Some (Ret SASL_BADPROT, st)
      else if ci_is_final ci then
        map_option (\<lambda>(a, h). (Ret SASL_OK,
            st\<lparr>cm_store := h, cm_out := Some a, cm_oparams := finish (cm_oparams st)\<rparr>))
          (clear_push_at ctx (CHR 0x01) (cm_store st))
      else
        let st = st\<lparr>cm_out := None\<rparr> in
        if ci_ssf_too_weak ci then Some (Ret SASL_TOOWEAK, st)
        else Option.bind (prompts_at (cm_store st) (cm_slot st)) (\<lambda>prompts.
          let user = get_simple (ci_utils ci) prompts SASL_CB_USER;
              pass = get_password (ci_utils ci) prompts
          in Option.bind (release_at free_given (cm_slot st) (cm_store st)) (\<lambda>(slot, h).
            let st = st\<lparr>cm_store := h, cm_slot := slot\<rparr>;
                want_user = (user = NeedPrompt);
                want_pass = (pass = NeedPrompt)
            in if want_user \<or> want_pass then
                 (let (rc, slot, h) = request_at (ci_utils ci) want_user want_pass slot h
                  in Some (Ret rc, st\<lparr>cm_store := h, cm_slot := slot\<rparr>))
               else
                 (case client_values user pass (ci_canon ci) of
                    Panic \<Rightarrow> Some (Panic, st)
                  | Ret (Inl rc) \<Rightarrow> Some (Ret rc, st)
                  | Ret (Inr (canon, requested, tok)) \<Rightarrow> client_respond_at canon requested tok ctx st))))"

text \<open>\<open>client_mech_new\<close> and \<open>client_mech_dispose\<close>.\<close>

definition client_new_at :: "client_store \<Rightarrow> addr \<times> client_store" where
  "client_new_at h = alloc (ClientBlock None) h"

definition client_dispose_at :: "addr option \<Rightarrow> client_store \<Rightarrow> client_store option" where
  "client_dispose_at context h =
     (case context of
        None \<Rightarrow> Some h
      | Some ctx \<Rightarrow>
          Option.bind (buffer_of h ctx) (\<lambda>buf.
          Option.bind (free ctx h) (\<lambda>h. case buf of None \<Rightarrow> Some h | Some a \<Rightarrow> free a h)))"

lemmas client_memory_eval [rust_defs] =
  prompts_at_def release_at_def request_at_def buffer_of_def clear_push_at_def assign_at_def
  client_respond_at_def client_run_at_def client_new_at_def client_dispose_at_def

section \<open>Ownership\<close>

text \<open>The memory of one connection, described completely: the context, its buffer, the prompt array.\<close>

definition laid_out :: "client_store \<Rightarrow> addr \<Rightarrow> (addr \<times> bytes) option \<Rightarrow> (addr \<times> sasl_interact list) option \<Rightarrow> bool" where
  "laid_out h ctx buf arr \<longleftrightarrow> store_wf h \<and>
     map_option fst buf \<noteq> Some ctx \<and> map_option fst arr \<noteq> Some ctx \<and>
     (buf \<noteq> None \<longrightarrow> map_option fst buf \<noteq> map_option fst arr) \<and>
     (\<forall>x. block h x =
        (if x = ctx then Some (ClientBlock (map_option fst buf))
         else if map_option fst buf = Some x then Some (OutputBlock (snd (the buf)))
         else if map_option fst arr = Some x then Some (PromptBlock (snd (the arr)))
         else None))"

lemma laid_outD:
  assumes "laid_out h ctx buf arr"
  shows "store_wf h" "map_option fst buf \<noteq> Some ctx" "map_option fst arr \<noteq> Some ctx"
    "buf \<noteq> None \<Longrightarrow> map_option fst buf \<noteq> map_option fst arr"
    "block h x = (if x = ctx then Some (ClientBlock (map_option fst buf))
         else if map_option fst buf = Some x then Some (OutputBlock (snd (the buf)))
         else if map_option fst arr = Some x then Some (PromptBlock (snd (the arr)))
         else None)"
  using assms unfolding laid_out_def by blast+

lemma buffer_laid_out: "laid_out h ctx buf arr \<Longrightarrow> buffer_of h ctx = Some (map_option fst buf)"
  by (simp add: buffer_of_def laid_outD(5))

text \<open>What each operation does to the layout.\<close>

lemma release_layout:
  assumes l: "laid_out h ctx buf arr" and slot: "slot = Some (map_option fst arr) \<or> slot = None \<and> arr = None"
  shows "\<exists>h'. release_at True slot h = Some (map_option (\<lambda>_. None) slot, h') \<and> laid_out h' ctx buf None"
proof (cases arr)
  case None
  with l slot show ?thesis by (auto simp: release_at_def)
next
  case (Some pe)
  obtain p es where arr: "arr = Some (p, es)" using Some by (cases pe) auto
  note l' = laid_outD [OF l]
  from l'(2-5) arr have "block h p = Some (PromptBlock es)" by auto
  with mem.free_get [OF l'(1), of p] obtain h' where h': "free p h = Some h'" "store_wf h'"
    "\<And>x. block h' x = (if x = p then None else block h x)" by auto
  have "laid_out h' ctx buf None"
    using l'(2-5) arr h'(2) by (auto simp: laid_out_def h'(3))
  with arr slot h'(1) show ?thesis by (auto simp: release_at_def)
qed

lemma request_layout:
  assumes l: "laid_out h ctx buf None" and slot: "slot = Some None \<or> slot = None"
    and req: "prompts_request utils wu wp (map_option (\<lambda>_. None) slot) = (rc, slot')"
  shows "\<exists>h' arr. request_at utils wu wp slot h = (rc, map_option (map_option (\<lambda>_. fst (the arr))) slot', h') \<and>
    laid_out h' ctx buf arr \<and> slot' = map_option (\<lambda>_. map_option snd arr) slot \<and> (slot = None \<longrightarrow> arr = None)"
proof (cases "slot' = Some None \<or> slot' = None")
  case True
  with l slot req show ?thesis
    by (intro exI [of _ h] exI [of _ None]) (auto simp: request_at_def prompts_request_def Let_def split: if_splits)
next
  case False
  then obtain es where es: "slot' = Some (Some es)" by (metis not_None_eq)
  with slot req have s: "slot = Some None" by (auto simp: prompts_request_def)
  obtain p h' where al: "alloc (PromptBlock es) h = (p, h')" by force
  note l' = laid_outD [OF l]
  from mem.alloc_fresh [OF l'(1) al] mem.alloc_get [OF l'(1) al] have
    h': "block h p = None" "store_wf h'" "\<And>x. block h' x = (if x = p then Some (PromptBlock es) else block h x)" by auto
  from l'(5) [of p] h'(1) have "p \<noteq> ctx" "map_option fst buf \<noteq> Some p" by (auto split: if_splits)
  with l'(2,5) h'(2) have "laid_out h' ctx buf (Some (p, es))"
    by (auto simp: laid_out_def h'(3))
  with s es req al show ?thesis
    by (intro exI [of _ h'] exI [of _ "Some (p, es)"]) (simp add: request_at_def)
qed

lemma assign_layout:
  assumes l: "laid_out h ctx buf arr"
  shows "\<exists>a h'. assign_at ctx output h = Some (a, h') \<and> laid_out h' ctx (Some (a, output)) arr"
proof -
  note l' = laid_outD [OF l]
  obtain a h1 where al: "alloc (OutputBlock output) h = (a, h1)" by force
  have "block h ctx \<noteq> None" using l'(5) by simp
  from mem.alloc_put [OF l'(1) this al, of "ClientBlock (Some a)"] obtain h2 where
    h2: "put ctx (ClientBlock (Some a)) h1 = Some h2" "store_wf h2" "a \<noteq> ctx" "block h a = None"
      "\<And>x. block h2 x = (if x = ctx then Some (ClientBlock (Some a)) else if x = a then Some (OutputBlock output) else block h x)"
    by auto
  from l'(5) [of a] h2(3,4) have fresh: "map_option fst buf \<noteq> Some a" "map_option fst arr \<noteq> Some a"
    by (auto split: if_splits)
  then have fresh': "Some a \<noteq> map_option fst arr" by metis
  show ?thesis
  proof (cases buf)
    case None
    with l' fresh fresh' h2(2,3) have "laid_out h2 ctx (Some (a, output)) arr"
      by (auto simp: laid_out_def h2(5))
    with None al h2(1) buffer_laid_out [OF l] show ?thesis by (simp add: assign_at_def)
  next
    case (Some bt)
    then obtain b t where buf: "buf = Some (b, t)" by (cases bt) auto
    have b: "block h2 b \<noteq> None" using l'(2,5) h2(5) buf by simp
    from mem.free_get [OF h2(2) b] obtain h3 where h3: "free b h2 = Some h3" "store_wf h3"
      "\<And>x. block h3 x = (if x = b then None else block h2 x)" by auto
    have "laid_out h3 ctx (Some (a, output)) arr"
      using l' fresh fresh' h2(3) h3(2) buf by (auto simp: laid_out_def h3(3) h2(5))
    with buf al h2(1) h3(1) buffer_laid_out [OF l] show ?thesis by (simp add: assign_at_def)
  qed
qed

lemma clear_push_layout:
  assumes l: "laid_out h ctx buf arr"
  shows "\<exists>a h'. clear_push_at ctx b h = Some (a, h') \<and> laid_out h' ctx (Some (a, [b])) arr"
proof (cases buf)
  case None
  then have "clear_push_at ctx b h = assign_at ctx [b] h"
    using buffer_laid_out [OF l] by (auto simp: clear_push_at_def assign_at_def Let_def map_conv_bind_option comp_def
        split: prod.splits option.splits)
  with assign_layout [OF l] show ?thesis by simp
next
  case (Some bt)
  then obtain a t where buf: "buf = Some (a, t)" by (cases bt) auto
  note l' = laid_outD [OF l]
  have "block h a \<noteq> None" using l'(2,5) buf by simp
  from mem.put_get [OF l'(1) this, of "OutputBlock [b]"] obtain h' where
    h': "put a (OutputBlock [b]) h = Some h'" "store_wf h'"
      "\<And>x. block h' x = (if x = a then Some (OutputBlock [b]) else block h x)" by auto
  have "laid_out h' ctx (Some (a, [b])) arr"
    using l' h'(2) buf by (auto simp: laid_out_def h'(3))
  with buf h'(1) buffer_laid_out [OF l] show ?thesis by (simp add: clear_push_at_def)
qed

section \<open>The step refines the step of the model without memory\<close>

definition consistent :: "addr \<Rightarrow> client_mem \<Rightarrow> (addr \<times> bytes) option \<Rightarrow> (addr \<times> sasl_interact list) option \<Rightarrow> bool" where
  "consistent ctx st buf arr \<longleftrightarrow> laid_out (cm_store st) ctx buf arr \<and>
     (cm_slot st = Some (map_option fst arr) \<or> cm_slot st = None \<and> arr = None) \<and>
     cm_out st \<in> {None, map_option fst buf}"

definition seen :: "client_mem \<Rightarrow> (addr \<times> bytes) option \<Rightarrow> (addr \<times> sasl_interact list) option \<Rightarrow> client_io" where
  "seen st buf arr =
     \<lparr>cl_output = (case buf of None \<Rightarrow> [] | Some (a, t) \<Rightarrow> t),
      cl_prompts = map_option (\<lambda>_. map_option snd arr) (cm_slot st),
      cl_out_slot = (if cm_out st = None then None else map_option snd buf),
      cl_oparams = cm_oparams st\<rparr>"

lemma prompts_consistent:
  "consistent ctx st buf arr \<Longrightarrow>
   prompts_at (cm_store st) (cm_slot st) = Some (map_option (\<lambda>_. map_option snd arr) (cm_slot st))"
  using laid_outD(2-5) [of "cm_store st" ctx buf arr]
  by (cases arr) (auto simp: consistent_def prompts_at_def)

lemma client_respond_frame:
  assumes "client_respond canon requested tok io = (rc, io')"
    and "client_respond canon requested tok \<lparr>cl_output = [], cl_prompts = None, cl_out_slot = None,
      cl_oparams = cl_oparams io\<rparr> = (rc0, io0)" and "cl_out_slot io = None"
  shows "rc0 = rc \<and> cl_oparams io' = cl_oparams io0 \<and> cl_prompts io' = cl_prompts io \<and>
    cl_out_slot io' = cl_out_slot io0 \<and>
    cl_output io' = (case cl_out_slot io0 of None \<Rightarrow> cl_output io | Some out \<Rightarrow> out)"
  using assms
  by (auto simp: client_respond_def canon_apply_def Let_def split: option.splits if_splits)

lemma respond_at_refines:
  assumes c: "consistent ctx st buf arr" and out: "cm_out st = None"
    and run: "client_respond canon requested tok (seen st buf arr) = (rc, io')"
  shows "\<exists>st' buf'. client_respond_at canon requested tok ctx st = Some (Ret rc, st') \<and>
    consistent ctx st' buf' arr \<and> seen st' buf' arr = io'"
proof -
  obtain rc0 io0 where pure: "client_respond canon requested tok
      \<lparr>cl_output = [], cl_prompts = None, cl_out_slot = None, cl_oparams = cm_oparams st\<rparr> = (rc0, io0)"
    by force
  then have same: "rc0 = rc" "cl_oparams io' = cl_oparams io0" "cl_prompts io' = cl_prompts (seen st buf arr)"
    "cl_out_slot io' = cl_out_slot io0"
    "cl_output io' = (case cl_out_slot io0 of None \<Rightarrow> cl_output (seen st buf arr) | Some out \<Rightarrow> out)"
    using client_respond_frame [OF run, of rc0 io0] out by (simp_all add: seen_def)
  show ?thesis
  proof (cases "cl_out_slot io0")
    case None
    with pure same(1) have "client_respond_at canon requested tok ctx st = Some (Ret rc, st\<lparr>cm_oparams := cl_oparams io0\<rparr>)"
      by (simp add: client_respond_at_def)
    moreover have "consistent ctx (st\<lparr>cm_oparams := cl_oparams io0\<rparr>) buf arr"
      using c by (simp add: consistent_def)
    moreover have "seen (st\<lparr>cm_oparams := cl_oparams io0\<rparr>) buf arr = io'"
      using same None out by (cases io') (simp add: seen_def)
    ultimately show ?thesis by blast
  next
    case (Some new)
    from c have l: "laid_out (cm_store st) ctx buf arr" by (simp add: consistent_def)
    from assign_layout [OF l, of new] obtain a h' where h': "assign_at ctx new (cm_store st) = Some (a, h')"
      "laid_out h' ctx (Some (a, new)) arr" by blast
    let ?st = "st\<lparr>cm_oparams := cl_oparams io0, cm_store := h', cm_out := Some a\<rparr>"
    from pure same(1) Some h'(1) have "client_respond_at canon requested tok ctx st = Some (Ret rc, ?st)"
      by (simp add: client_respond_at_def)
    moreover have "consistent ctx ?st (Some (a, new)) arr"
      using c h'(2) by (simp add: consistent_def)
    moreover have "seen ?st (Some (a, new)) arr = io'"
      using same Some by (cases io') (simp add: seen_def)
    ultimately show ?thesis by blast
  qed
qed

text \<open>The state after the release of the prompt array.\<close>

definition released :: "client_mem \<Rightarrow> client_store \<Rightarrow> client_mem" where
  "released st h = st\<lparr>cm_out := None, cm_store := h, cm_slot := map_option (\<lambda>_. None) (cm_slot st)\<rparr>"

lemma release_refines:
  assumes c: "consistent ctx st buf arr"
  shows "\<exists>h. release_at True (cm_slot st) (cm_store st) = Some (map_option (\<lambda>_. None) (cm_slot st), h) \<and>
    laid_out h ctx buf None \<and> consistent ctx (released st h) buf None \<and>
    seen (released st h) buf None =
      (seen st buf arr)\<lparr>cl_out_slot := None, cl_prompts := prompts_release (cl_prompts (seen st buf arr))\<rparr>"
proof -
  from c have l: "laid_out (cm_store st) ctx buf arr"
    and slot: "cm_slot st = Some (map_option fst arr) \<or> cm_slot st = None \<and> arr = None"
    by (auto simp: consistent_def)
  from release_layout [OF l slot] obtain h where
    h: "release_at True (cm_slot st) (cm_store st) = Some (map_option (\<lambda>_. None) (cm_slot st), h)"
      "laid_out h ctx buf None" by blast
  have "consistent ctx (released st h) buf None"
    using slot h(2) by (auto simp: consistent_def released_def)
  moreover have "seen (released st h) buf None =
      (seen st buf arr)\<lparr>cl_out_slot := None, cl_prompts := prompts_release (cl_prompts (seen st buf arr))\<rparr>"
    using slot by (cases arr) (auto simp: seen_def prompts_release_def released_def)
  ultimately show ?thesis using h by blast
qed

text \<open>A step that may start, on memory, in terms of the values of the application.\<close>

lemma run_at_start:
  assumes c: "consistent ctx st buf arr" and start: "client_may_start ci"
    and h: "release_at True (cm_slot st) (cm_store st) = Some (map_option (\<lambda>_. None) (cm_slot st), h)"
  shows "client_run_at True ci ctx st =
    (let user = app_user ci (seen st buf arr); pass = app_token ci (seen st buf arr) in
     if user = NeedPrompt \<or> pass = NeedPrompt then
       (let (rc, slot, h) = request_at (ci_utils ci) (user = NeedPrompt) (pass = NeedPrompt) (map_option (\<lambda>_. None) (cm_slot st)) h
        in Some (Ret rc, st\<lparr>cm_out := None, cm_store := h, cm_slot := slot\<rparr>))
     else
       (case client_values user pass (ci_canon ci) of
          Panic \<Rightarrow> Some (Panic, released st h)
        | Ret (Inl rc) \<Rightarrow> Some (Ret rc, released st h)
        | Ret (Inr (canon, requested, tok)) \<Rightarrow> client_respond_at canon requested tok ctx (released st h)))"
proof -
  have "prompts_at (cm_store st) (cm_slot st) = Some (cl_prompts (seen st buf arr))"
    using prompts_consistent [OF c] by (simp add: seen_def)
  with start h show ?thesis
    by (simp add: client_run_at_def client_may_start_def app_user_def app_token_def released_def Let_def
        split: flow.split sum.split)
qed

lemma run_at_prompt:
  assumes c: "consistent ctx st buf arr" and start: "client_may_start ci"
    and prompt: "app_user ci (seen st buf arr) = NeedPrompt \<or> app_token ci (seen st buf arr) = NeedPrompt"
    and run: "client_run ci (seen st buf arr) = (r, io')"
  shows "\<exists>st' arr'. client_run_at True ci ctx st = Some (r, st') \<and> consistent ctx st' buf arr' \<and> seen st' buf arr' = io'"
proof -
  let ?wu = "app_user ci (seen st buf arr) = NeedPrompt" and ?wp = "app_token ci (seen st buf arr) = NeedPrompt"
  let ?slot = "map_option (\<lambda>_. None :: addr option) (cm_slot st)"
  from release_refines [OF c] obtain h where h: "release_at True (cm_slot st) (cm_store st) = Some (?slot, h)"
    "laid_out h ctx buf None" by blast
  have rel: "prompts_release (cl_prompts (seen st buf arr)) = map_option (\<lambda>_. None) ?slot"
    by (cases "cm_slot st"; cases arr) (auto simp: seen_def prompts_release_def)
  obtain rc slot' where req: "prompts_request (ci_utils ci) ?wu ?wp (prompts_release (cl_prompts (seen st buf arr))) = (rc, slot')"
    by force
  have "?slot = Some None \<or> ?slot = None" by (cases "cm_slot st") auto
  from request_layout [OF h(2) this req [unfolded rel]] obtain h2 arr2 where
    h2: "request_at (ci_utils ci) ?wu ?wp ?slot h = (rc, map_option (map_option (\<lambda>_. fst (the arr2))) slot', h2)"
      "laid_out h2 ctx buf arr2" "slot' = map_option (\<lambda>_. map_option snd arr2) ?slot" "cm_slot st = None \<longrightarrow> arr2 = None"
    by auto
  let ?st = "st\<lparr>cm_out := None, cm_store := h2, cm_slot := map_option (map_option (\<lambda>_. fst (the arr2))) slot'\<rparr>"
  have "client_run_at True ci ctx st = Some (Ret rc, ?st)"
    using run_at_start [OF c start h(1)] prompt h2(1) by (simp add: Let_def)
  moreover have "consistent ctx ?st buf arr2"
    using c h2(2-4) by (cases arr2; cases "cm_slot st") (auto simp: consistent_def)
  moreover have "r = Ret rc \<and> seen ?st buf arr2 = io'"
    using client_run_prompt [OF start prompt] run req h2(3)
    by (cases "cm_slot st"; cases arr2) (auto simp: seen_def)
  ultimately show ?thesis by blast
qed

lemma run_at_values:
  assumes c: "consistent ctx st buf arr" and start: "client_may_start ci"
    and given: "app_user ci (seen st buf arr) \<noteq> NeedPrompt" "app_token ci (seen st buf arr) \<noteq> NeedPrompt"
    and run: "client_run ci (seen st buf arr) = (r, io')"
  shows "\<exists>st' buf'. client_run_at True ci ctx st = Some (r, st') \<and> consistent ctx st' buf' None \<and> seen st' buf' None = io'"
proof -
  let ?v = "client_values (app_user ci (seen st buf arr)) (app_token ci (seen st buf arr)) (ci_canon ci)"
  from release_refines [OF c] obtain h where
    h: "release_at True (cm_slot st) (cm_store st) = Some (map_option (\<lambda>_. None) (cm_slot st), h)"
    and c1: "consistent ctx (released st h) buf None"
    and seen1: "seen (released st h) buf None =
      (seen st buf arr)\<lparr>cl_out_slot := None, cl_prompts := prompts_release (cl_prompts (seen st buf arr))\<rparr>"
    by blast
  note mem = run_at_start [OF c start h, unfolded Let_def]
  note pure = run [unfolded client_run_start [OF start given] Let_def]
  consider rc where "?v = Ret (Inl rc)" | "?v = Panic"
    | canon requested tok where "?v = Ret (Inr (canon, requested, tok))"
    by (cases ?v) (auto split: sum.splits, metis sum.exhaust prod_cases3)
  then show ?thesis
  proof cases
    case (1 rc)
    with mem pure given c1 seen1 show ?thesis
      by (intro exI [of _ "released st h"] exI [of _ buf]) simp
  next
    case 2
    with mem pure given c1 seen1 show ?thesis
      by (intro exI [of _ "released st h"] exI [of _ buf]) simp
  next
    case (3 canon requested tok)
    obtain rc io1 where resp: "client_respond canon requested tok (seen (released st h) buf None) = (rc, io1)" by force
    have "cm_out (released st h) = None" by (simp add: released_def)
    from respond_at_refines [OF c1 this resp] obtain st' buf' where
      "client_respond_at canon requested tok ctx (released st h) = Some (Ret rc, st')"
      "consistent ctx st' buf' None" "seen st' buf' None = io1" by blast
    with mem pure given 3 resp [unfolded seen1] show ?thesis
      by (intro exI [of _ st'] exI [of _ buf']) simp
  qed
qed

lemma run_at_refines:
  assumes c: "consistent ctx st buf arr" and run: "client_run ci (seen st buf arr) = (r, io')"
  shows "\<exists>st' buf' arr'. client_run_at True ci ctx st = Some (r, st') \<and>
    consistent ctx st' buf' arr' \<and> seen st' buf' arr' = io'"
proof -
  consider (big) "MAX_SERVERIN_LEN < of_nat (length (ci_server_in ci))"
    | (final) "\<not> MAX_SERVERIN_LEN < of_nat (length (ci_server_in ci))" "ci_is_final ci"
    | (weak) "\<not> MAX_SERVERIN_LEN < of_nat (length (ci_server_in ci))" "\<not> ci_is_final ci" "ci_ssf_too_weak ci"
    | (start) "client_may_start ci"
    by (auto simp: client_may_start_def)
  then show ?thesis
  proof cases
    case big
    with run c show ?thesis by (auto simp: client_run_def client_run_at_def)
  next
    case final
    from c have l: "laid_out (cm_store st) ctx buf arr" by (simp add: consistent_def)
    from clear_push_layout [OF l] obtain a h' where h': "clear_push_at ctx (CHR 0x01) (cm_store st) = Some (a, h')"
      "laid_out h' ctx (Some (a, [CHR 0x01])) arr" by blast
    let ?st = "st\<lparr>cm_store := h', cm_out := Some a, cm_oparams := finish (cm_oparams st)\<rparr>"
    from final h'(1) have "client_run_at True ci ctx st = Some (Ret SASL_OK, ?st)" by (simp add: client_run_at_def)
    moreover have "consistent ctx ?st (Some (a, [CHR 0x01])) arr" using c h'(2) by (simp add: consistent_def)
    moreover have "r = Ret SASL_OK" "seen ?st (Some (a, [CHR 0x01])) arr = io'"
      using run final by (auto simp: client_run_def seen_def)
    ultimately show ?thesis by blast
  next
    case weak
    with run c show ?thesis
      by (intro exI [of _ "st\<lparr>cm_out := None\<rparr>"] exI [of _ buf] exI [of _ arr])
        (auto simp: client_run_def client_run_at_def consistent_def seen_def)
  next
    case start
    with run_at_prompt [OF c start _ run] run_at_values [OF c start _ _ run] show ?thesis by blast
  qed
qed

section \<open>A connection\<close>

text \<open>What libsasl2 and the application may do between the steps: fill in the array the slot points to, or
  free it with the same allocator and clear the slot.\<close>

inductive client_reach :: "addr \<Rightarrow> client_mem \<Rightarrow> bool" where
  opened: "client_new_at store_new = (ctx, h) \<Longrightarrow> slot \<in> {None, Some None} \<Longrightarrow>
    client_reach ctx \<lparr>cm_store = h, cm_slot = slot, cm_out = None, cm_oparams = fresh_params\<rparr>"
| stepped: "client_reach ctx st \<Longrightarrow> client_run_at True ci ctx st = Some (r, st') \<Longrightarrow> client_reach ctx st'"
| answered: "client_reach ctx st \<Longrightarrow> cm_slot st = Some (Some p) \<Longrightarrow>
    put p (PromptBlock es) (cm_store st) = Some h \<Longrightarrow> client_reach ctx (st\<lparr>cm_store := h\<rparr>)"
| taken_back: "client_reach ctx st \<Longrightarrow> cm_slot st = Some (Some p) \<Longrightarrow> free p (cm_store st) = Some h \<Longrightarrow>
    client_reach ctx (st\<lparr>cm_store := h, cm_slot := Some None\<rparr>)"

definition bytes_at :: "client_store \<Rightarrow> addr option \<Rightarrow> bytes option" where
  "bytes_at h a = (case Option.bind a (block h) of Some (OutputBlock t) \<Rightarrow> Some t | _ \<Rightarrow> None)"

definition client_view :: "addr \<Rightarrow> client_mem \<Rightarrow> client_io option" where
  "client_view ctx st =
     (case (buffer_of (cm_store st) ctx, prompts_at (cm_store st) (cm_slot st)) of
        (Some buf, Some prompts) \<Rightarrow> Some
          \<lparr>cl_output = (case bytes_at (cm_store st) buf of None \<Rightarrow> [] | Some t \<Rightarrow> t), cl_prompts = prompts,
           cl_out_slot = bytes_at (cm_store st) (cm_out st), cl_oparams = cm_oparams st\<rparr>
      | _ \<Rightarrow> None)"

lemma consistent_view: "consistent ctx st buf arr \<Longrightarrow> client_view ctx st = Some (seen st buf arr)"
proof -
  assume c: "consistent ctx st buf arr"
  then have l: "laid_out (cm_store st) ctx buf arr" and out: "cm_out st = None \<or> cm_out st = map_option fst buf"
    by (auto simp: consistent_def)
  note l' = laid_outD [OF l]
  have "bytes_at (cm_store st) (map_option fst buf) = map_option snd buf"
    using l'(2,5) by (cases buf) (auto simp: bytes_at_def)
  moreover have "bytes_at (cm_store st) None = None" by (simp add: bytes_at_def)
  ultimately show ?thesis
    using buffer_laid_out [OF l] prompts_consistent [OF c] out
    by (cases buf) (auto simp: client_view_def seen_def)
qed

lemma prompt_block:
  assumes "consistent ctx st buf arr" and "cm_slot st = Some (Some p)"
  obtains es where "arr = Some (p, es)" "block (cm_store st) p = Some (PromptBlock es)"
proof -
  from assms obtain es where "arr = Some (p, es)" by (cases arr) (auto simp: consistent_def)
  moreover from assms this laid_outD(2-5) [of "cm_store st" ctx buf arr]
  have "block (cm_store st) p = Some (PromptBlock es)" by (auto simp: consistent_def)
  ultimately show thesis by (rule that)
qed

lemma reach_consistent: "client_reach ctx st \<Longrightarrow> \<exists>buf arr. consistent ctx st buf arr"
proof (induction rule: client_reach.induct)
  case (opened ctx h slot)
  then have "laid_out h ctx None None"
    by (auto simp: client_new_at_def alloc_def laid_out_def store_wf_def block_def store_new_def)
  with opened(2) show ?case by (auto simp: consistent_def)
next
  case (stepped ctx st ci r st')
  then obtain buf arr where "consistent ctx st buf arr" by blast
  from run_at_refines [OF this] stepped(2) show ?case by (metis option.inject prod.inject surj_pair)
next
  case (answered ctx st p es h)
  then obtain buf arr where c: "consistent ctx st buf arr" by blast
  then obtain es0 where p: "arr = Some (p, es0)" "block (cm_store st) p = Some (PromptBlock es0)"
    by (rule prompt_block [OF _ answered(2)])
  from c have l: "laid_out (cm_store st) ctx buf arr" by (simp add: consistent_def)
  note l' = laid_outD [OF l]
  from mem.put_get [OF l'(1), of p "PromptBlock es"] p(2) answered(3) have h: "store_wf h"
    "\<And>x. block h x = (if x = p then Some (PromptBlock es) else block (cm_store st) x)" by auto
  have "laid_out h ctx buf (Some (p, es))"
    using l'(2-5) p(1) h(1) by (auto simp: laid_out_def h(2))
  with c p(1) have "consistent ctx (st\<lparr>cm_store := h\<rparr>) buf (Some (p, es))" by (simp add: consistent_def)
  then show ?case by blast
next
  case (taken_back ctx st p h)
  then obtain buf arr where c: "consistent ctx st buf arr" by blast
  then have l: "laid_out (cm_store st) ctx buf arr" and slot: "cm_slot st = Some (map_option fst arr)"
    using taken_back(2) by (auto simp: consistent_def)
  with release_layout [OF l, of "cm_slot st"] taken_back(2,3) have "laid_out h ctx buf None"
    by (auto simp: release_at_def)
  with c have "consistent ctx (st\<lparr>cm_store := h, cm_slot := Some None\<rparr>) buf None" by (simp add: consistent_def)
  then show ?case by blast
qed

section \<open>Properties\<close>


text \<open>C23: Nothing of a connection leaks: once the slot holds no prompt array, disposing the context frees all
  the memory the client allocated for it.\<close>

theorem client_no_leak:
  assumes "client_reach ctx st" and "\<forall>p. cm_slot st \<noteq> Some (Some p)"
  shows "\<exists>h. client_dispose_at (Some ctx) (cm_store st) = Some h \<and> (\<forall>a. block h a = None)"
proof -
  from reach_consistent [OF assms(1)] obtain buf arr where "consistent ctx st buf arr" by blast
  with assms(2) have l: "laid_out (cm_store st) ctx buf None"
    by (cases arr) (auto simp: consistent_def)
  note l' = laid_outD [OF l]
  have ctx: "block (cm_store st) ctx \<noteq> None" using l'(5) by simp
  show ?thesis
  proof (cases buf)
    case None
    with mem.free_get [OF l'(1) ctx] buffer_laid_out [OF l] l'(5) show ?thesis
      by (auto simp: client_dispose_at_def)
  next
    case (Some bt)
    then obtain b t where buf: "buf = Some (b, t)" by (cases bt) auto
    with l'(2,5) have "block (cm_store st) b \<noteq> None" "ctx \<noteq> b" by auto
    with mem.free_two [OF l'(1) ctx, of b] buffer_laid_out [OF l] l'(5) buf show ?thesis
      by (auto simp: client_dispose_at_def)
  qed
qed

definition sample_client_mem :: client_mem where
  "sample_client_mem = \<lparr>cm_store = snd (client_new_at store_new), cm_slot = Some None, cm_out = None,
     cm_oparams = fresh_params\<rparr>"

lemma sample_client_reach: "client_reach 0 sample_client_mem"
  unfolding sample_client_mem_def
  by (rule client_reach.opened) (simp_all add: client_new_at_def alloc_def store_new_def)


theorem client_no_leak_witness:
  "\<exists>h. client_dispose_at (Some 0) (cm_store sample_client_mem) = Some h \<and> (\<forall>a. block h a = None)"
  by (rule client_no_leak [OF sample_client_reach]) (simp add: sample_client_mem_def)

end
