(* ===== verification/Rust_Fmt.thy ===== *)
theory Rust_Fmt
  imports Rust_Num
begin

text \<open>
  What \<open>format!\<close> does with the arguments the program gives it: integers, and strings under \<open>{:?}\<close>, which
  quotes them and escapes what could not be shown. Which characters are printable or extend a grapheme
  are two tables of the Unicode standard that the library carries; they are an argument here.
\<close>

section \<open>Numbers\<close>

definition show_int :: "int \<Rightarrow> bytes" where
  "show_int n = (if n < 0 then ''-'' @ show_nat (nat (- n)) else show_nat (nat n))"

definition hex_digit :: "nat \<Rightarrow> byte" where
  "hex_digit d = char_of (if d < 10 then 48 + d else 87 + d)"

fun show_hex :: "nat \<Rightarrow> bytes" where
  "show_hex n = (if n < 16 then [hex_digit n] else show_hex (n div 16) @ [hex_digit (n mod 16)])"

declare show_hex.simps [simp del]

text \<open>\<open>ParseIntError\<close>\<close>

fun display_int_error :: "int_error_kind \<Rightarrow> bytes" where
  "display_int_error EmptyNumber = ''cannot parse integer from empty string''"
| "display_int_error InvalidDigit = ''invalid digit found in string''"
| "display_int_error PosOverflow = ''number too large to fit in target type''"
| "display_int_error NegOverflow = ''number too small to fit in target type''"

section \<open>Strings under \<open>{:?}\<close>\<close>

text \<open>The tables, on the bytes of a character.\<close>

record char_tables =
  ct_printable :: "bytes \<Rightarrow> bool"
  ct_grapheme_extend :: "bytes \<Rightarrow> bool"

definition escape_unicode :: "bytes \<Rightarrow> bytes" where
  "escape_unicode c = [CHR 0x5C, CHR ''u'', CHR 0x7B] @ show_hex (nat (code_point c)) @ [CHR 0x7D]"

definition debug_char :: "char_tables \<Rightarrow> bytes \<Rightarrow> bytes" where
  "debug_char ct c =
     (if c = [CHR 0x00] then [CHR 0x5C, CHR ''0'']
      else if c = [CHR 0x09] then [CHR 0x5C, CHR ''t'']
      else if c = [CHR 0x0D] then [CHR 0x5C, CHR ''r'']
      else if c = [CHR 0x0A] then [CHR 0x5C, CHR ''n'']
      else if c = [CHR 0x22] \<or> c = [CHR 0x5C] then CHR 0x5C # c
      else if ct_grapheme_extend ct c then escape_unicode c
      else if ct_printable ct c then c
      else escape_unicode c)"

definition debug_str :: "char_tables \<Rightarrow> bytes \<Rightarrow> bytes" where
  "debug_str ct s = [CHR 0x22] @ concat (map (debug_char ct) (str_chars s)) @ [CHR 0x22]"

section \<open>Plain text\<close>

text \<open>Text without ASCII control characters: it is one line and holds no NUL.\<close>

definition plain :: "bytes \<Rightarrow> bool" where
  "plain s \<longleftrightarrow> list_all (\<lambda>b. 32 \<le> ord b \<and> ord b \<noteq> 127) s"

lemma plain_simps [simp]:
  "plain []"
  "plain (b # s) \<longleftrightarrow> (32 \<le> ord b \<and> ord b \<noteq> 127) \<and> plain s"
  "plain (s @ t) \<longleftrightarrow> plain s \<and> plain t"
  by (simp_all add: plain_def)

lemma plain_concat: "(\<And>s. s \<in> set ss \<Longrightarrow> plain s) \<Longrightarrow> plain (concat ss)"
  by (induction ss) auto

lemma plain_cstring_new: "plain s \<Longrightarrow> cstring_new s = Some s"
  by (auto simp: plain_def cstring_new_def list_all_iff)

text \<open>What the tables promise: no control character is printable, and the other characters outside ASCII have
  no ASCII byte.\<close>

definition tables_ok :: "char_tables \<Rightarrow> bool" where
  "tables_ok ct \<longleftrightarrow> (\<forall>c. ct_printable ct c \<longrightarrow> plain c)"

lemma plain_show_nat [simp]: "plain (show_nat n)"
  using show_nat_digits by (fastforce simp: plain_def list_all_iff)

lemma plain_show_int [simp]: "plain (show_int n)"
  by (simp add: show_int_def)

lemma plain_show_hex [simp]: "plain (show_hex n)"
proof (induction n rule: show_hex.induct)
  case (1 n)
  have "32 \<le> ord (hex_digit d) \<and> ord (hex_digit d) \<noteq> 127" if "d < 16" for d
    using that by (auto simp: hex_digit_def)
  moreover have "n mod 16 < 16" by simp
  ultimately show ?case using 1 by (subst show_hex.simps) simp
qed

lemma plain_int_error [simp]: "plain (display_int_error k)"
  by (cases k) simp_all

lemma plain_debug_char: "tables_ok ct \<Longrightarrow> plain (debug_char ct c)"
  by (auto simp: debug_char_def escape_unicode_def tables_ok_def)

lemma plain_debug_str [simp]: "tables_ok ct \<Longrightarrow> plain (debug_str ct s)"
  by (auto simp: debug_str_def intro!: plain_concat plain_debug_char)

end
