(* ===== verification/Messages.thy ===== *)
theory Messages
  imports Rust_Fmt Pam_Auth Sasl_Server Sasl_Client
begin

text \<open>
  What the program tells its administrators: the texts of its errors (\<open>Display\<close> of \<open>OAuthError\<close> and
  \<open>Rfc7628Error\<close>, the \<open>format!\<close> calls of the configuration code), the sinks they go to (\<open>Utils::log\<close>,
  \<open>Utils::set_error\<close> of \<open>sasl/src/ffi.rs\<close>, \<open>slog\<close> and \<open>strerror\<close> of \<open>pam/src/ffi.rs\<close>), and which
  messages a step of the server, a step of the client and a PAM call produce, branch by branch.
\<close>

section \<open>Error texts\<close>

fun display_config_error :: "char_tables \<Rightarrow> config_error \<Rightarrow> bytes" where
  "display_config_error ct NoTrustedAudiences = ''no trusted audiences configured''"
| "display_config_error ct NoTrustedIssuer = ''no trusted issuer configured''"
| "display_config_error ct EmptyAllowedAlgorithms =
     ''oauthbearer_allowed_alg was configured but contains no algorithms''"
| "display_config_error ct (InvalidJwksJson e) = ''invalid JWKS JSON: '' @ e"
| "display_config_error ct NoKeysArray = ''JWKS has no keys array''"
| "display_config_error ct NoKeys = ''JWKS contains no keys''"
| "display_config_error ct KeyNotObject = ''JWKS key is not an object''"
| "display_config_error ct (DuplicateKid kid) = ''duplicate JWK kid '' @ debug_str ct kid"
| "display_config_error ct NoUsableKeys = ''JWKS contains no usable signature verification keys''"
| "display_config_error ct TimeBeforeEpoch = ''system time is before UNIX epoch''"

definition unwrap_or_empty :: "bytes option \<Rightarrow> bytes" where
  "unwrap_or_empty v = (case v of None \<Rightarrow> [] | Some s \<Rightarrow> s)"

fun display_oauth_error :: "char_tables \<Rightarrow> oauth_error \<Rightarrow> bytes" where
  "display_oauth_error ct (MissingUidClaim claim) = ''token contains no non-empty '' @ claim @ '' claim''"
| "display_oauth_error ct (InvalidUidClaim claim) =
     claim @ '' claim contains surrounding whitespace or control characters''"
| "display_oauth_error ct (DisallowedUsername username) =
     ''username '' @ debug_str ct username @ '' is disallowed''"
| "display_oauth_error ct ParseError = ''there was an error parsing the JWT''"
| "display_oauth_error ct (InvalidIssuer found) =
     ''invalid or missing issuer: '' @ debug_str ct (unwrap_or_empty found)"
| "display_oauth_error ct InvalidAudience = ''invalid or missing audience''"
| "display_oauth_error ct (MissingScope scope) = ''required scope '' @ debug_str ct scope @ '' is missing''"
| "display_oauth_error ct (InvalidAuthorizedParty found) =
     ''invalid authorized party: '' @ debug_str ct (unwrap_or_empty found)"
| "display_oauth_error ct MissingExpiration = ''token has no expiration claim''"
| "display_oauth_error ct ClaimExpired = ''token is expired or not yet valid''"
| "display_oauth_error ct InvalidSignature = ''JWT signature is invalid''"
| "display_oauth_error ct (UnknownSigningKey kid) =
     ''JWT signing key is unknown: '' @ debug_str ct (unwrap_or_empty kid)"
| "display_oauth_error ct (ConfigError msg) = ''JWT configuration error: '' @ display_config_error ct msg"

fun display_rfc7628_error :: "rfc7628_error \<Rightarrow> bytes" where
  "display_rfc7628_error InvalidUtf8 = ''InvalidUtf8''"
| "display_rfc7628_error InvalidGs2Header = ''InvalidGs2Header''"
| "display_rfc7628_error InvalidSaslName = ''InvalidSaslName''"
| "display_rfc7628_error MissingAuth = ''MissingAuth''"
| "display_rfc7628_error InvalidKeyValue = ''InvalidKeyValue''"
| "display_rfc7628_error MissingTerminator = ''MissingTerminator''"
| "display_rfc7628_error NotBearer = ''NotBearer''"

fun display_option_error :: "char_tables \<Rightarrow> option_error \<Rightarrow> bytes" where
  "display_option_error ct GetoptNull = ''sasl_utils.getopt is NULL''"
| "display_option_error ct InvalidOptionName = ''invalid SASL option name''"
| "display_option_error ct (InvalidGrace e) = ''invalid oauthbearer_grace: '' @ display_int_error e"
| "display_option_error ct (InvalidAlgorithmName opt value) =
     ''invalid '' @ opt @ '' value '' @ debug_str ct value"
| "display_option_error ct (EmptyOption name) = ''empty SASL option '' @ name"

text \<open>The texts of the PAM configuration name the file they are about.\<close>

fun display_args_error :: "char_tables \<Rightarrow> bytes \<Rightarrow> args_error \<Rightarrow> bytes" where
  "display_args_error ct path MultipleConfigOptions = ''multiple config options given''"
| "display_args_error ct path ConfigWithInlineOptions = ''config cannot be combined with inline options''"
| "display_args_error ct path (InvalidGraceArg e) = ''invalid grace: '' @ display_int_error e"
| "display_args_error ct path (MultipleValues name) = ''multiple '' @ name @ '' values given''"
| "display_args_error ct path (InvalidAlgorithmArg name value) =
     ''invalid '' @ name @ '' value '' @ debug_str ct value"
| "display_args_error ct path (InvalidConfigLine n) =
     ''invalid config line '' @ show_nat n @ '' in '' @ debug_str ct path"
| "display_args_error ct path (PolicyOptionError e) = display_option_error ct e"
| "display_args_error ct path (FailedToOpen e) = ''failed to open config file '' @ debug_str ct path @ '': '' @ e"
| "display_args_error ct path (FailedToStat e) = ''failed to stat config file '' @ debug_str ct path @ '': '' @ e"
| "display_args_error ct path NotRegularFile = ''config path '' @ debug_str ct path @ '' is not a regular file''"
| "display_args_error ct path WritableByOthers =
     ''config file '' @ debug_str ct path @ '' is writable by group or others''"
| "display_args_error ct path (FailedToRead e) = ''failed to read config file '' @ debug_str ct path @ '': '' @ e"

fun display_read_failure :: "char_tables \<Rightarrow> bytes \<Rightarrow> read_failure \<Rightarrow> bytes" where
  "display_read_failure ct jwks_path IssOrJwksMissing = ''iss and/or jwks missing''"
| "display_read_failure ct jwks_path (FailedToReadJwks e) =
     ''failed to read JWKS '' @ debug_str ct jwks_path @ '': '' @ e"

text \<open>\<open>ServerConfig::from_sasl\<close> strips the prefix of a configuration error.\<close>

fun display_server_config_error :: "char_tables \<Rightarrow> bytes \<Rightarrow> server_config_error \<Rightarrow> bytes" where
  "display_server_config_error ct path (OptionError e) = display_option_error ct e"
| "display_server_config_error ct path NoTrustedIssuerConfigured = ''No trusted issuer configured''"
| "display_server_config_error ct path NoJwksConfigured = ''No JWKS configured''"
| "display_server_config_error ct path (FailedToReadJwksFile e) =
     ''failed to read JWKS '' @ debug_str ct path @ '': '' @ e"
| "display_server_config_error ct path (VerifierError e) =
     (case e of ConfigError v \<Rightarrow> display_config_error ct v | other \<Rightarrow> display_oauth_error ct other)"

fun display_ssf_error :: "ssf_error \<Rightarrow> bytes" where
  "display_ssf_error GetpropNull = ''sasl_utils.getprop is NULL''"
| "display_ssf_error NoExternalSsf = ''could not get SASL_SSF_EXTERNAL''"

section \<open>Sinks\<close>

text \<open>A text that holds a NUL byte is dropped, and so is any text when the framework has no such function.\<close>

datatype sasl_log_level = SASL_LOG_ERR | SASL_LOG_NOTE

datatype message = Log sasl_log_level bytes | SetError bytes

record sinks =
  log_given :: bool
  seterror_given :: bool

definition utils_log :: "sinks \<Rightarrow> sasl_log_level \<Rightarrow> bytes \<Rightarrow> message list" where
  "utils_log k level msg =
     (case cstring_new msg of None \<Rightarrow> [] | Some m \<Rightarrow> if log_given k then [Log level m] else [])"

definition set_error :: "sinks \<Rightarrow> bytes \<Rightarrow> message list" where
  "set_error k msg =
     (case cstring_new msg of None \<Rightarrow> [] | Some m \<Rightarrow> if seterror_given k then [SetError m] else [])"

datatype priority = LOG_ERR | LOG_WARNING | LOG_INFO

definition slog :: "priority \<Rightarrow> bytes \<Rightarrow> (priority \<times> bytes) list" where
  "slog pri msg = (case cstring_new msg of None \<Rightarrow> [] | Some m \<Rightarrow> [(pri, m)])"

text \<open>\<open>pam_strerror\<close> is libpam's.\<close>

definition strerror :: "(c_int \<Rightarrow> bytes option) \<Rightarrow> c_int \<Rightarrow> bytes" where
  "strerror pam_strerror rc =
     (case pam_strerror rc of None \<Rightarrow> ''PAM error '' @ show_int rc | Some p \<Rightarrow> from_utf8_lossy p)"

section \<open>The SASL server\<close>

definition canon_messages :: "sinks \<Rightarrow> canon_user \<Rightarrow> bytes \<Rightarrow> bytes option \<Rightarrow> message list" where
  "canon_messages k canon authcid requested =
     (let failed = (\<lambda>rc. if rc \<noteq> SASL_OK then set_error k (''canon_user failed ('' @ show_int rc @ '')'') else []) in
      case Option.bind requested (\<lambda>v. if v \<noteq> [] then Some v else None) of
        Some name \<Rightarrow>
          (case cstring_new name of
             None \<Rightarrow> set_error k ''authzid contains NUL''
           | Some name \<Rightarrow>
               (let rc = canon name SASL_CU_AUTHZID in
                failed (if rc \<noteq> SASL_OK then rc else canon authcid SASL_CU_AUTHID)))
      | None \<Rightarrow> failed (canon authcid (or SASL_CU_AUTHID SASL_CU_AUTHZID)))"

definition tls_text :: "sasl_utils \<Rightarrow> 'k server_config \<Rightarrow> bytes option" where
  "tls_text utils config =
     (if tls_required config then
        (case external_ssf utils of
           Inl e \<Rightarrow> Some (display_ssf_error e)
         | Inr ssf \<Rightarrow> if ssf < 256 then Some ''TLS required'' else None)
      else None)"

definition server_messages :: "char_tables \<Rightarrow> sinks \<Rightarrow> ('j, 'k) jwt_lib \<Rightarrow> u64 option \<Rightarrow> sasl_utils \<Rightarrow>
    'k server_config \<Rightarrow> bytes \<Rightarrow> canon_user option \<Rightarrow> message list" where
  "server_messages ct k lib clock utils config input canon =
     (case tls_text utils config of
        Some e \<Rightarrow> set_error k e
      | None \<Rightarrow>
          if length input > MAX_CLIENTIN_LEN then set_error k ''client data too big''
          else if input = [CHR 0x01] then []
          else case parse_client_response input of
            Panic \<Rightarrow> []
          | Ret (Inl e) \<Rightarrow> set_error k (''invalid OAUTHBEARER client response: '' @ display_rfc7628_error e)
          | Ret (Inr response) \<Rightarrow>
              (case verify lib clock (sc_verifier config) (token response) of
                 Inl e \<Rightarrow>
                   utils_log k SASL_LOG_NOTE (''OAUTHBEARER token rejected: '' @ display_oauth_error ct e) @
                   set_error k (display_oauth_error ct e)
               | Inr authcid \<Rightarrow>
                   (case canon of
                      None \<Rightarrow> set_error k ''canon_user callback is NULL''
                    | Some canon \<Rightarrow>
                        (case cstring_new authcid of
                           None \<Rightarrow> set_error k ''authcid contains NUL''
                         | Some authcid \<Rightarrow> canon_messages k canon authcid (authzid response)))))"

text \<open>\<open>server_mech_step\<close> has a message of its own.\<close>

definition mech_step_messages :: "char_tables \<Rightarrow> sinks \<Rightarrow> ('j, 'k) jwt_lib \<Rightarrow> u64 option \<Rightarrow>
    'k server_config option \<Rightarrow> server_params option \<Rightarrow> bytes option \<Rightarrow> 32 word \<Rightarrow> bool \<Rightarrow> bool \<Rightarrow> message list" where
  "mech_step_messages ct k lib clock conn_context params client_in client_in_len out oparams_given =
     (case (conn_context, params) of
        (Some config, Some params) \<Rightarrow>
          (case (sp_utils params, out, oparams_given) of
             (Some utils, True, True) \<Rightarrow>
               if client_in = None \<and> client_in_len \<noteq> 0 then set_error k ''NULL client input''
               else
                 (let input = (case client_in of
                        Some mem \<Rightarrow> if client_in_len = 0 then [] else take (unat client_in_len) mem
                      | None \<Rightarrow> [])
                  in server_messages ct k lib clock utils config input (sp_canon_user params))
           | _ \<Rightarrow> [])
      | _ \<Rightarrow> [])"

text \<open>Loading the plugin, once the output pointers and the service table are there.\<close>

definition plug_init_messages :: "char_tables \<Rightarrow> sinks \<Rightarrow> ('j, 'k) jwt_lib \<Rightarrow> (bytes \<Rightarrow> bytes + bytes) \<Rightarrow>
    sasl_utils \<Rightarrow> int \<Rightarrow> message list option" where
  "plug_init_messages ct k lib read_file utils maxvers =
     (if maxvers < SASL_SERVER_PLUG_VERSION
      then Some (utils_log k SASL_LOG_ERR ''OAUTHBEARER server plugin version mismatch'')
      else map_option (\<lambda>r. case r of
          Inl e \<Rightarrow>
            (let path = (case read (utils_option utils) of
                   Some (Inr opts) \<Rightarrow> unwrap_or_empty (opt_jwks_path opts) | _ \<Rightarrow> [])
             in utils_log k SASL_LOG_ERR
                  (''OAUTHBEARER configuration failed: '' @ display_server_config_error ct path e))
        | Inr config \<Rightarrow> utils_log k SASL_LOG_NOTE ''OAUTHBEARER loaded JWKS and initialized verifier'')
        (from_sasl lib read_file utils))"

section \<open>The SASL client\<close>

definition client_values_messages :: "sinks \<Rightarrow> cb_value \<Rightarrow> cb_value \<Rightarrow> canon_user option \<Rightarrow> message list" where
  "client_values_messages k user pass canon =
     (case (user, pass) of
        (CbVal name, CbVal None) \<Rightarrow> set_error k ''Bad parameter (no Access Token)''
      | (CbVal name, CbVal (Some tok)) \<Rightarrow>
          if \<not> valid_utf8 tok then set_error k ''Access Token is not valid UTF-8''
          else (case canon of
              None \<Rightarrow> set_error k ''canon_user callback is NULL''
            | Some canon \<Rightarrow>
                (case non_empty name of
                   None \<Rightarrow> []
                 | Some v \<Rightarrow>
                     if \<not> valid_utf8 v then set_error k ''authzid is not valid UTF-8''
                     else if canon anonymous SASL_CU_AUTHID \<noteq> SASL_OK then []
                     else if cstring_new v = None then set_error k ''authzid contains NUL''
                     else []))
      | _ \<Rightarrow> [])"

definition client_messages :: "sinks \<Rightarrow> client_input \<Rightarrow> client_io \<Rightarrow> message list" where
  "client_messages k ci io =
     (if MAX_SERVERIN_LEN < of_nat (length (ci_server_in ci)) then set_error k ''server data too big''
      else if ci_is_final ci then
        set_error k (''Authentication failed ('' @ from_utf8_lossy (ci_server_in ci) @ '')'')
      else if ci_ssf_too_weak ci then set_error k ''SSF too weak for the OAUTHBEARER plugin''
      else client_values_messages k (app_user ci io) (app_token ci io) (ci_canon ci))"

definition client_init_messages :: "sinks \<Rightarrow> int \<Rightarrow> message list" where
  "client_init_messages k maxvers =
     (if maxvers < SASL_CLIENT_PLUG_VERSION
      then utils_log k SASL_LOG_ERR ''OAUTHBEARER client plugin version mismatch'' else [])"

section \<open>The PAM module\<close>

definition converse_log :: "(c_int \<Rightarrow> bytes option) \<Rightarrow> pam_handle \<Rightarrow> bytes \<Rightarrow> (priority \<times> bytes) list" where
  "converse_log strerr pam prompt =
     (let (rc, conv) = pam_get_conv pam in
      if rc \<noteq> PAM_SUCCESS then slog LOG_ERR (''pam_get_item(PAM_CONV) failed: '' @ strerror strerr rc)
      else case Option.bind conv id of
        None \<Rightarrow> []
      | Some conv_fn \<Rightarrow>
          (let rc = conv_rc (conv_fn \<lparr>msg_style = PAM_PROMPT_ECHO_OFF, pam_msg = prompt\<rparr>) in
           if rc \<noteq> PAM_SUCCESS then slog LOG_ERR (''PAM conv error: '' @ strerror strerr rc) else []))"

definition token_log :: "(c_int \<Rightarrow> bytes option) \<Rightarrow> pam_handle \<Rightarrow> (priority \<times> bytes) list" where
  "token_log strerr pam =
     (case item_str pam PAM_AUTHTOK of
        Inl rc \<Rightarrow> slog LOG_ERR (''pam_get_item(PAM_AUTHTOK) failed: '' @ strerror strerr rc)
      | Inr (Some tok) \<Rightarrow> []
      | Inr None \<Rightarrow>
          converse_log strerr pam ''Access Token: '' @
          (case converse_secret pam ''Access Token: '' of
             Inl rc \<Rightarrow> []
           | Inr answer \<Rightarrow> if valid_utf8 answer then [] else slog LOG_ERR ''access token is not valid UTF-8''))"

text \<open>A panic leaves the module through \<open>guard\<close>, which logs it.\<close>

definition check_token_log :: "char_tables \<Rightarrow> ('j, 'k) jwt_lib \<Rightarrow> u64 option \<Rightarrow> bytes \<Rightarrow> bytes \<Rightarrow> bytes \<Rightarrow>
    (cache_error + 'k jwt_verifier) flow \<Rightarrow> (priority \<times> bytes) list" where
  "check_token_log ct lib clock jwks_path user tok r =
     (case r of
        Panic \<Rightarrow> slog LOG_ERR ''pam_oauthbearer: internal panic''
      | Ret (Inl (ReadError e)) \<Rightarrow> slog LOG_ERR (display_read_failure ct jwks_path e)
      | Ret (Inl (BuildError e)) \<Rightarrow> slog LOG_ERR (''JWT verifier setup failed: '' @ display_oauth_error ct e)
      | Ret (Inr v) \<Rightarrow>
          (case verify lib clock v tok of
             Inl e \<Rightarrow> slog LOG_ERR (''token rejected: '' @ display_oauth_error ct e)
           | Inr oauth_user \<Rightarrow>
               if oauth_user \<noteq> user then
                 slog LOG_INFO (''oauth token user '' @ [CHR 0x22] @ oauth_user @ [CHR 0x22] @
                   '', requested user '' @ [CHR 0x22] @ from_utf8_lossy user @ [CHR 0x22])
               else []))"

definition authenticate_user_log :: "char_tables \<Rightarrow> (c_int \<Rightarrow> bytes option) \<Rightarrow> ('j, 'k) jwt_lib \<Rightarrow> u64 option \<Rightarrow>
    os_view \<Rightarrow> pam_handle \<Rightarrow> nat \<Rightarrow> 'k cache_state \<Rightarrow> bytes \<Rightarrow> (priority \<times> bytes) list" where
  "authenticate_user_log ct strerr lib clock os pam cid st user =
     (case account_exists pam user of
        Inl rc \<Rightarrow>
          if rc = PAM_TRY_AGAIN then slog LOG_ERR (''getpwnam_r('' @ from_utf8_lossy user @ '') failed'') else []
      | Inr exists \<Rightarrow>
          (if exists then [] else slog LOG_WARNING (''inexistant user '' @ from_utf8_lossy user)) @
          token_log strerr pam @
          (case fst (obtain_token pam) of
             Inl rc \<Rightarrow> []
           | Inr tok \<Rightarrow>
               check_token_log ct lib clock (unwrap_or_empty (jwks (cfg_args (configs st ! cid)))) user tok
                 (fst (cache_verifier lib os cid st))))"

definition authenticate_log :: "char_tables \<Rightarrow> (c_int \<Rightarrow> bytes option) \<Rightarrow> ('j, 'k) jwt_lib \<Rightarrow> u64 option \<Rightarrow>
    os_view \<Rightarrow> os_view \<Rightarrow> pam_handle \<Rightarrow> bytes list \<Rightarrow> 'k cache_state \<Rightarrow> (priority \<times> bytes) list option" where
  "authenticate_log ct strerr lib clock os1 os2 pam raw_args st =
     map_option (\<lambda>(r, st'). case r of
         Panic \<Rightarrow> slog LOG_ERR ''pam_oauthbearer: internal panic''
       | Ret (Inl e) \<Rightarrow>
           slog LOG_ERR (display_args_error ct
             (case config_path raw_args of Inr (Some p) \<Rightarrow> p | _ \<Rightarrow> []) e)
       | Ret (Inr cid) \<Rightarrow>
           if rhost_denied pam (cfg_args (configs st' ! cid)) then []
           else (case pam_user pam of
               Inl rc \<Rightarrow> slog LOG_ERR (''pam_get_user() failed: '' @ strerror strerr rc)
             | Inr user \<Rightarrow> authenticate_user_log ct strerr lib clock os2 pam cid st' user))
       (cache_config os1 raw_args st)"

lemmas messages_eval [rust_defs] =
  unwrap_or_empty_def utils_log_def set_error_def slog_def strerror_def canon_messages_def tls_text_def
  server_messages_def mech_step_messages_def plug_init_messages_def client_values_messages_def client_messages_def
  client_init_messages_def converse_log_def token_log_def check_token_log_def authenticate_user_log_def authenticate_log_def

section \<open>What reaches the log\<close>

lemma plain_sinks:
  "plain msg \<Longrightarrow> set_error \<lparr>log_given = True, seterror_given = True\<rparr> msg = [SetError msg]"
  "plain msg \<Longrightarrow> utils_log \<lparr>log_given = True, seterror_given = True\<rparr> level msg = [Log level msg]"
  "plain msg \<Longrightarrow> slog pri msg = [(pri, msg)]"
  by (simp_all add: set_error_def utils_log_def slog_def plain_cstring_new)

text \<open>Which data an error of \<open>verify\<close> carries that the token chose: only what is shown under \<open>{:?}\<close>.\<close>

fun claim_name_in :: "oauth_error \<Rightarrow> bytes option" where
  "claim_name_in (MissingUidClaim claim) = Some claim"
| "claim_name_in (InvalidUidClaim claim) = Some claim"
| "claim_name_in _ = None"

lemma verify_error_data:
  assumes "verify lib clock v tok = Inl e"
  shows "claim_name_in e \<in> {None, Some (uid_attr (v_policy v))}"
    and "e = ConfigError d \<Longrightarrow> d = TimeBeforeEpoch"
proof -
  have claims: "claim_name_in e \<in> {None, Some (uid_attr (v_policy v))} \<and> (\<forall>d. e = ConfigError d \<longrightarrow> d = TimeBeforeEpoch)"
    if "check_claims clock (v_policy v) claims = Inl e" for claims
    using that unfolding check_claims_def and_then_eq_Inl
    by (auto dest!: check_errors uid_errors)
  have "claim_name_in e \<in> {None, Some (uid_attr (v_policy v))} \<and> (\<forall>d. e = ConfigError d \<longrightarrow> d = TimeBeforeEpoch)"
  proof (cases "e \<in> {ParseError, InvalidSignature} \<union> range UnknownSigningKey")
    case True
    then show ?thesis by auto
  next
    case False
    with verify_claim_error [OF assms] claims show ?thesis by auto
  qed
  then show "claim_name_in e \<in> {None, Some (uid_attr (v_policy v))}"
    and "e = ConfigError d \<Longrightarrow> d = TimeBeforeEpoch" by blast+
qed

lemma verify_error_plain:
  assumes "verify lib clock v tok = Inl e" and "tables_ok ct" and "plain (uid_attr (v_policy v))"
  shows "plain (display_oauth_error ct e)"
  using verify_error_data [OF assms(1)] assms(2,3) by (cases e) auto

definition all_sinks :: sinks where
  "all_sinks = \<lparr>log_given = True, seterror_given = True\<rparr>"

lemma tls_text_error: "tls_text utils config = None \<longleftrightarrow> tls_error utils config = None"
  by (auto simp: tls_text_def tls_error_def split: sum.splits)

lemma tls_text_plain: "tls_text utils config = Some t \<Longrightarrow> plain t"
proof -
  have "plain (display_ssf_error e)" for e by (cases e) simp_all
  then show "tls_text utils config = Some t \<Longrightarrow> plain t"
    by (auto simp: tls_text_def split: sum.splits if_splits)
qed

lemma plain_rfc7628 [simp]: "plain (display_rfc7628_error e)"
  by (cases e) simp_all

lemma canon_messages_result:
  assumes "server_canon c uid requested io = (rc, io')"
  shows "rc = SASL_OK \<and> canon_messages all_sinks c uid requested = [] \<or>
    rc \<noteq> SASL_OK \<and> (\<exists>t. plain t \<and> canon_messages all_sinks c uid requested = [SetError t])"
proof -
  have told: "\<exists>t. plain t \<and> set_error all_sinks m = [SetError t]" if "plain m" for m
    using that by (auto simp: all_sinks_def plain_sinks)
  from assms show ?thesis
    by (auto simp: server_canon_def canon_messages_def canon_apply_def Let_def sasl_codes
        intro!: told split: option.splits if_splits)
qed

lemma messages_eqs:
  assumes "tls_error utils config = None" "length input \<le> MAX_CLIENTIN_LEN" "client_message input resp"
  shows "server_messages ct k lib clock utils config input canon =
    (case verify lib clock (sc_verifier config) (token resp) of
       Inl e \<Rightarrow>
         utils_log k SASL_LOG_NOTE (''OAUTHBEARER token rejected: '' @ display_oauth_error ct e) @
         set_error k (display_oauth_error ct e)
     | Inr uid \<Rightarrow>
         (case canon of
            None \<Rightarrow> set_error k ''canon_user callback is NULL''
          | Some c \<Rightarrow> canon_messages k c uid (authzid resp)))"
proof -
  from assms(3) client_message_not_01 have "input \<noteq> [CHR 0x01]" by auto
  moreover from assms(3) have "parse_client_response input = Ret (Inr resp)" by (simp add: parse_client_message_iff)
  moreover have "cstring_new uid = Some uid" if "verify lib clock (sc_verifier config) (token resp) = Inr uid" for uid
    using verify_uid_nul [OF that] by (simp add: cstring_new_def)
  ultimately show ?thesis
    using assms(1,2) by (auto simp: server_messages_def tls_text_error [THEN iffD2] split: sum.splits option.splits)
qed

lemma server_step_message:
  assumes "tls_error utils config = None" "length input \<le> MAX_CLIENTIN_LEN" "client_message input resp"
    and "server_step lib clock utils config input canon io = (r, io')"
  shows "verify lib clock (sc_verifier config) (token resp) = Inl e \<Longrightarrow> r = Ret SASL_CONTINUE"
    and "verify lib clock (sc_verifier config) (token resp) = Inr uid \<Longrightarrow> canon = None \<Longrightarrow> r = Ret SASL_FAIL"
proof -
  from assms(3) client_message_not_01 have "input \<noteq> [CHR 0x01]" by auto
  moreover from assms(3) have "parse_client_response input = Ret (Inr resp)" by (simp add: parse_client_message_iff)
  ultimately show "verify lib clock (sc_verifier config) (token resp) = Inl e \<Longrightarrow> r = Ret SASL_CONTINUE"
    and "verify lib clock (sc_verifier config) (token resp) = Inr uid \<Longrightarrow> canon = None \<Longrightarrow> r = Ret SASL_FAIL"
    using assms by (auto simp: server_step_def Let_def)
qed

lemma server_inputs:
  obtains rc t where "tls_error utils config = Some rc" "tls_text utils config = Some t"
    | "tls_error utils config = None" "tls_text utils config = None" "MAX_CLIENTIN_LEN < length input \<or> input = [CHR 0x01]"
    | e where "tls_error utils config = None" "tls_text utils config = None" "length input \<le> MAX_CLIENTIN_LEN"
        "input \<noteq> [CHR 0x01]" "parse_client_response input = Ret (Inl e)"
    | resp where "tls_error utils config = None" "length input \<le> MAX_CLIENTIN_LEN" "client_message input resp"
proof (cases "tls_error utils config")
  case None
  then have "tls_text utils config = None" by (simp add: tls_text_error)
  moreover have "\<exists>x. parse_client_response input = Ret x"
    using parse_no_panic by (cases "parse_client_response input") auto
  ultimately show ?thesis using None that(2-4)
    by (metis not_less parse_client_message_iff sum.exhaust)
next
  case (Some rc)
  then show ?thesis using that(1) tls_text_error by (metis not_None_eq)
qed


lemma obtained_token_log:
  assumes "fst (obtain_token pam) = Inr tok"
  shows "token_log strerr pam = []"
proof -
  have "converse_log strerr pam p = []" if "converse_secret pam p = Inr a" for p a
    using that by (auto simp: converse_secret_def converse_log_def Let_def split: prod.splits if_splits option.splits)
  with assms show ?thesis
    by (auto simp: obtain_token_def token_log_def from_utf8_def result_simps
        split: sum.splits option.splits if_splits)
qed


text \<open>Tables that know ASCII only, and an expired token.\<close>

definition ascii_tables :: char_tables where
  "ascii_tables = \<lparr>ct_printable = (\<lambda>c. length c = 1 \<and> list_all (\<lambda>b. 32 \<le> ord b \<and> ord b < 127) c),
     ct_grapheme_extend = (\<lambda>_. False)\<rparr>"

lemma ascii_tables_ok: "tables_ok ascii_tables"
  by (auto simp: tables_ok_def ascii_tables_def plain_def list_all_iff)

definition forged_issuer :: bytes where
  "forged_issuer = ''x'' @ [CHR 0x0A] @ ''y''"

definition forging_lib :: "(json, bytes) jwt_lib" where
  "forging_lib = sample_lib\<lparr>lib_decode := \<lambda>t k v. Inr (Object [(''iss'', String forged_issuer)])\<rparr>"

definition shown_issuer :: bytes where
  "shown_issuer = ''invalid or missing issuer: '' @ [CHR 0x22] @ ''x'' @ [CHR 0x5C] @ ''ny'' @ [CHR 0x22]"

lemma forging_messages:
  "server_messages ascii_tables all_sinks forging_lib (Some 1002) sample_utils sample_server sample_message None =
     [Log SASL_LOG_NOTE (''OAUTHBEARER token rejected: '' @ shown_issuer), SetError shown_issuer]"
proof -
  have "parse_client_response sample_message = Ret (Inr \<lparr>authzid = Some ''bob'', token = sample_token\<rparr>)"
    "tls_error sample_utils sample_server = None" "length sample_message < 100"
    and shown: "verify forging_lib (Some 1002) (sc_verifier sample_server) sample_token = Inl (InvalidIssuer (Some forged_issuer))"
      "display_oauth_error ascii_tables (InvalidIssuer (Some forged_issuer)) = shown_issuer"
      "plain shown_issuer"
    by code_simp+
  then have "client_message sample_message \<lparr>authzid = Some ''bob'', token = sample_token\<rparr>"
    "tls_error sample_utils sample_server = None" "length sample_message \<le> MAX_CLIENTIN_LEN"
    by (simp_all add: MAX_CLIENTIN_LEN_def flip: parse_client_message_iff)
  then show ?thesis using shown by (simp add: messages_eqs all_sinks_def plain_sinks del: display_oauth_error.simps)
qed



end
