(* ===== verification/Unit_Tests.thy ===== *)
theory Unit_Tests
  imports Messages
begin

text \<open>
  The unit tests inside \<open>core/src/jwt.rs\<close>, \<open>core/src/rfc7628.rs\<close>, \<open>pam/src/lib.rs\<close> and \<open>pam/src/cache.rs\<close>, run
  on the model: a test is the conjunction of its assertions and has the name of the test function. JSON
  texts stand for the values that \<open>serde_json\<close> reads from them, \<open>42.4\<close> and \<open>42.6\<close> for the doubles next to
  them, files for what the file system answers. Two tests of \<open>cache.rs\<close> are left out: they tell whether
  two \<open>Arc<JwtVerifier>\<close> are the same allocation, which the model does not know.
\<close>

section \<open>Fixtures\<close>

definition is_ok :: "'e + 'a \<Rightarrow> bool" where
  "is_ok r \<longleftrightarrow> (case r of Inl _ \<Rightarrow> False | Inr _ \<Rightarrow> True)"

definition reading :: "bytes + json \<Rightarrow> (json, bytes) jwt_lib" where
  "reading document = sample_lib\<lparr>lib_from_str := (\<lambda>_. document)\<rparr>"

definition json_float :: "rat \<Rightarrow> json" where
  "json_float q = Number \<lparr>num_as_i64 = None, num_as_u64 = None, num_as_f64 = Some (Finite q)\<rparr>"

definition jwks_of :: "json list \<Rightarrow> json" where
  "jwks_of ks = Object [(''keys'', Array ks)]"

text \<open>\<open>{"kty":"RSA", ..., "n":"AQ","e":"AQAB"}\<close>\<close>

definition rsa_key :: "(bytes \<times> json) list \<Rightarrow> json" where
  "rsa_key members = Object ((''kty'', String ''RSA'') # members @ [(''n'', String ''AQ''), (''e'', String ''AQAB'')])"

definition test_policy :: jwt_policy where
  "test_policy =
     \<lparr>uid_attr = ''uid'', grace = 3, trusted_issuer = ''issuer'', trusted_audiences = [''ldap''],
      trusted_authorized_parties = [], required_scopes = [], disallowed_usernames = [],
      allowed_algorithms = None, disallowed_algorithms = []\<rparr>"

definition test_load :: "json list \<Rightarrow> oauth_error + bytes jwt_verifier" where
  "test_load ks = from_jwks_json (reading (Inr (jwks_of ks))) test_policy ''...''"

section \<open>\<open>core/src/jwt.rs\<close>\<close>

definition jwks_ignores_rsa_oaep_encryption_key :: bool where
  "jwks_ignores_rsa_oaep_encryption_key \<longleftrightarrow>
     (case test_load [rsa_key [(''kid'', String ''enc''), (''use'', String ''enc''), (''alg'', String ''RSA-OAEP'')],
        rsa_key [(''kid'', String ''sig''), (''use'', String ''sig''), (''alg'', String ''RS256'')]] of
        Inl _ \<Rightarrow> False
      | Inr v \<Rightarrow> hm_get (v_keys v) ''sig'' \<noteq> None \<and> hm_get (v_keys v) ''enc'' = None)"

definition empty_trusted_audience_configuration_is_rejected :: bool where
  "empty_trusted_audience_configuration_is_rejected \<longleftrightarrow>
     (case from_jwks_json (reading (Inr (Object []))) (test_policy\<lparr>trusted_audiences := []\<rparr>) ''{}'' of
        Inl (ConfigError e) \<Rightarrow> display_config_error ascii_tables e = ''no trusted audiences configured''
      | _ \<Rightarrow> False)"

definition legacy_algorithm_policy_is_preserved :: bool where
  "legacy_algorithm_policy_is_preserved \<longleftrightarrow>
     (let policy = test_policy\<lparr>disallowed_algorithms := [PS256]\<rparr> in
      algorithm_allowed policy RS256 \<and> \<not> algorithm_allowed policy HS256 \<and> \<not> algorithm_allowed policy PS256)"

definition explicit_allow_list_replaces_legacy_list :: bool where
  "explicit_allow_list_replaces_legacy_list \<longleftrightarrow>
     (let policy = test_policy\<lparr>allowed_algorithms := Some [PS256]\<rparr> in
      algorithm_allowed policy PS256 \<and> \<not> algorithm_allowed policy RS256)"

definition disallowed_username_is_rejected :: bool where
  "disallowed_username_is_rejected \<longleftrightarrow>
     (let policy = test_policy\<lparr>disallowed_usernames := [''root'', ''Administrator'']\<rparr> in
      is_ok (check_username policy ''alice'') \<and>
      check_username policy ''root'' = Inl (DisallowedUsername ''root'') \<and>
      check_username policy ''Root'' = Inl (DisallowedUsername ''Root''))"

definition scopes_are_space_delimited :: bool where
  "scopes_are_space_delimited \<longleftrightarrow>
     (let scope = ''openid profile email'' in
      list_ex (\<lambda>v. v = ''openid'') (split_ascii_whitespace scope) \<and>
      \<not> list_ex (\<lambda>v. v = ''open'') (split_ascii_whitespace scope))"

definition empty_trusted_issuer_configuration_is_rejected :: bool where
  "empty_trusted_issuer_configuration_is_rejected \<longleftrightarrow>
     (case from_jwks_json (reading (Inr (Object []))) (test_policy\<lparr>trusted_issuer := []\<rparr>) ''{}'' of
        Inl (ConfigError e) \<Rightarrow> display_config_error ascii_tables e = ''no trusted issuer configured''
      | _ \<Rightarrow> False)"

definition empty_explicit_algorithm_allow_list_is_rejected :: bool where
  "empty_explicit_algorithm_allow_list_is_rejected \<longleftrightarrow>
     (case from_jwks_json (reading (Inr (Object []))) (test_policy\<lparr>allowed_algorithms := Some []\<rparr>) ''{}'' of
        Inl (ConfigError e) \<Rightarrow> display_config_error ascii_tables e = ''oauthbearer_allowed_alg was configured but contains no algorithms''
      | _ \<Rightarrow> False)"

definition invalid_jwks_shapes_are_rejected :: bool where
  "invalid_jwks_shapes_are_rejected \<longleftrightarrow>
     list_all (\<lambda>(document, expected).
        case from_jwks_json (reading document) test_policy ''...'' of
          Inl (ConfigError e) \<Rightarrow> starts_with expected (display_config_error ascii_tables e)
        | _ \<Rightarrow> False)
      [(Inl ''expected value'', ''invalid JWKS JSON:''),
       (Inr (Object []), ''JWKS has no keys array''),
       (Inr (jwks_of []), ''JWKS contains no keys''),
       (Inr (jwks_of [Null]), ''JWKS key is not an object'')]"

definition duplicate_jwk_kid_is_rejected :: bool where
  "duplicate_jwk_kid_is_rejected \<longleftrightarrow>
     (case test_load [rsa_key [(''kid'', String ''dup''), (''use'', String ''sig''), (''alg'', String ''RS256'')],
        rsa_key [(''kid'', String ''dup''), (''use'', String ''sig''), (''alg'', String ''RS256'')]] of
        Inl (ConfigError e) \<Rightarrow> display_config_error ascii_tables e = ''duplicate JWK kid '' @ [CHR 0x22] @ ''dup'' @ [CHR 0x22]
      | _ \<Rightarrow> False)"

definition jwks_ignores_keys_that_cannot_verify_signatures :: bool where
  "jwks_ignores_keys_that_cannot_verify_signatures \<longleftrightarrow>
     (case test_load
        [rsa_key [(''use'', String ''sig''), (''alg'', String ''RS256'')],
         rsa_key [(''kid'', String ''enc''), (''use'', String ''enc''), (''alg'', String ''RS256'')],
         rsa_key [(''kid'', String ''sign-only''), (''use'', String ''sig''), (''key_ops'', Array [String ''sign'']), (''alg'', String ''RS256'')],
         rsa_key [(''kid'', String ''unknown-alg''), (''use'', String ''sig''), (''alg'', String ''UNKNOWN'')],
         rsa_key [(''kid'', String ''sig''), (''use'', String ''sig''), (''key_ops'', Array [String ''verify'']), (''alg'', String ''RS256'')]] of
        Inl _ \<Rightarrow> False
      | Inr v \<Rightarrow> length (v_keys v) = 1 \<and> hm_get (v_keys v) ''sig'' \<noteq> None)"

definition issuer_validation_rejects_missing_wrong_and_non_string_values :: bool where
  "issuer_validation_rejects_missing_wrong_and_non_string_values \<longleftrightarrow>
     is_ok (check_issuer test_policy (Object [(''iss'', String ''issuer'')])) \<and>
     check_issuer test_policy (Object []) = Inl (InvalidIssuer None) \<and>
     check_issuer test_policy (Object [(''iss'', String ''wrong'')]) = Inl (InvalidIssuer (Some ''wrong'')) \<and>
     check_issuer test_policy (Object [(''iss'', json_int 42)]) = Inl (InvalidIssuer None)"

definition audience_validation_supports_string_and_array :: bool where
  "audience_validation_supports_string_and_array \<longleftrightarrow>
     is_ok (check_audience test_policy (Object [(''aud'', String ''ldap'')])) \<and>
     is_ok (check_audience test_policy (Object [(''aud'', Array [String ''other'', String ''ldap''])])) \<and>
     list_all (\<lambda>claims. check_audience test_policy claims = Inl InvalidAudience)
       [(Object []), (Object [(''aud'', String ''other'')]), (Object [(''aud'', Array [String ''other''])]), (Object [(''aud'', json_int 42)])]"

definition authorized_party_validation_covers_missing_type_and_value :: bool where
  "authorized_party_validation_covers_missing_type_and_value \<longleftrightarrow>
     (let policy = test_policy\<lparr>trusted_authorized_parties := [''client'']\<rparr> in
      is_ok (check_authorized_party policy (Object [(''azp'', String ''client'')])) \<and>
      check_authorized_party policy (Object []) = Inl (InvalidAuthorizedParty None) \<and>
      check_authorized_party policy (Object [(''azp'', json_int 42)]) = Inl (InvalidAuthorizedParty None) \<and>
      check_authorized_party policy (Object [(''azp'', String ''wrong'')]) = Inl (InvalidAuthorizedParty (Some ''wrong'')))"

definition authorized_party_is_optional_when_not_configured :: bool where
  "authorized_party_is_optional_when_not_configured \<longleftrightarrow>
     is_ok (check_authorized_party test_policy (Object []))"

definition required_scopes_are_exact_tokens :: bool where
  "required_scopes_are_exact_tokens \<longleftrightarrow>
     (let policy = test_policy\<lparr>required_scopes := [''openid'', ''profile'']\<rparr> in
      is_ok (check_required_scopes policy (Object [(''scope'', String ''openid profile email'')])) \<and>
      check_required_scopes policy (Object [(''scope'', String ''openidish profile'')]) = Inl (MissingScope ''openid'') \<and>
      check_required_scopes policy (Object []) = Inl (MissingScope ''openid''))"

definition uid_must_be_a_non_empty_string :: bool where
  "uid_must_be_a_non_empty_string \<longleftrightarrow>
     extract_uid test_policy (Object [(''uid'', String ''alice'')]) = Inr ''alice'' \<and>
     list_all (\<lambda>claims. extract_uid test_policy claims = Inl (MissingUidClaim ''uid''))
       [(Object []), (Object [(''uid'', String [])]), (Object [(''uid'', json_int 42)]), (Object [(''uid'', Array [String ''alice''])])]"

definition uid_must_not_carry_whitespace_or_control_characters :: bool where
  "uid_must_not_carry_whitespace_or_control_characters \<longleftrightarrow>
     extract_uid test_policy (Object [(''uid'', String ''al ice'')]) = Inr ''al ice'' \<and>
     list_all (\<lambda>uid. extract_uid test_policy (Object [(''uid'', String uid)]) = Inl (InvalidUidClaim ''uid''))
       [''root '', '' root'', ''root'' @ [CHR 0x09], ''Administrator'' @ [CHR 0x0A], ''ro'' @ [CHR 0x07] @ ''ot'']"

definition numeric_date_accepts_numbers_and_rejects_other_types :: bool where
  "numeric_date_accepts_numbers_and_rejects_other_types \<longleftrightarrow>
     numeric_date None = Inr None \<and>
     numeric_date (Some (json_int 42)) = Inr (Some 42) \<and>
     numeric_date (Some (json_float (5967269506265907 / 2 ^ 47))) = Inr (Some 42) \<and>
     numeric_date (Some (json_float (5995417003936973 / 2 ^ 47))) = Inr (Some 43) \<and>
     numeric_date (Some (String ''42'')) = Inl ClaimExpired \<and>
     numeric_date (Some (Array [])) = Inl ClaimExpired"

definition algorithm_key_type_matching_is_strict :: bool where
  "algorithm_key_type_matching_is_strict \<longleftrightarrow>
     algorithm_matches_key_type RS256 ''RSA'' None \<and>
     \<not> algorithm_matches_key_type HS256 ''RSA'' None \<and>
     algorithm_matches_key_type ES256 ''EC'' (Some ''P-256'') \<and>
     \<not> algorithm_matches_key_type ES256 ''EC'' (Some ''P-384'') \<and>
     algorithm_matches_key_type EdDSA ''OKP'' (Some ''Ed25519'') \<and>
     \<not> algorithm_matches_key_type EdDSA ''OKP'' (Some ''X25519'') \<and>
     algorithm_matches_key_type HS512 ''oct'' None \<and>
     \<not> algorithm_matches_key_type RS256 ''oct'' None \<and>
     \<not> algorithm_matches_key_type RS256 ''unknown'' None"

definition signing_key_metadata_must_match_token_algorithm :: bool where
  "signing_key_metadata_must_match_token_algorithm \<longleftrightarrow>
     (let meta = \<lparr>meta_alg = Some ''RS256'', meta_use = Some ''sig'', meta_key_ops = [''verify''],
        meta_kty = ''RSA'', meta_crv = None\<rparr> in
      is_ok (check_jwk_metadata meta RS256) \<and>
      check_jwk_metadata (meta\<lparr>meta_alg := Some ''RS384''\<rparr>) RS256 = Inl InvalidSignature \<and>
      check_jwk_metadata (meta\<lparr>meta_use := Some ''enc''\<rparr>) RS256 = Inl InvalidSignature \<and>
      check_jwk_metadata (meta\<lparr>meta_key_ops := [''sign'']\<rparr>) RS256 = Inl InvalidSignature \<and>
      check_jwk_metadata (meta\<lparr>meta_kty := ''EC''\<rparr>) RS256 = Inl InvalidSignature)"

section \<open>\<open>core/src/rfc7628.rs\<close>\<close>

definition round_trip :: bool where
  "round_trip \<longleftrightarrow>
     parse_client_response (build_client_response (Some ''a,b=c'') ''aaa.bbb.ccc'') =
       Ret (Inr \<lparr>authzid = Some ''a,b=c'', token = ''aaa.bbb.ccc''\<rparr>)"

section \<open>\<open>pam/src/lib.rs\<close>\<close>

definition contains :: "bytes \<Rightarrow> bytes \<Rightarrow> bool" where
  "contains part s \<longleftrightarrow> list_ex (\<lambda>i. starts_with part (drop i s)) [0 ..< Suc (length s)]"

text \<open>A file whose content and mode are as given.\<close>

definition test_file :: "32 word \<Rightarrow> bytes \<Rightarrow> io_error + opened" where
  "test_file mode contents = Inr \<lparr>f_metadata = Inr (sample_meta\<lparr>md_mode := mode\<rparr>), f_read = Inr contents\<rparr>"

definition lines_of :: "bytes list \<Rightarrow> bytes" where
  "lines_of ls = concat (map (\<lambda>l. l @ [CHR 0x0A]) ls)"

definition args_satisfy :: "(args_error + pam_args) option \<Rightarrow> (pam_args \<Rightarrow> bool) \<Rightarrow> bool" where
  "args_satisfy r P \<longleftrightarrow> (case r of Some (Inr args) \<Rightarrow> P args | _ \<Rightarrow> False)"

definition only_from_preserves_all_hosts :: bool where
  "only_from_preserves_all_hosts \<longleftrightarrow>
     args_satisfy (Some (parse_inline_args [''only_from=host-a,host-b''])) (\<lambda>args.
        only_from args = [[''host-a'', ''host-b'']])"

definition only_from_skips_empty_entries :: bool where
  "only_from_skips_empty_entries \<longleftrightarrow>
     args_satisfy (Some (parse_inline_args [''only_from=a,,b,''])) (\<lambda>args.
        only_from args = [[''a'', ''b'']] \<and> \<not> only_from_allows (only_from args) [])"

definition empty_only_from_allows_no_host :: bool where
  "empty_only_from_allows_no_host \<longleftrightarrow>
     args_satisfy (Some (parse_inline_args [''only_from=''])) (\<lambda>args.
        \<not> only_from_allows (only_from args) [] \<and> \<not> only_from_allows (only_from args) ''a'')"

definition every_only_from_argument_must_match :: bool where
  "every_only_from_argument_must_match \<longleftrightarrow>
     args_satisfy (Some (parse_inline_args [''only_from=a,b'', ''only_from=b,c''])) (\<lambda>args.
        only_from_allows (only_from args) ''b'' \<and> \<not> only_from_allows (only_from args) ''a'' \<and>
        \<not> only_from_allows (only_from args) ''c'')"

definition config_file_uses_sasl_options :: bool where
  "config_file_uses_sasl_options \<longleftrightarrow>
     args_satisfy (map_option (map_sum id fst) (read_config_file (test_file 0x8180 (lines_of [''oauthbearer_userid: uid'',
          ''oauthbearer_grace: 7'',
          ''oauthbearer_trusted_iss0: issuer'',
          ''oauthbearer_trusted_jwks0: keys.json'',
          ''oauthbearer_trusted_aud0: audience'',
          ''oauthbearer_trusted_aud1: second'']))))
       (\<lambda>args. userid args = ''uid'' \<and> args_grace args = 7 \<and> iss args = Some ''issuer'' \<and>
          jwks args = Some ''keys.json'' \<and> trusted_aud args = [''audience'', ''second''])"

definition config_file_writable_by_others_is_rejected :: bool where
  "config_file_writable_by_others_is_rejected \<longleftrightarrow>
     (case read_config_file (test_file 0x8182 (lines_of [''oauthbearer_trusted_aud0: audience''])) of
        Some (Inl e) \<Rightarrow> contains ''writable by group or others'' (display_args_error ascii_tables ''/tmp/config'' e)
      | _ \<Rightarrow> False)"

definition config_file_accepts_unindexed_list_options :: bool where
  "config_file_accepts_unindexed_list_options \<longleftrightarrow>
     args_satisfy (parse_config (lines_of [''oauthbearer_disallowed_username: root, admin'',
          ''oauthbearer_disallowed_alg: HS256'']))
       (\<lambda>args. args_disallowed_usernames args = [''root'', ''admin''] \<and> args_disallowed_algorithms args = [HS256])"

definition config_file_follows_cyrus_line_rules :: bool where
  "config_file_follows_cyrus_line_rules \<longleftrightarrow>
     args_satisfy (parse_config (lines_of [''# comment'',
          ''OAuthBearer_Trusted_Iss0: https://first/#frag'',
          ''oauthbearer_trusted_iss0: second'']))
       (\<lambda>args. iss args = Some ''https://first/#frag'')"

definition config_file_stops_at_the_first_missing_index :: bool where
  "config_file_stops_at_the_first_missing_index \<longleftrightarrow>
     args_satisfy (parse_config (lines_of [''oauthbearer_trusted_aud0: a'',
          ''oauthbearer_trusted_aud2: c'']))
       (\<lambda>args. trusted_aud args = [''a''])"

definition config_file_rejects_empty_values :: bool where
  "config_file_rejects_empty_values \<longleftrightarrow>
     (case parse_config (lines_of [''oauthbearer_trusted_iss0:'']) of Some (Inl _) \<Rightarrow> True | _ \<Rightarrow> False)"

definition config_cannot_be_combined_with_inline_options :: bool where
  "config_cannot_be_combined_with_inline_options \<longleftrightarrow>
     \<not> is_ok (config_path [''config=/x'', ''iss=y'']) \<and> \<not> is_ok (config_path [''config=/x'', ''config=/y''])"

section \<open>\<open>pam/src/cache.rs\<close>\<close>

text \<open>The file is written at second 1000 and settles; it is written again at second 1003, with the same size,
  and read at once.\<close>

definition view_lines :: "bytes \<Rightarrow> bytes" where
  "view_lines aud = lines_of
     [''oauthbearer_trusted_iss0: issuer'', ''oauthbearer_trusted_jwks0: keys.json'',
      ''oauthbearer_trusted_aud0: '' @ aud]"

definition view_meta :: "i64 \<Rightarrow> metadata" where
  "view_meta written = sample_meta\<lparr>md_mode := 0x8180, md_ctime := written, md_mtime := written\<rparr>"

definition test_view :: "bytes \<Rightarrow> i64 \<Rightarrow> int \<Rightarrow> os_view" where
  "test_view aud written now =
     \<lparr>os_stat = (\<lambda>_. Inr (view_meta written)),
      os_open = (\<lambda>_. Inr \<lparr>f_metadata = Inr (view_meta written), f_read = Inr (view_lines aud)\<rparr>),
      os_now = now * 10 ^ 9\<rparr>"

definition get_config :: "os_view \<Rightarrow> bytes cache_state \<Rightarrow> (nat \<times> bytes cache_state) option" where
  "get_config os st =
     (case cache_config os [''config=/tmp/config''] st of Some (Ret (Inr cid), st') \<Rightarrow> Some (cid, st') | _ \<Rightarrow> None)"

definition config_file_changes_replace_the_policy :: bool where
  "config_file_changes_replace_the_policy \<longleftrightarrow>
     (let old = test_view ''first'' 1000 1002; new = test_view ''secnd'' 1003 1003 in
      case Option.bind (get_config old cache_new) (\<lambda>(first, st).
           Option.bind (get_config old st) (\<lambda>(again, st).
           Option.bind (get_config new st) (\<lambda>(second, st).
           map_option (\<lambda>(reread, st). first = again \<and> second \<noteq> reread \<and>
               trusted_aud (cfg_args (configs st ! second)) = [''secnd'']) (get_config new st)))) of
        Some b \<Rightarrow> b | None \<Rightarrow> False)"

section \<open>All tests pass\<close>

lemma jwks_tests:
  "jwks_ignores_rsa_oaep_encryption_key"
  "empty_trusted_audience_configuration_is_rejected"
  "legacy_algorithm_policy_is_preserved"
  "explicit_allow_list_replaces_legacy_list"
  "disallowed_username_is_rejected"
  "scopes_are_space_delimited"
  "empty_trusted_issuer_configuration_is_rejected"
  "empty_explicit_algorithm_allow_list_is_rejected"
  "invalid_jwks_shapes_are_rejected"
  "duplicate_jwk_kid_is_rejected"
  "jwks_ignores_keys_that_cannot_verify_signatures"
  by code_simp+

lemma policy_tests:
  "issuer_validation_rejects_missing_wrong_and_non_string_values"
  "audience_validation_supports_string_and_array"
  "authorized_party_validation_covers_missing_type_and_value"
  "authorized_party_is_optional_when_not_configured"
  "required_scopes_are_exact_tokens"
  "uid_must_be_a_non_empty_string"
  "uid_must_not_carry_whitespace_or_control_characters"
  "algorithm_key_type_matching_is_strict"
  "signing_key_metadata_must_match_token_algorithm"
  by code_simp+

lemma date_tests:
  "numeric_date_accepts_numbers_and_rejects_other_types"
  by code_simp+

lemma message_tests:
  "round_trip"
  by code_simp+

lemma inline_args_tests:
  "only_from_preserves_all_hosts"
  "only_from_skips_empty_entries"
  "empty_only_from_allows_no_host"
  "every_only_from_argument_must_match"
  "config_cannot_be_combined_with_inline_options"
  by code_simp+

lemma rejected_file_tests:
  "config_file_writable_by_others_is_rejected"
  "config_file_rejects_empty_values"
  by code_simp+

text \<open>A file that parses is evaluated through what its options denote.\<close>

definition no_options :: policy_options where
  "no_options =
     \<lparr>opt_uid_attr = ''preferred_username'', opt_grace = 3, opt_trusted_issuer = None, opt_jwks_path = None,
      opt_trusted_audiences = [], opt_trusted_authorized_parties = [], opt_required_scopes = [],
      opt_disallowed_usernames = [], opt_allowed_algorithms = None, opt_disallowed_algorithms = []\<rparr>"

lemma file_getter_eq: "file_getter entries = (\<lambda>name. Inr (map_of entries name))"
  by (rule ext) (rule file_getter_map_of)

lemma lines_of_render: "lines_of (map (\<lambda>(k, v). k @ '': '' @ v) entries) = render_entries entries"
  by (induction entries) (auto simp: lines_of_def render_entries_def render_entry_def)

lemma parse_config_run:
  assumes "list_all well_formed_entry entries"
    and "options_of (\<lambda>name. Inr (map_of entries name)) opts"
  shows "parse_config (lines_of (map (\<lambda>(k, v). k @ '': '' @ v) entries)) = Some (Inr (args_of_options opts))"
  unfolding lines_of_render using assms parse_render_entries [of entries "args_of_options opts"]
  by (auto simp: list_all_iff)

lemma show_index: "show_nat 0 = ''0''" "show_nat (Suc 0) = ''1''" "show_nat (Suc (Suc 0)) = ''2''"
  by code_simp+

lemmas denote_simps = options_of_def grace_value_def algorithm_values_def list_values_def
  non_empty_def show_index no_options_def

lemma sasl_options_config:
  "parse_config (lines_of (map (\<lambda>(k, v). k @ '': '' @ v)
     [(''oauthbearer_userid'', ''uid''), (''oauthbearer_grace'', ''7''),
      (''oauthbearer_trusted_iss0'', ''issuer''), (''oauthbearer_trusted_jwks0'', ''keys.json''),
      (''oauthbearer_trusted_aud0'', ''audience''), (''oauthbearer_trusted_aud1'', ''second'')])) =
   Some (Inr (args_of_options (no_options\<lparr>opt_uid_attr := ''uid'', opt_grace := 7,
     opt_trusted_issuer := Some ''issuer'', opt_jwks_path := Some ''keys.json'',
     opt_trusted_audiences := [''audience'', ''second'']\<rparr>)))"
proof (rule parse_config_run)
  have "parse_i64 ''7'' = Inr 7" by code_simp
  then show "options_of (\<lambda>name. Inr (map_of [(''oauthbearer_userid'', ''uid''), (''oauthbearer_grace'', ''7''),
       (''oauthbearer_trusted_iss0'', ''issuer''), (''oauthbearer_trusted_jwks0'', ''keys.json''),
       (''oauthbearer_trusted_aud0'', ''audience''), (''oauthbearer_trusted_aud1'', ''second'')] name))
     (no_options\<lparr>opt_uid_attr := ''uid'', opt_grace := 7, opt_trusted_issuer := Some ''issuer'',
       opt_jwks_path := Some ''keys.json'', opt_trusted_audiences := [''audience'', ''second'']\<rparr>)"
    by (auto simp: denote_simps)
qed code_simp

lemma unindexed_config:
  "parse_config (lines_of (map (\<lambda>(k, v). k @ '': '' @ v)
     [(''oauthbearer_disallowed_username'', ''root, admin''), (''oauthbearer_disallowed_alg'', ''HS256'')])) =
   Some (Inr (args_of_options (no_options\<lparr>opt_disallowed_usernames := [''root'', ''admin''],
     opt_disallowed_algorithms := [HS256]\<rparr>)))"
proof (rule parse_config_run)
  let ?get = "\<lambda>name. Inr (map_of [(''oauthbearer_disallowed_username'', ''root, admin''),
      (''oauthbearer_disallowed_alg'', ''HS256'')] name) :: option_error + bytes option"
  have "filter (\<lambda>f. f \<noteq> []) (split_on (\<lambda>c. c = CHR '','' \<or> is_ascii_whitespace c) ''root, admin'') = [''root'', ''admin'']"
    "filter (\<lambda>f. f \<noteq> []) (split_on (\<lambda>c. c = CHR '','' \<or> is_ascii_whitespace c) ''HS256'') = [''HS256'']"
    by code_simp+
  then have lists: "list_values ?get ''oauthbearer_disallowed_username'' [''root'', ''admin'']"
    "list_values ?get ''oauthbearer_disallowed_alg'' [''HS256'']"
    by (simp_all add: list_values_def show_index)
  have names: "parse_algorithm_name ''HS256'' = Some HS256" "named_algorithms [''HS256''] = [HS256]"
    by code_simp+
  have "algorithm_values ?get ''oauthbearer_disallowed_alg'' [''HS256''] [HS256]"
    using lists names by (simp add: algorithm_values_def)
  moreover have "algorithm_values ?get ''oauthbearer_allowed_alg'' [] []"
    by (simp add: algorithm_values_def list_values_def show_index)
  ultimately show "options_of ?get
     (no_options\<lparr>opt_disallowed_usernames := [''root'', ''admin''], opt_disallowed_algorithms := [HS256]\<rparr>)"
    unfolding options_of_def using lists
    by (intro conjI exI [of _ "[]"] exI [of _ None] exI [of _ "[''HS256'']"])
      (simp_all add: grace_value_def non_empty_def show_index no_options_def)
qed code_simp

lemma missing_index_config:
  "parse_config (lines_of (map (\<lambda>(k, v). k @ '': '' @ v)
     [(''oauthbearer_trusted_aud0'', ''a''), (''oauthbearer_trusted_aud2'', ''c'')])) =
   Some (Inr (args_of_options (no_options\<lparr>opt_trusted_audiences := [''a'']\<rparr>)))"
proof (rule parse_config_run)
  show "options_of (\<lambda>name. Inr (map_of [(''oauthbearer_trusted_aud0'', ''a''), (''oauthbearer_trusted_aud2'', ''c'')] name))
     (no_options\<lparr>opt_trusted_audiences := [''a'']\<rparr>)"
    by (auto simp: denote_simps)
qed code_simp

lemma line_rules_config:
  "parse_config (lines_of [''# comment'', ''OAuthBearer_Trusted_Iss0: https://first/#frag'',
     ''oauthbearer_trusted_iss0: second'']) =
   Some (Inr (args_of_options (no_options\<lparr>opt_trusted_issuer := Some ''https://first/#frag''\<rparr>)))"
proof -
  let ?entries = "[(''oauthbearer_trusted_iss0'', ''https://first/#frag''), (''oauthbearer_trusted_iss0'', ''second'')]"
  have "parse_entries 0 (str_lines (lines_of [''# comment'',
      ''OAuthBearer_Trusted_Iss0: https://first/#frag'', ''oauthbearer_trusted_iss0: second''])) [] = Inr ?entries"
    by code_simp
  moreover have "options_of (\<lambda>name. Inr (map_of ?entries name))
     (no_options\<lparr>opt_trusted_issuer := Some ''https://first/#frag''\<rparr>)"
    by (auto simp: denote_simps)
  then have "read (file_getter ?entries) = Some (Inr (no_options\<lparr>opt_trusted_issuer := Some ''https://first/#frag''\<rparr>))"
    unfolding read_eq file_getter_eq .
  ultimately show ?thesis by (simp add: parse_config_def)
qed

lemma config_file_tests:
  "config_file_accepts_unindexed_list_options"
  "config_file_follows_cyrus_line_rules"
  "config_file_stops_at_the_first_missing_index"
  using unindexed_config line_rules_config missing_index_config
  by (simp_all add: config_file_accepts_unindexed_list_options_def config_file_follows_cyrus_line_rules_def
      config_file_stops_at_the_first_missing_index_def args_satisfy_def args_of_options_def no_options_def)

lemma read_test_file:
  assumes "parse_config contents = Some (Inr args)" and "from_utf8 contents = Some contents"
  shows "read_config_file (test_file 0x8180 contents) = Some (Inr (args, sample_meta\<lparr>md_mode := 0x8180\<rparr>))"
  using assms
  by (simp add: read_config_file_def test_file_def writable_by_others_def read_to_string_def sample_meta_def)

lemma sasl_options_test: "config_file_uses_sasl_options"
proof -
  have "from_utf8 (lines_of (map (\<lambda>(k, v). k @ '': '' @ v)
     [(''oauthbearer_userid'', ''uid''), (''oauthbearer_grace'', ''7''),
      (''oauthbearer_trusted_iss0'', ''issuer''), (''oauthbearer_trusted_jwks0'', ''keys.json''),
      (''oauthbearer_trusted_aud0'', ''audience''), (''oauthbearer_trusted_aud1'', ''second'')])) =
    Some (lines_of (map (\<lambda>(k, v). k @ '': '' @ v)
     [(''oauthbearer_userid'', ''uid''), (''oauthbearer_grace'', ''7''),
      (''oauthbearer_trusted_iss0'', ''issuer''), (''oauthbearer_trusted_jwks0'', ''keys.json''),
      (''oauthbearer_trusted_aud0'', ''audience''), (''oauthbearer_trusted_aud1'', ''second'')]))"
    by code_simp
  from read_test_file [OF sasl_options_config this] show ?thesis
    by (simp add: config_file_uses_sasl_options_def args_satisfy_def args_of_options_def no_options_def)
qed

lemma view_config:
  assumes "aud \<in> {''first'', ''secnd''}"
  shows "parse_config (view_lines aud) =
   Some (Inr (args_of_options (no_options\<lparr>opt_trusted_issuer := Some ''issuer'',
     opt_jwks_path := Some ''keys.json'', opt_trusted_audiences := [aud]\<rparr>)))"
proof -
  let ?entries = "[(''oauthbearer_trusted_iss0'', ''issuer''), (''oauthbearer_trusted_jwks0'', ''keys.json''),
      (''oauthbearer_trusted_aud0'', aud)]"
  have "list_all well_formed_entry
      [(''oauthbearer_trusted_iss0'', ''issuer''), (''oauthbearer_trusted_jwks0'', ''keys.json''),
       (''oauthbearer_trusted_aud0'', ''first''), (''oauthbearer_trusted_aud0'', ''secnd'')]" by code_simp
  with assms have "list_all well_formed_entry ?entries" by auto
  moreover have "options_of (\<lambda>name. Inr (map_of ?entries name))
     (no_options\<lparr>opt_trusted_issuer := Some ''issuer'', opt_jwks_path := Some ''keys.json'',
       opt_trusted_audiences := [aud]\<rparr>)"
    using assms by (auto simp: denote_simps)
  ultimately show ?thesis
    using parse_config_run by (fastforce simp: view_lines_def)
qed

definition view_args :: "bytes \<Rightarrow> pam_args" where
  "view_args aud = args_of_options (no_options\<lparr>opt_trusted_issuer := Some ''issuer'',
     opt_jwks_path := Some ''keys.json'', opt_trusted_audiences := [aud]\<rparr>)"

lemma view_read:
  assumes "aud \<in> {''first'', ''secnd''}"
  shows "read_config_file (os_open (test_view aud written now) path) = Some (Inr (view_args aud, view_meta written))"
proof -
  have "list_all (\<lambda>aud. from_utf8 (view_lines aud) = Some (view_lines aud)) [''first'', ''secnd'']" by code_simp
  with assms have "from_utf8 (view_lines aud) = Some (view_lines aud)" by auto
  with view_config [OF assms] show ?thesis
    by (simp add: test_view_def read_config_file_def writable_by_others_def read_to_string_def
        sample_meta_def view_args_def view_meta_def)
qed

lemma view_times:
  "settled (os_now (test_view ''first'' 1000 1002)) (view_meta 1000) = Ret (Some (stamp_of (view_meta 1000)))"
  "settled (os_now (test_view ''secnd'' 1003 1003)) (view_meta 1003) = Ret None"
  "stamp_of (view_meta 1000) \<noteq> stamp_of (view_meta 1003)"
  "config_path [''config=/tmp/config''] = Inr (Some ''/tmp/config'')"
  by code_simp+

lemma view_stat: "config_stat (test_view aud written now) (Some path) = Inr (Some (stamp_of (view_meta written)))"
  by (simp add: config_stat_def test_view_def view_meta_def)

lemma cache_test: "config_file_changes_replace_the_policy"
  by (simp add: config_file_changes_replace_the_policy_def get_config_def cache_config_def config_locked_def
      load_config_def view_times view_stat view_read cache_new_def cache_hit_def cache_store_def view_args_def args_of_options_def)

end
