(* ===== verification/Spec2Isabelle.thy ===== *)
theory Spec2Isabelle
  imports Pam_Memory Pam_Threads Sasl_Exchange Server_Memory Client_Memory Messages Unit_Tests
begin

text \<open>
  crudeoauth authenticates with OAuth 2.0 bearer tokens: a PAM module and a Cyrus SASL plugin for the
  mechanism OAUTHBEARER (RFC 7628), over one core that verifies JWT access tokens against a JWKS file
  and a policy. This development models the Rust code of all three crates and proves what each part
  promises, and what they promise together.

  \<^bold>\<open>The parts and how they interact.\<close>

  \<^item> \<open>core/src/jwt.rs\<close>: \<open>JwtVerifier::from_jwks_json\<close> selects the signature keys of a JWKS document,
    \<open>verify\<close> checks a token. Theories \<open>Jwt_Types\<close> (algorithms, errors, policy, key metadata), \<open>Jwt_Claims\<close>
    (everything after the signature, the clock an argument), \<open>Jwt_Verifier\<close> (loading and verifying).
  \<^item> \<open>core/src/rfc7628.rs\<close>: the messages of the mechanism. Theory \<open>Rfc7628\<close>.
  \<^item> \<open>core/src/config.rs\<close>: the \<open>oauthbearer_*\<close> options, read through a lookup function. Theory
    \<open>Policy_Options\<close>; the SASL plugin looks up through libsasl2, the PAM module in its own file.
  \<^item> \<open>pam/src/lib.rs\<close>, \<open>cache.rs\<close>, \<open>ffi.rs\<close>: arguments and configuration file (\<open>Pam_Args\<close>), the process-wide
    cache of configurations and verifiers (\<open>Pam_Cache\<close>), \<open>authenticate\<close> and the entry points (\<open>Pam_Auth\<close>),
    the conversation on explicit memory (\<open>Pam_Memory\<close>), calls of several threads at once, cut where
    the mutexes of the cache let others in (\<open>Pam_Threads\<close>).
  \<^item> \<open>sasl/src/ffi.rs\<close>, \<open>lib.rs\<close>: the wrappers of the plugin interface (\<open>Sasl_Ffi\<close>); \<open>config.rs\<close>, \<open>server.rs\<close>:
    \<open>Sasl_Server\<close>, and on explicit memory \<open>Server_Memory\<close>; \<open>client.rs\<close>: \<open>Sasl_Client\<close> and \<open>Client_Memory\<close>.
  \<^item> \<open>Messages\<close>: the \<open>Display\<close> texts of all errors and the log lines and error texts of both front ends.
  \<^item> \<open>Sasl_Exchange\<close> runs client and server against each other; this theory compares the two front ends.
  \<^item> \<open>Unit_Tests\<close>: the unit tests inside the source files, run on the model.
  \<^item> \<open>Prelude\<close>, \<open>Rust_Str\<close>, \<open>Rust_Num\<close>, \<open>Rust_Fmt\<close>, \<open>Rust_Collections\<close>, \<open>Json\<close>, \<open>Store\<close>: what the code uses of Rust and its
    standard library (results, panics, slices, UTF-8, trimming, integers at their width, \<open>f64\<close> as its
    exact value, hash maps, the \<open>serde_json\<close> value type, memory with addresses).

  \<^bold>\<open>How the code is read.\<close> A function has the name it has in the source. A byte is a \<open>char\<close>, a string the
  list of its UTF-8 bytes. \<open>Result<T, E>\<close> is \<open>'e + 't\<close>; a function that may panic (slice indexing, time
  arithmetic, \<open>unreachable!()\<close>) returns a \<open>flow\<close>, \<open>Ret\<close> or \<open>Panic\<close>; one that may not return (the loop over
  numbered options) is a \<open>partial_function\<close> into \<open>option\<close>. No fuel is used. In the memory theories
  \<open>None\<close> is undefined behaviour: a read, write or \<open>free\<close> of an address that is not allocated. State is
  passed explicitly: the PAM cache, the output slot and parameters of a SASL connection, the store.

  \<^bold>\<open>What is outside and a parameter.\<close> \<open>serde_json\<close> and \<open>jsonwebtoken\<close> are the record \<open>jwt_lib\<close>; libsasl2 and
  its application are \<open>sasl_utils\<close> and \<open>canon_user\<close>; libpam and the user database are \<open>pam_handle\<close>; the file
  system is \<open>os_view\<close>, the clock an argument; the Unicode tables behind \<open>{:?}\<close> are \<open>char_tables\<close>. They may answer anything, differently in every call, except
  where a theorem names a hypothesis: a lookup knows finitely many options (\<open>option_source\<close>), a file
  with an unchanged stamp has unchanged content (\<open>os_honest\<close>), libsasl2 disposes what it opened
  (\<open>permitted\<close>), a PAM conversation allocates what it returns (\<open>carries_out\<close>), no control character is
  printable (\<open>tables_ok\<close>).

  \<^bold>\<open>What the theorems show.\<close>

  \<^item> Contracts: \<open>check_claims\<close> and \<open>verify\<close> accept exactly what the policy and the keys allow; loading keeps
    exactly the usable signature keys; the parser accepts exactly the grammar; options, inline arguments
    and configuration files denote what they should; a server step succeeds exactly under the stated
    conditions.
  \<^item> End to end: PAM success means that a token for this very user was accepted under the policy of this
    stack line; success of the SASL plugin means the same under the options it was loaded with, and the
    identities it handed on are the verified and the requested one.
    Client and server agree on every clean token, and end after four steps at most. Both front ends build
    the same verifier from the same options.
  \<^item> State: the cache serves only current configurations and verifiers, under every sequence of calls; a
    call that threads interrupt is as safe as one alone, and has its answer after six steps of its own; a
    server publishes nothing but the fixed error document; the plugins neither use freed memory nor leak;
    the PAM module erases the secret it asked for.
  \<^item> Records: every failure of a server step sets an error text, a rejected token is logged with the reason
    by both front ends, in one line that nothing in the token can break or suppress.
  \<^item> Totality: no panic reaches a caller, nothing loops on a finite configuration, every failure has its
    documented code. Lengths that leave through C pointers are 32 bits wide and wrap like the code's casts.
  \<^item> Tests: every assertion of the unit tests holds of the model, two tests of the cache aside.

  The locales are the interfaces: \<open>hash_map_ops\<close> (the key table and the cache), \<open>option_source\<close> (the PAM file
  as a source of options), \<open>machine\<close> (cache and server session as step functions with an invariant),
  \<open>allocator\<close> (the store of the memory theories); each is interpreted on the model's definitions.

  \<^bold>\<open>Not modelled.\<close> The texts of errors that libraries made (I/O, JSON), which error values carry as
  given. Poisoned mutexes, which the code uses as if they were not poisoned. The
  identity of allocations, which two unit tests of the cache compare. Integration tests, build files and
  packaging. A \<open>fork\<close> in a thread, signals, and the memory model below a mutex.
\<close>

section \<open>One configuration, two front ends\<close>

text \<open>The names both front ends look up hold no NUL byte, so the plugin's C strings can name them all.\<close>

lemma show_nat_no_nul [simp]: "CHR 0x00 \<notin> set (show_nat n)"
  using show_nat_digits [of "CHR 0x00" n] by auto

lemma option_names_no_nul: "name \<in> option_names \<Longrightarrow> CHR 0x00 \<notin> set name"
  by (auto simp: option_names_def plain_names_def list_names_def numbered_names_def)

lemma config_policy_of_options: "config_policy (args_of_options opts) issuer = policy_of_options opts issuer"
  by (simp add: config_policy_def args_of_options_def policy_of_options_def)

lemma build_verifier_reads:
  assumes "os_open os path = Inr fh" "f_metadata fh = Inr meta" "f_read fh = Inr raw" "valid_utf8 raw"
    and "settled (os_now os) meta = Ret stmp" and "from_jwks_json lib (config_policy a issuer) raw = Inr v"
  shows "build_verifier lib os a issuer path = Ret (Inr (stmp, v))"
  using assms by (simp add: build_verifier_def Let_def result_simps read_to_string_def from_utf8_def)


definition sample_entries :: "(bytes \<times> bytes) list" where
  "sample_entries = [(''oauthbearer_trusted_iss0'', ''issuer''), (''oauthbearer_trusted_jwks0'', ''/keys''),
     (''oauthbearer_trusted_aud0'', ''ldap''), (''oauthbearer_userid'', ''uid'')]"

lemma sample_getopt:
  assumes "name \<in> option_names"
  shows "utils_option (sample_utils\<lparr>su_getopt := Some (\<lambda>name. (0, map_of sample_entries name))\<rparr>) name =
    Inr (map_of sample_entries name)"
proof -
  have "\<forall>(k, v) \<in> set sample_entries. from_utf8_lossy v = v" by code_simp
  then have "map_option from_utf8_lossy (map_of sample_entries name) = map_of sample_entries name"
    by (cases "map_of sample_entries name") (auto dest: map_of_SomeD)
  with option_names_no_nul [OF assms] show ?thesis
    by (simp add: utils_option_def cstring_new_def result_simps)
qed

definition sample_opts :: policy_options where
  "sample_opts =
     \<lparr>opt_uid_attr = ''uid'', opt_grace = 3, opt_trusted_issuer = Some ''issuer'',
      opt_jwks_path = Some ''/keys'', opt_trusted_audiences = [''ldap''],
      opt_trusted_authorized_parties = [], opt_required_scopes = [], opt_disallowed_usernames = [],
      opt_allowed_algorithms = None, opt_disallowed_algorithms = []\<rparr>"

definition loaded_server :: "bytes server_config" where
  "loaded_server = \<lparr>tls_required = True,
     sc_verifier = \<lparr>v_policy = policy_of_options sample_opts ''issuer'', v_keys = v_keys sample_verifier\<rparr>\<rparr>"

definition sample_framework :: sasl_utils where
  "sample_framework = sample_utils\<lparr>su_getopt := Some (\<lambda>name. (0, map_of sample_entries name))\<rparr>"

lemma sample_options: "options_of (\<lambda>name. Inr (map_of sample_entries name)) sample_opts"
proof -
  have "show_nat 0 = ''0''" "show_nat (Suc 0) = ''1''" by code_simp+
  then show ?thesis
    by (auto simp: sample_entries_def sample_opts_def options_of_def grace_value_def algorithm_values_def
        list_values_def non_empty_def)
qed

lemma sample_from_sasl: "from_sasl sample_lib (\<lambda>p. Inr ''jwks'') sample_framework = Some (Inr loaded_server)"
proof -
  have "options_of (utils_option sample_framework) sample_opts"
    using sample_options read_cong [OF sample_getopt] by (simp add: sample_framework_def flip: read_eq)
  moreover have "from_jwks_json sample_lib (policy_of_options sample_opts ''issuer'') ''jwks'' =
      Inr (sc_verifier loaded_server)" "opt_trusted_issuer sample_opts = Some ''issuer''"
      "opt_jwks_path sample_opts = Some ''/keys''" "tls_required loaded_server"
    by code_simp+
  moreover have "utils_option sample_framework ''oauthbearer_no_tls'' = Inr None" "valid_utf8 ''jwks''" by code_simp+
  ultimately show ?thesis by (subst from_sasl_Inr) auto
qed


section \<open>The plugin end to end\<close>

lemma plug_init_OK:
  "sasl_server_plug_init lib read_file (Some utils) maxvers True = Some (SASL_OK, Some config) \<longleftrightarrow>
     SASL_SERVER_PLUG_VERSION \<le> maxvers \<and> from_sasl lib read_file utils = Some (Inr config)"
  by (cases "from_sasl lib read_file utils") (auto simp: sasl_server_plug_init_def sasl_codes split: sum.splits)

lemma server_mech_step_OK:
  assumes "server_mech_step lib clock (Some config) params client_in len out given io = (SASL_OK, io')"
  obtains p utils input where "params = Some p" "sp_utils p = Some utils"
    "server_step lib clock utils config input (sp_canon_user p) io = (Ret SASL_OK, io')"
    "input = (case client_in of None \<Rightarrow> [] | Some mem \<Rightarrow> take (unat len) mem)"
proof -
  have guard: "sasl_guard r = SASL_OK \<longleftrightarrow> r = Ret SASL_OK" for r
    by (cases r) (auto simp: sasl_guard_def sasl_codes)
  from assms obtain p where p: "params = Some p" by (cases params) (auto simp: server_mech_step_def sasl_codes)
  moreover from assms p obtain utils where utils: "sp_utils p = Some utils" "out" "given"
    "\<not> (client_in = None \<and> len \<noteq> 0)"
    by (cases "sp_utils p"; cases out; cases given) (auto simp: server_mech_step_def sasl_codes split: if_splits)
  moreover have "(case client_in of None \<Rightarrow> [] | Some mem \<Rightarrow> if len = 0 then [] else take (unat len) mem) =
      (case client_in of None \<Rightarrow> [] | Some mem \<Rightarrow> take (unat len) mem)" by (cases client_in) auto
  ultimately show thesis
    using assms
    by (intro that [OF _ _ _ refl]) (auto simp: server_mech_step_def guard cong: option.case_cong split: prod.splits)
qed

text \<open>C2: The plugin grants access only for a verified token: if a plugin that loaded with the options of its
  framework ends a connection with success, then those options name an issuer and a key file, the
  connection was protected unless they switch this off, the input was a client message, and its token is
  accepted, now, under the policy the options denote, by a verifier made from the key file, for exactly
  the identity that is handed to the framework.\<close>

theorem sasl_success_sound:
  assumes "u64_val secs \<le> i64_max"
    and "sasl_server_plug_init lib read_file (Some framework) maxvers True = Some (SASL_OK, Some config)"
    and "server_mech_step lib (Some secs) (Some config) params client_in len out given io = (SASL_OK, io')"
  shows "\<exists>opts issuer path raw p utils resp uid. options_of (utils_option framework) opts \<and>
    opt_trusted_issuer opts = Some issuer \<and> opt_jwks_path opts = Some path \<and> read_file path = Inr raw \<and>
    from_jwks_json lib (policy_of_options opts issuer) raw = Inr (sc_verifier config) \<and>
    v_policy (sc_verifier config) = policy_of_options opts issuer \<and>
    params = Some p \<and> sp_utils p = Some utils \<and>
    (utils_option framework ''oauthbearer_no_tls'' \<noteq> Inr (Some ''1'') \<longrightarrow>
       (\<exists>ssf. external_ssf utils = Inr ssf \<and> 256 \<le> ssf)) \<and>
    client_message (case client_in of None \<Rightarrow> [] | Some mem \<Rightarrow> take (unat len) mem) resp \<and>
    token_accepted lib (u64_val secs) (sc_verifier config) (token resp) uid \<and>
    canon_calls (oparams io') = canon_calls (oparams io) @ canon_names uid (authzid resp)"
proof -
  from assms(2) have "from_sasl lib read_file framework = Some (Inr config)" by (simp add: plug_init_OK)
  then obtain opts issuer path raw no_tls where conf: "options_of (utils_option framework) opts"
    "opt_trusted_issuer opts = Some issuer" "opt_jwks_path opts = Some path" "read_file path = Inr raw"
    "utils_option framework ''oauthbearer_no_tls'' = Inr no_tls" "tls_required config = (no_tls \<noteq> Some ''1'')"
    "from_jwks_json lib (policy_of_options opts issuer) raw = Inr (sc_verifier config)"
    unfolding from_sasl_Inr by blast
  from assms(3) obtain p utils input where step: "params = Some p" "sp_utils p = Some utils"
    "server_step lib (Some secs) utils config input (sp_canon_user p) io = (Ret SASL_OK, io')"
    "input = (case client_in of None \<Rightarrow> [] | Some mem \<Rightarrow> take (unat len) mem)"
    by (rule server_mech_step_OK)
  from step(3) obtain resp uid c where ok: "tls_error utils config = None" "client_message input resp"
    "verify lib (Some secs) (sc_verifier config) (token resp) = Inr uid"
    "server_canon c uid (authzid resp) (io\<lparr>out_slot := None\<rparr>) = (SASL_OK, io')"
    by (auto simp: server_step_OK)
  from ok(3) have "token_accepted lib (u64_val secs) (sc_verifier config) (token resp) uid"
    by (simp add: verify_Inr token_accepted_def check_claims_Inr [OF assms(1)])
  moreover from ok(4) have "canon_calls (oparams io') = canon_calls (oparams io) @ canon_names uid (authzid resp)"
    by (simp add: server_canon_OK)
  moreover from conf(7) have "v_policy (sc_verifier config) = policy_of_options opts issuer"
    by (auto simp: from_jwks_json_Inr)
  moreover from ok(1) conf(5,6) have "utils_option framework ''oauthbearer_no_tls'' \<noteq> Inr (Some ''1'') \<longrightarrow>
      (\<exists>ssf. external_ssf utils = Inr ssf \<and> 256 \<le> ssf)"
    by (auto simp: tls_error_None)
  ultimately show ?thesis using conf step ok(2) by blast
qed

definition sample_params :: server_params where
  "sample_params = \<lparr>sp_utils = Some sample_utils, sp_canon_user = Some (\<lambda>n f. SASL_OK)\<rparr>"

lemma sample_mech_step:
  "fst (server_mech_step sample_lib (Some 1002) (Some loaded_server) (Some sample_params) (Some sample_message)
     (of_nat (length sample_message)) True True fresh_io) = SASL_OK"
proof -
  have "parse_client_response sample_message = Ret (Inr \<lparr>authzid = Some ''bob'', token = sample_token\<rparr>)"
    and small: "length sample_message < 100" "tls_error sample_utils loaded_server = None"
    and uid: "verify sample_lib (Some 1002) (sc_verifier loaded_server) sample_token = Inr ''alice''"
    and canon: "fst (server_canon (\<lambda>n f. SASL_OK) ''alice'' (Some ''bob'') (fresh_io\<lparr>out_slot := None\<rparr>)) = SASL_OK"
    by code_simp+
  then have msg: "client_message sample_message \<lparr>authzid = Some ''bob'', token = sample_token\<rparr>"
    by (simp add: parse_client_message_iff)
  have len: "unat (of_nat (length sample_message) :: 32 word) = length sample_message"
    using small(1) by (simp add: unat_of_nat)
  have "fst (server_step sample_lib (Some 1002) sample_utils loaded_server sample_message
      (Some (\<lambda>n f. SASL_OK)) fresh_io) = Ret SASL_OK" (is "fst ?step = _")
    using small uid canon by (subst server_step_verified [OF _ _ msg]) (auto simp: MAX_CLIENTIN_LEN_def split: prod.splits)
  then obtain io' where "?step = (Ret SASL_OK, io')" by (metis prod.collapse)
  moreover have "(of_nat (length sample_message) :: 32 word) \<noteq> 0" by code_simp
  ultimately show ?thesis
    by (simp add: server_mech_step_def sample_params_def len sasl_guard_def)
qed

theorem sasl_success_sound_witness:
  "\<exists>opts issuer (resp :: client_response) uid. options_of (utils_option sample_framework) opts \<and> opt_trusted_issuer opts = Some issuer \<and>
     v_policy (sc_verifier loaded_server) = policy_of_options opts issuer \<and>
     token_accepted sample_lib 1002 (sc_verifier loaded_server) (token resp) uid"
proof -
  have secs: "u64_val (1002 :: u64) \<le> i64_max" "u64_val (1002 :: u64) = 1002" by (simp_all add: i64_max_def)
  have init: "sasl_server_plug_init sample_lib (\<lambda>p. Inr ''jwks'') (Some sample_framework) 4 True =
      Some (SASL_OK, Some loaded_server)"
    by (simp add: plug_init_OK sample_from_sasl SASL_SERVER_PLUG_VERSION_def)
  obtain io' where "server_mech_step sample_lib (Some 1002) (Some loaded_server) (Some sample_params)
      (Some sample_message) (of_nat (length sample_message)) True True fresh_io = (SASL_OK, io')"
    using sample_mech_step by (metis prod.collapse)
  from sasl_success_sound [OF secs(1) init this, unfolded secs(2)] show ?thesis by blast
qed

end
